(* ===== verification/Prelude.thy ===== *)
theory Prelude
  imports Main "HOL-Library.Product_Lexorder" "HOL-Library.List_Lexorder" "HOL-Library.Char_ord"
begin

text \<open>
  Shared vocabulary of the development: the Python exceptions the backend raises or
  catches, the result type of a fallible call, Python dictionaries as association lists
  in insertion order, and the list lemmas that several components use.
\<close>

section \<open>Collections of facts\<close>

named_theorems result_simps
named_theorems dict_simps
named_theorems date_simps

section \<open>Exceptions and results\<close>

text \<open>A call of the source either raises (\<open>Inl\<close>) or returns (\<open>Inr\<close>).\<close>

datatype exn =
    PromptInjectionBlocked
  | OutputValidationError string
  | RuntimeError string
  | ValueError string
  | TypeError string
  | SupervisorUnavailable string
  | OtherError string

text \<open>\<open>bind_res\<close> is also used by the HTTP layer, whose failures carry a status code.\<close>

type_synonym 'a result = "exn + 'a"

definition bind_res :: "'e + 'a \<Rightarrow> ('a \<Rightarrow> 'e + 'b) \<Rightarrow> 'e + 'b" where
  "bind_res r f = (case r of Inl e \<Rightarrow> Inl e | Inr a \<Rightarrow> f a)"

lemma bind_res_simps [simp, result_simps]:
  "bind_res (Inl e) f = Inl e" "bind_res (Inr a) f = f a"
  by (simp_all add: bind_res_def)

lemma bind_res_Inr: "bind_res r f = Inr b \<longleftrightarrow> (\<exists>a. r = Inr a \<and> f a = Inr b)"
  by (cases r) auto

text \<open>\<open>try: ... except Exception: ...\<close> with a value for the exceptional case.\<close>

definition or_else :: "'a result \<Rightarrow> 'a \<Rightarrow> 'a" where
  "or_else r d = (case r of Inl _ \<Rightarrow> d | Inr a \<Rightarrow> a)"

lemma or_else_simps [simp]: "or_else (Inl e) d = d" "or_else (Inr a) d = a"
  by (simp_all add: or_else_def)

fun map_res :: "('a \<Rightarrow> 'b result) \<Rightarrow> 'a list \<Rightarrow> 'b list result" where
  "map_res f [] = Inr []"
| "map_res f (x # xs) = bind_res (f x) (\<lambda>y. bind_res (map_res f xs) (\<lambda>ys. Inr (y # ys)))"

section \<open>Dictionaries in insertion order\<close>

text \<open>
  \<open>d[k] = v\<close> keeps the position of an existing key and appends a new one;
  \<open>d.setdefault(k, v)\<close> only appends.
\<close>

type_synonym ('k, 'v) dict = "('k \<times> 'v) list"

fun dict_set :: "'k \<Rightarrow> 'v \<Rightarrow> ('k, 'v) dict \<Rightarrow> ('k, 'v) dict" where
  "dict_set k v [] = [(k, v)]"
| "dict_set k v ((k', v') # d) = (if k = k' then (k, v) # d else (k', v') # dict_set k v d)"

definition dict_setdefault :: "'k \<Rightarrow> 'v \<Rightarrow> ('k, 'v) dict \<Rightarrow> ('k, 'v) dict" where
  "dict_setdefault k v d = (if map_of d k = None then d @ [(k, v)] else d)"

definition dict_keys :: "('k, 'v) dict \<Rightarrow> 'k list" where
  "dict_keys d = map fst d"

definition dict_get :: "('k, 'v) dict \<Rightarrow> 'k \<Rightarrow> 'v \<Rightarrow> 'v" where
  "dict_get d k v = (case map_of d k of None \<Rightarrow> v | Some w \<Rightarrow> w)"

lemma map_of_dict_set [simp, dict_simps]:
  "map_of (dict_set k v d) = (map_of d)(k \<mapsto> v)"
  by (induction k v d rule: dict_set.induct) auto

lemma fst_dict_set [dict_simps]: "fst ` set (dict_set k v d) = insert k (fst ` set d)"
  by (induction k v d rule: dict_set.induct) auto

lemma distinct_dict_set:
  "distinct (map fst d) \<Longrightarrow> distinct (map fst (dict_set k v d))"
proof (induction k v d rule: dict_set.induct)
  case (2 k v k' v' d)
  then show ?case
    using fst_dict_set [of k v d] by auto
qed simp

lemma map_of_append_single:
  "map_of (d @ [(k, v)]) k' = (case map_of d k' of Some w \<Rightarrow> Some w | None \<Rightarrow> if k' = k then Some v else None)"
  by (induction d) auto

lemma map_of_setdefault [dict_simps]:
  "map_of (dict_setdefault k v d) k' =
     (if k' = k \<and> map_of d k = None then Some v else map_of d k')"
  by (simp add: dict_setdefault_def map_of_append_single del: map_of_append split: option.splits)

lemma distinct_setdefault:
  "distinct (map fst d) \<Longrightarrow> distinct (map fst (dict_setdefault k v d))"
  by (auto simp: dict_setdefault_def map_of_eq_None_iff)

section \<open>Lists\<close>

text \<open>\<open>list(dict.fromkeys(xs))\<close>: first occurrences, in order.\<close>

fun fromkeys_acc :: "'a list \<Rightarrow> 'a list \<Rightarrow> 'a list" where
  "fromkeys_acc seen [] = []"
| "fromkeys_acc seen (x # xs) =
     (if x \<in> set seen then fromkeys_acc seen xs else x # fromkeys_acc (x # seen) xs)"

definition fromkeys :: "'a list \<Rightarrow> 'a list" where
  "fromkeys xs = fromkeys_acc [] xs"

lemma set_fromkeys_acc: "set (fromkeys_acc seen xs) = set xs - set seen"
  by (induction seen xs rule: fromkeys_acc.induct) auto

lemma distinct_fromkeys_acc: "distinct (fromkeys_acc seen xs)"
  by (induction seen xs rule: fromkeys_acc.induct) (auto simp: set_fromkeys_acc)

lemma set_fromkeys [simp]: "set (fromkeys xs) = set xs"
  by (simp add: fromkeys_def set_fromkeys_acc)

lemma distinct_fromkeys [simp]: "distinct (fromkeys xs)"
  by (simp add: fromkeys_def distinct_fromkeys_acc)

text \<open>\<open>sorted(set)\<close> of Python: the distinct elements in ascending order.\<close>

definition sorted_set :: "'a::linorder list \<Rightarrow> 'a list" where
  "sorted_set xs = sort (remdups xs)"

lemma sorted_set_props [simp]:
  "set (sorted_set xs) = set xs" "sorted (sorted_set xs)" "distinct (sorted_set xs)"
  by (simp_all add: sorted_set_def)

text \<open>\<open>enumerate(xs, start)\<close>.\<close>

definition enumerate_from :: "nat \<Rightarrow> 'a list \<Rightarrow> (nat \<times> 'a) list" where
  "enumerate_from n xs = zip [n..<n + length xs] xs"

lemma length_enumerate_from [simp]: "length (enumerate_from n xs) = length xs"
  by (simp add: enumerate_from_def)

lemma map_snd_enumerate_from [simp]: "map snd (enumerate_from n xs) = xs"
  by (simp add: enumerate_from_def)

lemma enumerate_from_Nil [simp]: "enumerate_from n [] = []"
  by (simp add: enumerate_from_def)

lemma enumerate_from_Cons [simp]:
  "enumerate_from n (x # xs) = (n, x) # enumerate_from (Suc n) xs"
  by (simp add: enumerate_from_def upt_rec)

lemma set_enumerate_from: "(i, x) \<in> set (enumerate_from n xs) \<Longrightarrow> n \<le> i \<and> i < n + length xs \<and> x \<in> set xs"
  unfolding enumerate_from_def by (metis atLeastLessThan_iff set_upt set_zip_leftD set_zip_rightD)

text \<open>
  \<open>max(xs, key=f)\<close> of Python: the first element with the greatest key.
\<close>

fun max_by :: "('a \<Rightarrow> 'b::linorder) \<Rightarrow> 'a \<Rightarrow> 'a list \<Rightarrow> 'a" where
  "max_by f best [] = best"
| "max_by f best (x # xs) = max_by f (if f best < f x then x else best) xs"

lemma max_by_in: "max_by f b xs \<in> insert b (set xs)"
proof (induction f b xs rule: max_by.induct)
  case (2 f best x xs)
  then show ?case by (auto split: if_splits)
qed simp

lemma max_by_ge_start: "f b \<le> f (max_by f b xs)"
proof (induction f b xs rule: max_by.induct)
  case (2 f best x xs)
  then show ?case by (auto split: if_splits)
qed simp

lemma max_by_ge: "y \<in> set xs \<Longrightarrow> f y \<le> f (max_by f b xs)"
proof (induction f b xs rule: max_by.induct)
  case (2 f best x xs)
  show ?case
  proof (cases "y = x")
    case True
    have "f x \<le> f (if f best < f x then x else best)" by auto
    also have "\<dots> \<le> f (max_by f (if f best < f x then x else best) xs)"
      by (rule max_by_ge_start)
    finally show ?thesis using True by simp
  next
    case False
    with 2 show ?thesis by simp
  qed
qed simp

text \<open>The first \<open>k\<close> of a list sorted by key: nothing left out has a smaller key.\<close>

lemma take_sort_key_best:
  assumes "x \<in> set (take k (sort_key f xs))" and "y \<in> set (drop k (sort_key f xs))"
  shows "f x \<le> f y"
proof -
  have "sorted (map f (take k (sort_key f xs) @ drop k (sort_key f xs)))"
    by simp
  then show ?thesis using assms by (auto simp: sorted_append simp del: append_take_drop_id)
qed

lemma set_take_sort_key: "set (take k (sort_key f xs)) \<subseteq> set xs"
  using set_take_subset [of k "sort_key f xs"] by simp

lemma distinct_take_sort_key: "distinct xs \<Longrightarrow> distinct (take k (sort_key f xs))"
  by simp

lemma sum_list_map_le_filter:
  fixes f :: "'a \<Rightarrow> nat"
  shows "sum_list (map f (filter P xs)) \<le> sum_list (map f xs)"
  by (induction xs) auto

lemma count_list_map_filter:
  "length (filter (\<lambda>x. f x = k) xs) = count_list (map f xs) k"
  by (induction xs) auto

lemma length_filter_sum:
  "length (filter P xs) = (\<Sum>x\<leftarrow>xs. if P x then 1 else 0)"
  by (induction xs) auto

text \<open>Loops: what every iteration keeps, the whole loop keeps.\<close>

lemma foldl_invariant:
  assumes "P a" and "\<And>a x. x \<in> set xs \<Longrightarrow> P a \<Longrightarrow> P (f a x)"
  shows "P (foldl f a xs)"
  using assms by (induction xs arbitrary: a) auto

end
