(* ===== verification/PyText.thy ===== *)
theory PyText
  imports Prelude "HOL-Library.Sublist"
begin

text \<open>
  Python's \<open>str\<close> operations as the backend uses them, on ASCII text: a \<open>string\<close> is a list
  of characters and \<open>casefold\<close>, \<open>strip\<close>, \<open>isdigit\<close> and the word class of regular
  expressions are those of code points 0 to 127. Text outside ASCII is outside the model.
\<close>

section \<open>Character classes\<close>

definition code :: "char \<Rightarrow> int" where
  "code c = of_char c"

definition is_space :: "char \<Rightarrow> bool" where
  "is_space c \<longleftrightarrow> (9 \<le> code c \<and> code c \<le> 13) \<or> (28 \<le> code c \<and> code c \<le> 32)"

definition is_digit :: "char \<Rightarrow> bool" where
  "is_digit c \<longleftrightarrow> 48 \<le> code c \<and> code c \<le> 57"

definition is_upper :: "char \<Rightarrow> bool" where
  "is_upper c \<longleftrightarrow> 65 \<le> code c \<and> code c \<le> 90"

definition is_lower :: "char \<Rightarrow> bool" where
  "is_lower c \<longleftrightarrow> 97 \<le> code c \<and> code c \<le> 122"

definition is_word :: "char \<Rightarrow> bool" where
  "is_word c \<longleftrightarrow> is_digit c \<or> is_upper c \<or> is_lower c \<or> code c = 95"

definition lower_char :: "char \<Rightarrow> char" where
  "lower_char c = (if is_upper c then char_of (code c + 32) else c)"

definition upper_char :: "char \<Rightarrow> char" where
  "upper_char c = (if is_lower c then char_of (code c - 32) else c)"

definition newline :: char where
  "newline = CHR 0x0A"

lemma code_char_of [simp]: "0 \<le> n \<Longrightarrow> n < 256 \<Longrightarrow> code (char_of n) = n"
  by (simp add: code_def)

lemma lower_char_idem [simp]: "lower_char (lower_char c) = lower_char c"
  by (auto simp: lower_char_def is_upper_def)

lemma is_space_lower [simp]: "is_space (lower_char c) = is_space c"
  by (auto simp: lower_char_def is_upper_def is_space_def)

section \<open>Case, whitespace, substrings\<close>

text \<open>\<open>str.casefold\<close> and \<open>str.lower\<close> agree on ASCII.\<close>

definition casefold :: "string \<Rightarrow> string" where
  "casefold s = map lower_char s"

definition upper_str :: "string \<Rightarrow> string" where
  "upper_str s = map upper_char s"

definition lstrip :: "string \<Rightarrow> string" where
  "lstrip s = dropWhile is_space s"

definition rstrip :: "string \<Rightarrow> string" where
  "rstrip s = rev (dropWhile is_space (rev s))"

definition strip :: "string \<Rightarrow> string" where
  "strip s = rstrip (lstrip s)"

lemma casefold_idem [simp]: "casefold (casefold s) = casefold s"
  by (simp add: casefold_def)

lemma casefold_append [simp]: "casefold (s @ t) = casefold s @ casefold t"
  by (simp add: casefold_def)

lemma casefold_Nil_iff [simp]: "casefold s = [] \<longleftrightarrow> s = []"
  by (simp add: casefold_def)

lemma length_casefold [simp]: "length (casefold s) = length s"
  by (simp add: casefold_def)

lemma strip_Nil [simp]: "strip [] = []"
  by (simp add: strip_def rstrip_def lstrip_def)

lemma rstrip_idem_end: "rstrip s = [] \<or> \<not> is_space (last (rstrip s))"
proof (cases "dropWhile is_space (rev s)")
  case Nil
  then show ?thesis by (simp add: rstrip_def)
next
  case (Cons c cs)
  then have "\<not> is_space c"
    using hd_dropWhile [of is_space "rev s"] by simp
  then show ?thesis by (simp add: rstrip_def Cons)
qed

lemma rstrip_prefix: "\<exists>w. s = rstrip s @ w \<and> (\<forall>c\<in>set w. is_space c)"
proof -
  have "rev s = takeWhile is_space (rev s) @ dropWhile is_space (rev s)"
    by simp
  then have "s = rev (dropWhile is_space (rev s)) @ rev (takeWhile is_space (rev s))"
    by (metis rev_append rev_rev_ident)
  then show ?thesis
    by (auto simp: rstrip_def dest: set_takeWhileD intro!: exI [of _ "rev (takeWhile is_space (rev s))"])
qed

lemma rstrip_eqI: "t = [] \<or> \<not> is_space (last t) \<Longrightarrow> rstrip t = t"
proof -
  assume a: "t = [] \<or> \<not> is_space (last t)"
  have "dropWhile is_space (rev t) = rev t"
    using a by (cases t rule: rev_cases) auto
  then show "rstrip t = t" by (simp add: rstrip_def)
qed

lemma strip_eqI:
  "t = [] \<or> \<not> is_space (hd t) \<and> \<not> is_space (last t) \<Longrightarrow> strip t = t"
proof -
  assume a: "t = [] \<or> \<not> is_space (hd t) \<and> \<not> is_space (last t)"
  then have "lstrip t = t" by (cases t) (auto simp: lstrip_def)
  then show "strip t = t" using a rstrip_eqI [of t] by (auto simp: strip_def)
qed

lemma strip_ends: "strip s = [] \<or> \<not> is_space (hd (strip s)) \<and> \<not> is_space (last (strip s))"
proof (cases "strip s = []")
  case False
  obtain w where w: "lstrip s = strip s @ w"
    using rstrip_prefix [of "lstrip s"] by (auto simp: strip_def)
  have "lstrip s \<noteq> []" using False w by auto
  then have "\<not> is_space (hd (lstrip s))"
    unfolding lstrip_def by (rule hd_dropWhile)
  moreover have "hd (lstrip s) = hd (strip s)"
    using False w by simp
  moreover have "\<not> is_space (last (strip s))"
    using False rstrip_idem_end [of "lstrip s"] by (simp add: strip_def)
  ultimately show ?thesis by simp
qed simp

lemma strip_idem [simp]: "strip (strip s) = strip s"
  by (rule strip_eqI) (rule strip_ends)

lemma set_strip: "set (strip s) \<subseteq> set s"
  by (auto simp: strip_def rstrip_def lstrip_def dest!: set_dropWhileD)

lemma length_strip: "length (strip s) \<le> length s"
  unfolding strip_def rstrip_def lstrip_def
  by (metis length_dropWhile_le length_rev le_trans)

text \<open>\<open>needle in hay\<close>.\<close>

fun contains :: "string \<Rightarrow> string \<Rightarrow> bool" where
  "contains n [] = (n = [])"
| "contains n (c # cs) = (prefix n (c # cs) \<or> contains n cs)"

lemma contains_sublist: "contains n s \<longleftrightarrow> sublist n s"
  by (induction n s rule: contains.induct) (auto simp: sublist_Cons_right)

lemma contains_append: "contains n s \<Longrightarrow> contains n (s @ t)"
  unfolding contains_sublist by (meson sublist_append sublist_appendI sublist_order.order_trans)

definition startswith :: "string \<Rightarrow> string \<Rightarrow> bool" where
  "startswith s p = prefix p s"

fun join :: "string \<Rightarrow> string list \<Rightarrow> string" where
  "join sep [] = []"
| "join sep [x] = x"
| "join sep (x # y # ys) = x @ sep @ join sep (y # ys)"

text \<open>\<open>s.replace(old, new)\<close> for a non-empty \<open>old\<close>; \<open>str.partition\<close> at one character.\<close>

function replace_all :: "string \<Rightarrow> string \<Rightarrow> string \<Rightarrow> string" where
  "replace_all old new s =
     (if old = [] then s
      else if s = [] then []
      else if prefix old s then new @ replace_all old new (drop (length old) s)
      else hd s # replace_all old new (tl s))"
  by pat_completeness auto
termination
  by (relation "measure (\<lambda>(old, new, s). length s)") auto

declare replace_all.simps [simp del]

definition partition_at :: "char \<Rightarrow> string \<Rightarrow> string \<times> bool \<times> string" where
  "partition_at c s =
     (takeWhile (\<lambda>x. x \<noteq> c) s, c \<in> set s, tl (dropWhile (\<lambda>x. x \<noteq> c) s))"

text \<open>\<open>s.split()\<close>: the maximal runs of non-whitespace.\<close>

function words :: "string \<Rightarrow> string list" where
  "words s =
     (let t = dropWhile is_space s
      in if t = [] then [] else takeWhile (\<lambda>c. \<not> is_space c) t # words (dropWhile (\<lambda>c. \<not> is_space c) t))"
  by pat_completeness auto
termination
proof (relation "measure length", goal_cases)
  case (2 s t)
  have h: "\<not> is_space (hd t)" using 2 hd_dropWhile by blast
  obtain c cs where c: "t = c # cs" using 2(2) by (meson neq_Nil_conv)
  have "length (dropWhile (\<lambda>c. \<not> is_space c) t) \<le> length cs"
    using h c by (simp add: length_dropWhile_le)
  also have "\<dots> < length t" using c by simp
  also have "length t \<le> length s" using 2 by (simp add: length_dropWhile_le)
  finally show ?case by simp
qed simp

declare words.simps [simp del]

definition is_token :: "string \<Rightarrow> bool" where
  "is_token w \<longleftrightarrow> w \<noteq> [] \<and> (\<forall>c\<in>set w. \<not> is_space c)"

lemma words_tokens: "w \<in> set (words s) \<Longrightarrow> is_token w"
proof (induction s rule: words.induct)
  case (1 s)
  define t where "t = dropWhile is_space s"
  show ?case
  proof (cases "t = []")
    case True
    with "1.prems" show ?thesis by (simp add: words.simps [of s] t_def)
  next
    case False
    then have h: "\<not> is_space (hd t)" unfolding t_def by (rule hd_dropWhile)
    have "is_token (takeWhile (\<lambda>c. \<not> is_space c) t)"
      using False h by (cases t) (auto simp: is_token_def dest: set_takeWhileD)
    moreover have "w = takeWhile (\<lambda>c. \<not> is_space c) t \<or> w \<in> set (words (dropWhile (\<lambda>c. \<not> is_space c) t))"
      using "1.prems" False by (simp add: words.simps [of s] t_def [symmetric] Let_def)
    ultimately show ?thesis using "1.IH" [OF t_def False] by auto
  qed
qed

lemma words_Nil [simp]: "words [] = []"
  by (simp add: words.simps [of "[]"])

lemma words_token_space:
  assumes "is_token w" and "is_space c"
  shows "words (w @ c # s) = w # words (c # s)"
proof -
  have d: "dropWhile is_space (w @ c # s) = w @ c # s"
    using assms(1) by (cases w) (auto simp: is_token_def)
  have t: "takeWhile (\<lambda>c. \<not> is_space c) (w @ c # s) = w"
    using assms by (subst takeWhile_append2) (auto simp: is_token_def)
  have e: "dropWhile (\<lambda>c. \<not> is_space c) (w @ c # s) = c # s"
    using assms by (subst dropWhile_append2) (auto simp: is_token_def)
  show ?thesis
    by (subst words.simps) (use d t e in \<open>simp add: Let_def\<close>)
qed

lemma words_token: "is_token w \<Longrightarrow> words w = [w]"
proof -
  assume a: "is_token w"
  have d: "dropWhile is_space w = w" using a by (cases w) (auto simp: is_token_def)
  have t: "takeWhile (\<lambda>c. \<not> is_space c) w = w"
    using a by (simp add: is_token_def)
  have e: "dropWhile (\<lambda>c. \<not> is_space c) w = []"
    using a by (simp add: is_token_def dropWhile_eq_Nil_conv)
  have ne: "w \<noteq> []" using a by (simp add: is_token_def)
  show "words w = [w]"
    by (subst words.simps) (simp only: d Let_def t e words_Nil ne if_False)
qed

lemma words_space: "is_space c \<Longrightarrow> words (c # s) = words s"
  by (subst (1 2) words.simps) simp

text \<open>Joining tokens by a space and splitting again gives the tokens back.\<close>

lemma words_join:
  "\<forall>w\<in>set ws. is_token w \<Longrightarrow> words (join '' '' ws) = ws"
proof (induction "'' '' :: string" ws rule: join.induct)
  case (2 x)
  then show ?case by (simp add: words_token)
next
  case (3 x y ys)
  have sp: "is_space (CHR '' '')" by (simp add: is_space_def code_def)
  have "words (x @ CHR '' '' # join '' '' (y # ys)) = x # words (join '' '' (y # ys))"
    using 3 sp by (simp add: words_token_space words_space)
  then show ?case using 3 by simp
qed simp

text \<open>\<open>s.splitlines()\<close> and \<open>s.isupper()\<close>.\<close>

definition is_linebreak :: "char \<Rightarrow> bool" where
  "is_linebreak c \<longleftrightarrow> (10 \<le> code c \<and> code c \<le> 13) \<or> (28 \<le> code c \<and> code c \<le> 30)"

fun splitlines_acc :: "string \<Rightarrow> string \<Rightarrow> string list" where
  "splitlines_acc line [] = (if line = [] then [] else [rev line])"
| "splitlines_acc line [c] = (if is_linebreak c then [rev line] else [rev (c # line)])"
| "splitlines_acc line (c # d # cs) =
     (if code c = 13 \<and> code d = 10 then rev line # splitlines_acc [] cs
      else if is_linebreak c then rev line # splitlines_acc [] (d # cs)
      else splitlines_acc (c # line) (d # cs))"

definition splitlines :: "string \<Rightarrow> string list" where
  "splitlines s = splitlines_acc [] s"

definition isupper :: "string \<Rightarrow> bool" where
  "isupper s \<longleftrightarrow> list_ex is_upper s \<and> \<not> list_ex is_lower s"

section \<open>Decimal numbers\<close>

definition digit_char :: "nat \<Rightarrow> char" where
  "digit_char d = char_of (48 + int d)"

definition digit_val :: "char \<Rightarrow> nat" where
  "digit_val c = nat (code c - 48)"

fun nat_str :: "nat \<Rightarrow> string" where
  "nat_str n = (if n < 10 then [digit_char n] else nat_str (n div 10) @ [digit_char (n mod 10)])"

declare nat_str.simps [simp del]

definition int_str :: "int \<Rightarrow> string" where
  "int_str i = (if i < 0 then ''-'' @ nat_str (nat (- i)) else nat_str (nat i))"

definition digits_val :: "string \<Rightarrow> nat" where
  "digits_val s = foldl (\<lambda>a c. 10 * a + digit_val c) 0 s"

lemma digit_char_props [simp]:
  "d < 10 \<Longrightarrow> is_digit (digit_char d)" "d < 10 \<Longrightarrow> digit_val (digit_char d) = d"
  "d < 10 \<Longrightarrow> \<not> is_space (digit_char d)"
  by (simp_all add: digit_char_def is_digit_def digit_val_def is_space_def)

lemma nat_str_digits: "\<forall>c\<in>set (nat_str n). is_digit c"
proof (induction n rule: nat_str.induct)
  case (1 n)
  then show ?case by (cases "n < 10") (auto simp: nat_str.simps [of n])
qed

lemma nat_str_nonempty [simp]: "nat_str n \<noteq> []"
  by (subst nat_str.simps) simp

lemma digits_val_snoc [simp]: "digits_val (s @ [c]) = 10 * digits_val s + digit_val c"
  by (simp add: digits_val_def)

lemma digits_val_nat_str [simp]: "digits_val (nat_str n) = n"
proof (induction n rule: nat_str.induct)
  case (1 n)
  show ?case
  proof (cases "n < 10")
    case True
    then show ?thesis by (simp add: nat_str.simps [of n] digits_val_def)
  next
    case False
    with 1 show ?thesis by (simp add: nat_str.simps [of n])
  qed
qed

text \<open>
  \<open>int(s)\<close> on text: surrounding whitespace, a sign, digits with single underscores between
  them; anything else raises \<open>ValueError\<close> (\<open>None\<close>).
\<close>

fun digit_groups :: "bool \<Rightarrow> string \<Rightarrow> bool" where
  "digit_groups prev [] = prev"
| "digit_groups prev (c # cs) =
     (if is_digit c then digit_groups True cs
      else c = CHR ''_'' \<and> prev \<and> cs \<noteq> [] \<and> is_digit (hd cs) \<and> digit_groups False cs)"

definition parse_unsigned :: "string \<Rightarrow> nat option" where
  "parse_unsigned s =
     (if digit_groups False s then Some (digits_val (filter is_digit s)) else None)"

definition parse_int :: "string \<Rightarrow> int option" where
  "parse_int s =
     (case strip s of
        [] \<Rightarrow> None
      | c # cs \<Rightarrow>
          if c = CHR ''-'' then map_option (\<lambda>n. - int n) (parse_unsigned cs)
          else if c = CHR ''+'' then map_option int (parse_unsigned cs)
          else map_option int (parse_unsigned (c # cs)))"

lemma digit_groups_digits: "\<forall>c\<in>set s. is_digit c \<Longrightarrow> digit_groups p s = (p \<or> s \<noteq> [])"
  by (induction p s rule: digit_groups.induct) auto

lemma parse_unsigned_nat_str [simp]: "parse_unsigned (nat_str n) = Some n"
  using nat_str_digits [of n]
  by (simp add: parse_unsigned_def digit_groups_digits filter_id_conv [THEN iffD2])

lemma strip_digits: "\<forall>c\<in>set s. is_digit c \<Longrightarrow> strip s = s"
proof (rule strip_eqI, cases "s = []")
  case False
  assume a: "\<forall>c\<in>set s. is_digit c"
  have "is_digit (hd s)" "is_digit (last s)" using a False by auto
  then show "s = [] \<or> \<not> is_space (hd s) \<and> \<not> is_space (last s)"
    by (auto simp: is_digit_def is_space_def)
qed simp

lemma parse_int_nat_str: "parse_int (nat_str n) = Some (int n)"
proof -
  have "strip (nat_str n) = nat_str n" by (rule strip_digits) (rule nat_str_digits)
  moreover obtain c cs where c: "nat_str n = c # cs" by (cases "nat_str n") auto
  moreover have "is_digit c" using nat_str_digits [of n] c by simp
  ultimately show ?thesis
    using parse_unsigned_nat_str [of n] by (auto simp: parse_int_def is_digit_def code_def)
qed

lemma nat_str_inj [simp]: "nat_str m = nat_str n \<longleftrightarrow> m = n"
  by (metis nat_int parse_int_nat_str option.inject)

end
