(* ===== verification/PyFloat.thy ===== *)
theory PyFloat
  imports PyText Complex_Main
begin

text \<open>
  Python's \<open>float\<close> as the rational it denotes: every arithmetic operation is the exact
  rational result rounded to 53 significant bits, ties to even (\<open>fl64\<close>). The exponent is
  not bounded, so infinities, NaN, overflow and subnormal numbers are outside the model.
  \<open>round\<close> is half-to-even, as in Python 3.
\<close>

section \<open>Rounding to an integer\<close>

definition round_half_even :: "rat \<Rightarrow> int" where
  "round_half_even x =
     (let f = floor x; r = x - of_int f
      in if r < 1 / 2 then f else if r > 1 / 2 then f + 1 else if even f then f else f + 1)"

lemma round_half_even_of_int [simp]: "round_half_even (of_int n) = n"
  by (simp add: round_half_even_def)

lemma round_half_even_bounds:
  "x - 1 / 2 \<le> of_int (round_half_even x)" "of_int (round_half_even x) \<le> x + 1 / 2"
proof -
  define f where "f = floor x"
  have f: "of_int f \<le> x" "x < of_int f + 1" unfolding f_def by linarith+
  have "round_half_even x =
      (if x - of_int f < 1 / 2 then f else if x - of_int f > 1 / 2 then f + 1 else if even f then f else f + 1)"
    by (simp add: round_half_even_def f_def Let_def)
  then show "x - 1 / 2 \<le> of_int (round_half_even x)" "of_int (round_half_even x) \<le> x + 1 / 2"
    using f by (simp_all split: if_splits)
qed

lemma round_half_even_floor:
  "round_half_even x = floor x \<or> round_half_even x = floor x + 1"
  by (auto simp: round_half_even_def Let_def)

lemma round_half_even_mono:
  assumes "x \<le> y"
  shows "round_half_even x \<le> round_half_even y"
proof (cases "floor x = floor y")
  case True
  then show ?thesis using assms by (auto simp: round_half_even_def Let_def)
next
  case False
  with assms have "floor x + 1 \<le> floor y" using floor_mono [OF assms] by linarith
  then show ?thesis using round_half_even_floor [of x] round_half_even_floor [of y] by auto
qed

lemma round_half_even_minus: "round_half_even (- x) = - round_half_even x"
proof (cases "x = of_int (floor x)")
  case True
  then obtain n where "x = of_int n" by blast
  then show ?thesis using round_half_even_of_int [of n] round_half_even_of_int [of "- n"] by simp
next
  case False
  define f where "f = floor x"
  have b: "of_int f < x" "x < of_int f + 1"
    using False floor_correct [of x] by (auto simp: f_def less_le)
  have m: "floor (- x) = - f - 1"
    using b by (intro floor_unique) auto
  have "even (- f - 1) \<longleftrightarrow> odd f" by simp
  then show ?thesis
    unfolding round_half_even_def m f_def [symmetric] Let_def by (auto simp: field_simps)
qed

section \<open>Binary64\<close>

text \<open>The binary exponent of a positive rational, from the bit lengths of its two halves.\<close>

function bit_len :: "int \<Rightarrow> nat" where
  "bit_len n = (if n \<le> 0 then 0 else Suc (bit_len (n div 2)))"
  by pat_completeness auto

termination by (relation "measure nat") auto

declare bit_len.simps [simp del]

lemma bit_len_bounds: "0 < n \<Longrightarrow> 2 ^ (bit_len n - 1) \<le> n \<and> n < 2 ^ bit_len n"
proof (induction n rule: bit_len.induct)
  case (1 n)
  show ?case
  proof (cases "n div 2 = 0")
    case True
    with "1.prems" have "n = 1" by arith
    then show ?thesis by (simp add: bit_len.simps [of 1] bit_len.simps [of 0])
  next
    case False
    then have h: "0 < n div 2" using "1.prems" by linarith
    have ih: "2 ^ (bit_len (n div 2) - 1) \<le> n div 2 \<and> n div 2 < 2 ^ bit_len (n div 2)"
      using 1 h by simp
    have e: "bit_len n = Suc (bit_len (n div 2))" using "1.prems" by (simp add: bit_len.simps [of n])
    have p: "0 < bit_len (n div 2)" using h by (simp add: bit_len.simps [of "n div 2"])
    then have "2 ^ bit_len (n div 2) = 2 * (2::int) ^ (bit_len (n div 2) - 1)"
      by (cases "bit_len (n div 2)") simp_all
    then have d: "2 ^ bit_len (n div 2) \<le> n" using ih by linarith
    have "n < 2 * 2 ^ bit_len (n div 2)" using ih by linarith
    then show ?thesis using d e by simp
  qed
qed

definition pow2 :: "int \<Rightarrow> rat" where
  "pow2 e = (if 0 \<le> e then 2 ^ nat e else 1 / 2 ^ nat (- e))"

lemma pow2_powi: "pow2 e = 2 powi e"
  by (simp add: pow2_def power_int_def inverse_eq_divide power_divide)

lemma pow2_pos [simp]: "0 < pow2 e"
  by (simp add: pow2_def)

lemma pow2_add: "pow2 (a + b) = pow2 a * pow2 b"
  by (simp add: pow2_powi power_int_add)

lemma pow2_mono: "a \<le> b \<Longrightarrow> pow2 a \<le> pow2 b"
  unfolding pow2_powi by (rule power_int_increasing) auto

lemma pow2_strict: "pow2 a < pow2 b \<longleftrightarrow> a < b"
proof
  show "a < b \<Longrightarrow> pow2 a < pow2 b"
    unfolding pow2_powi by (rule power_int_strict_increasing) auto
  show "pow2 a < pow2 b \<Longrightarrow> a < b"
    using pow2_mono [of b a] by (cases "b \<le> a") auto
qed

definition expo :: "rat \<Rightarrow> int" where
  "expo x =
     (let (p, q) = quotient_of x; e = int (bit_len p) - int (bit_len q)
      in if pow2 e \<le> x then e else e - 1)"

lemma expo_bounds:
  assumes "0 < x"
  shows "pow2 (expo x) \<le> x \<and> x < pow2 (expo x + 1)"
proof -
  obtain p q where pq: "quotient_of x = (p, q)" by fastforce
  have q: "0 < q" using quotient_of_denom_pos [OF pq] .
  have x: "x = of_int p / of_int q" using quotient_of_div [OF pq] .
  have p: "0 < p" using assms q by (simp add: x zero_less_divide_iff)
  define a where "a = bit_len p"
  define b where "b = bit_len q"
  have bounds: "pow2 (int (bit_len n) - 1) \<le> of_int n \<and> of_int n < pow2 (int (bit_len n))" if n: "0 < n" for n
  proof -
    have k: "0 < bit_len n" using n by (simp add: bit_len.simps [of n])
    have "(of_int (2 ^ (bit_len n - 1)) :: rat) \<le> of_int n" "(of_int n :: rat) < of_int (2 ^ bit_len n)"
      using bit_len_bounds [OF n] by (simp_all only: of_int_le_iff of_int_less_iff)
    then show ?thesis using k by (simp add: pow2_def nat_diff_distrib)
  qed
  have pr: "pow2 (int a - 1) \<le> of_int p" "of_int p < pow2 (int a)"
    using bounds [OF p] by (simp_all add: a_def)
  have qr: "pow2 (int b - 1) \<le> of_int q" "of_int q < pow2 (int b)"
    using bounds [OF q] by (simp_all add: b_def)
  define e where "e = int a - int b"
  have qpos: "(0::rat) < of_int q" using q by simp
  have up: "x < pow2 (e + 1)"
  proof -
    have "of_int p < pow2 (int a)" by (rule pr(2))
    also have "\<dots> = pow2 (e + 1) * pow2 (int b - 1)" by (simp add: e_def flip: pow2_add)
    also have "\<dots> \<le> pow2 (e + 1) * of_int q" using qr(1) by (simp add: mult_left_mono less_imp_le)
    finally show ?thesis using qpos by (simp add: x pos_divide_less_eq)
  qed
  have lo: "pow2 (e - 1) \<le> x"
  proof -
    have "pow2 (e - 1) * of_int q \<le> pow2 (e - 1) * pow2 (int b)"
      using qr(2) by (simp add: mult_left_mono less_imp_le)
    also have "\<dots> = pow2 (int a - 1)" by (simp add: e_def flip: pow2_add)
    also have "\<dots> \<le> of_int p" by (rule pr(1))
    finally show ?thesis using qpos by (simp add: x pos_le_divide_eq)
  qed
  have "expo x = (if pow2 e \<le> x then e else e - 1)"
    by (simp add: expo_def pq a_def b_def e_def)
  then show ?thesis using up lo by auto
qed

definition fl64 :: "rat \<Rightarrow> rat" where
  "fl64 x =
     (if x = 0 then 0
      else let u = pow2 (expo \<bar>x\<bar> - 52) in of_int (round_half_even (x / u)) * u)"

lemma fl64_zero [simp]: "fl64 0 = 0"
  by (simp add: fl64_def)

lemma fl64_minus: "fl64 (- x) = - fl64 x"
  by (simp add: fl64_def Let_def round_half_even_minus)

lemma fl64_pos_bounds:
  assumes "0 < x"
  shows "pow2 (expo x) \<le> fl64 x" "fl64 x \<le> pow2 (expo x + 1)"
proof -
  define e where "e = expo x"
  define u where "u = pow2 (e - 52)"
  have u: "0 < u" by (simp add: u_def)
  have f: "fl64 x = of_int (round_half_even (x / u)) * u"
    using assms by (simp add: fl64_def u_def e_def Let_def)
  have b: "pow2 e \<le> x" "x \<le> pow2 (e + 1)" using expo_bounds [OF assms] by (auto simp: e_def)
  have s: "pow2 e = of_int (2 ^ 52) * u" "pow2 (e + 1) = of_int (2 ^ 53) * u"
  proof -
    have "pow2 e = pow2 52 * u" by (simp add: u_def flip: pow2_add)
    then show "pow2 e = of_int (2 ^ 52) * u" by (simp add: pow2_def)
    have "pow2 (e + 1) = pow2 53 * u" by (simp add: u_def add.commute flip: pow2_add)
    then show "pow2 (e + 1) = of_int (2 ^ 53) * u" by (simp add: pow2_def)
  qed
  have "round_half_even (of_int (2 ^ 52)) \<le> round_half_even (x / u)"
    using b(1) u by (intro round_half_even_mono) (simp only: s pos_le_divide_eq)
  then have "(of_int (2 ^ 52) :: rat) \<le> of_int (round_half_even (x / u))"
    by (simp only: round_half_even_of_int of_int_le_iff)
  then show "pow2 (expo x) \<le> fl64 x"
    unfolding f e_def [symmetric] s(1) using u by (simp only: mult_right_mono less_imp_le)
  have "round_half_even (x / u) \<le> round_half_even (of_int (2 ^ 53))"
    using b(2) u by (intro round_half_even_mono) (simp only: s pos_divide_le_eq)
  then have "(of_int (round_half_even (x / u)) :: rat) \<le> of_int (2 ^ 53)"
    by (simp only: round_half_even_of_int of_int_le_iff)
  then show "fl64 x \<le> pow2 (expo x + 1)"
    unfolding f e_def [symmetric] s(2) using u by (simp only: mult_right_mono less_imp_le)
qed

lemma fl64_pos: "0 < x \<Longrightarrow> 0 < fl64 x"
  using fl64_pos_bounds(1) [of x] pow2_pos [of "expo x"] by linarith

lemma fl64_mono_pos:
  assumes "0 < x" and "x \<le> y"
  shows "fl64 x \<le> fl64 y"
proof -
  have y: "0 < y" using assms by simp
  have "pow2 (expo x) < pow2 (expo y + 1)"
    using expo_bounds [OF assms(1)] expo_bounds [OF y] assms(2) by linarith
  then have le: "expo x \<le> expo y" by (simp add: pow2_strict)
  show ?thesis
  proof (cases "expo x = expo y")
    case True
    have "round_half_even (x / pow2 (expo y - 52)) \<le> round_half_even (y / pow2 (expo y - 52))"
      using assms(2) by (intro round_half_even_mono) (simp add: divide_right_mono less_imp_le)
    then show ?thesis
      using assms y True by (simp add: fl64_def Let_def mult_right_mono less_imp_le)
  next
    case False
    then have "pow2 (expo x + 1) \<le> pow2 (expo y)" using le by (intro pow2_mono) simp
    then show ?thesis using fl64_pos_bounds(2) [OF assms(1)] fl64_pos_bounds(1) [OF y] by linarith
  qed
qed

lemma fl64_mono: "x \<le> y \<Longrightarrow> fl64 x \<le> fl64 y"
proof -
  assume le: "x \<le> y"
  consider "0 < x" | "x \<le> 0" "0 \<le> y" | "y < 0" by linarith
  then show ?thesis
  proof cases
    case 1
    then show ?thesis using le by (rule fl64_mono_pos)
  next
    case 2
    have "fl64 x \<le> 0"
      using 2 fl64_pos [of "- x"] by (cases "x = 0") (auto simp: fl64_minus)
    moreover have "0 \<le> fl64 y" using 2 fl64_pos [of y] by (cases "y = 0") auto
    ultimately show ?thesis by simp
  next
    case 3
    then have "fl64 (- y) \<le> fl64 (- x)" using le by (intro fl64_mono_pos) auto
    then show ?thesis by (simp add: fl64_minus)
  qed
qed

lemma fl64_nonneg: "0 \<le> x \<Longrightarrow> 0 \<le> fl64 x"
  using fl64_mono [of 0 x] by simp

text \<open>Integers below \<open>2 ^ 53\<close> are represented exactly.\<close>

lemma fl64_of_nat:
  assumes "0 < n" and "n < 2 ^ 53"
  shows "fl64 (of_nat n) = of_nat n"
proof -
  define x :: rat where "x = of_nat n"
  have x: "0 < x" using assms by (simp add: x_def)
  define e where "e = expo x"
  have "pow2 e \<le> x" using expo_bounds [OF x] by (simp add: e_def)
  also have "x < pow2 53"
  proof -
    have "(of_nat n :: rat) < of_nat (2 ^ 53)" using assms(2) by (simp only: of_nat_less_iff)
    then show ?thesis by (simp add: x_def pow2_def)
  qed
  finally have "e < 53" by (simp only: pow2_strict)
  then have u: "1 / pow2 (e - 52) = of_int (2 ^ nat (52 - e))"
    by (simp add: pow2_def)
  have r: "x / pow2 (e - 52) = of_int (int n * 2 ^ nat (52 - e))"
  proof -
    have "x / pow2 (e - 52) = x * (1 / pow2 (e - 52))" by simp
    then show ?thesis by (simp only: u x_def) simp
  qed
  have "fl64 x = of_int (round_half_even (x / pow2 (e - 52))) * pow2 (e - 52)"
    using x by (simp add: fl64_def e_def Let_def)
  also have "\<dots> = (x / pow2 (e - 52)) * pow2 (e - 52)"
    by (simp only: r round_half_even_of_int)
  also have "\<dots> = x" using pow2_pos [of "e - 52"] by (simp add: less_imp_neq [symmetric])
  finally show ?thesis by (simp add: x_def)
qed

lemma fl64_of_int: "\<bar>n\<bar> < 2 ^ 53 \<Longrightarrow> fl64 (of_int n) = of_int n"
proof -
  assume b: "\<bar>n\<bar> < 2 ^ 53"
  have p: "fl64 (of_int m) = of_int m" if "0 < m" "m < 2 ^ 53" for m :: int
    using fl64_of_nat [of "nat m"] that by (simp add: nat_less_iff)
  consider "n = 0" | "0 < n" | "n < 0" by linarith
  then show ?thesis
  proof cases
    case 3
    then have "fl64 (of_int (- n)) = of_int (- n)" using b by (intro p) auto
    then show ?thesis by (simp add: fl64_minus)
  qed (use b p in auto)
qed

lemma fl64_le_of_int: "x \<le> of_int n \<Longrightarrow> \<bar>n\<bar> < 2 ^ 53 \<Longrightarrow> fl64 x \<le> of_int n"
  using fl64_mono [of x "of_int n"] by (simp add: fl64_of_int)

lemma fl64_ge_of_int: "of_int n \<le> x \<Longrightarrow> \<bar>n\<bar> < 2 ^ 53 \<Longrightarrow> of_int n \<le> fl64 x"
  using fl64_mono [of "of_int n" x] by (simp add: fl64_of_int)

section \<open>Operations\<close>

definition fadd :: "rat \<Rightarrow> rat \<Rightarrow> rat" where
  "fadd x y = fl64 (x + y)"

definition fsub :: "rat \<Rightarrow> rat \<Rightarrow> rat" where
  "fsub x y = fl64 (x - y)"

definition fmul :: "rat \<Rightarrow> rat \<Rightarrow> rat" where
  "fmul x y = fl64 (x * y)"

definition fdiv :: "rat \<Rightarrow> rat \<Rightarrow> rat" where
  "fdiv x y = fl64 (x / y)"

definition fdiv_int :: "int \<Rightarrow> int \<Rightarrow> rat" where
  \<comment> \<open>\<open>a / b\<close> of two integers, \<open>b\<close> not 0: the correctly rounded quotient\<close>
  "fdiv_int a b = fl64 (of_int a / of_int b)"

definition flit :: "rat \<Rightarrow> rat" where
  \<comment> \<open>a decimal literal of the source, rounded to the nearest float\<close>
  "flit x = fl64 x"

definition fround :: "nat \<Rightarrow> rat \<Rightarrow> rat" where
  \<comment> \<open>\<open>round(x, n)\<close>: the decimal nearest to \<open>x\<close>, ties to even, as a float\<close>
  "fround n x = fl64 (of_int (round_half_even (x * 10 ^ n)) / 10 ^ n)"

lemma fround_mono: "x \<le> y \<Longrightarrow> fround n x \<le> fround n y"
  unfolding fround_def
  by (intro fl64_mono divide_right_mono) (auto intro!: round_half_even_mono mult_right_mono)

lemma fround_of_int: "\<bar>k\<bar> < 2 ^ 53 \<Longrightarrow> fround n (of_int k) = of_int k"
proof -
  assume b: "\<bar>k\<bar> < 2 ^ 53"
  have "(of_int k :: rat) * 10 ^ n = of_int (k * 10 ^ n)" by simp
  then have "round_half_even (of_int k * 10 ^ n) = k * 10 ^ n"
    by (simp only: round_half_even_of_int)
  then show ?thesis using b by (simp add: fround_def fl64_of_int)
qed

section \<open>Printing and parsing\<close>

text \<open>
  \<open>float(s)\<close> on decimal text: an optional sign, digits with an optional fraction and
  exponent, single underscores between digits. The words for infinities and NaN are not
  read (non-finite floats are outside the model).
\<close>

definition pow10 :: "int \<Rightarrow> rat" where
  "pow10 e = (if 0 \<le> e then 10 ^ nat e else 1 / 10 ^ nat (- e))"

definition parse_mantissa :: "string \<Rightarrow> rat option" where
  "parse_mantissa s =
     (let (ip, dot, fp) = partition_at (CHR ''.'') s;
          digits = (\<lambda>t. filter is_digit t);
          okp = (\<lambda>t. t = [] \<or> digit_groups False t)
      in if okp ip \<and> okp fp \<and> (ip \<noteq> [] \<or> fp \<noteq> []) \<and> (fp = [] \<or> dot)
         then Some (of_nat (digits_val (digits ip)) +
                    of_nat (digits_val (digits fp)) / 10 ^ length (digits fp))
         else None)"

definition parse_exponent :: "string \<Rightarrow> int option" where
  "parse_exponent s =
     (case s of
        [] \<Rightarrow> None
      | c # cs \<Rightarrow>
          if c = CHR ''-'' then map_option (\<lambda>n. - int n) (parse_unsigned cs)
          else if c = CHR ''+'' then map_option int (parse_unsigned cs)
          else map_option int (parse_unsigned (c # cs)))"

definition parse_unsigned_float :: "string \<Rightarrow> rat option" where
  "parse_unsigned_float s =
     (let (m, e, x) = partition_at (CHR ''e'') (casefold s)
      in case parse_mantissa m of
           None \<Rightarrow> None
         | Some r \<Rightarrow>
             if e then map_option (\<lambda>k. fl64 (r * pow10 k)) (parse_exponent x)
             else Some (fl64 r))"

definition parse_float :: "string \<Rightarrow> rat option" where
  "parse_float s =
     (case strip s of
        [] \<Rightarrow> None
      | c # cs \<Rightarrow>
          if c = CHR ''-'' then map_option uminus (parse_unsigned_float cs)
          else if c = CHR ''+'' then parse_unsigned_float cs
          else parse_unsigned_float (c # cs))"

text \<open>\<open>repr(x)\<close>: the shortest decimal that reads back as the same float.\<close>

function dec_len :: "int \<Rightarrow> nat" where
  "dec_len n = (if n < 10 then 1 else Suc (dec_len (n div 10)))"
  by pat_completeness auto

termination by (relation "measure nat") auto

declare dec_len.simps [simp del]

definition expo10 :: "rat \<Rightarrow> int" where
  \<comment> \<open>\<open>e\<close> with \<open>10 ^ e \<le> x < 10 ^ (e + 1)\<close>, from the decimal lengths of the two halves\<close>
  "expo10 x =
     (let (p, q) = quotient_of x;
          e = int (dec_len p) - int (dec_len q)
      in if pow10 e \<le> x then e else e - 1)"

fun shortest_digits :: "nat \<Rightarrow> nat \<Rightarrow> rat \<Rightarrow> int \<Rightarrow> nat \<times> int" where
  \<comment> \<open>\<open>fuel\<close> more digits to try after \<open>n\<close>; 17 digits always suffice\<close>
  "shortest_digits 0 n x e = (nat (round_half_even (x / pow10 (e - int n + 1))), e - int n + 1)"
| "shortest_digits (Suc fuel) n x e =
     (let d = round_half_even (x / pow10 (e - int n + 1))
      in if fl64 (of_int d * pow10 (e - int n + 1)) = x then (nat d, e - int n + 1)
         else shortest_digits fuel (Suc n) x e)"

definition float_str :: "rat \<Rightarrow> string" where
  "float_str x =
     (if x = 0 then ''0.0''
      else let a = \<bar>x\<bar>;
               (d, k) = shortest_digits 16 1 a (expo10 a);
               ds = rev (dropWhile (\<lambda>c. c = CHR ''0'') (rev (nat_str d)));
               e = k + int (length (nat_str d)) - 1;
               sign = (if x < 0 then ''-'' else [])
           in sign @
              (if -4 \<le> e \<and> e < 16 then
                 (if e < 0 then ''0.'' @ replicate (nat (- e - 1)) (CHR ''0'') @ ds
                  else let w = nat (e + 1)
                       in take w (ds @ replicate (w - length ds) (CHR ''0'')) @ ''.'' @
                          (if drop w ds = [] then ''0'' else drop w ds))
               else take 1 ds @ (if drop 1 ds = [] then [] else ''.'' @ drop 1 ds) @ ''e'' @
                    (if e < 0 then ''-'' else ''+'') @
                    (if \<bar>e\<bar> < 10 then ''0'' else []) @ nat_str (nat \<bar>e\<bar>)))"

fun float_sum_from :: "rat \<Rightarrow> rat \<Rightarrow> rat list \<Rightarrow> rat" where
  \<comment> \<open>\<open>sum\<close> of floats with Neumaier's compensation, as CPython 3.12 adds them\<close>
  "float_sum_from acc c [] = (if c = 0 then acc else fadd acc c)"
| "float_sum_from acc c (x # xs) =
     (let t = fadd acc x;
          c' = (if \<bar>x\<bar> \<le> \<bar>acc\<bar> then fadd c (fadd (fsub acc t) x) else fadd c (fadd (fsub x t) acc))
      in float_sum_from t c' xs)"

end
