(* ===== verification/PyDate.thy ===== *)
theory PyDate
  imports PyText
begin

text \<open>
  Python's \<open>date\<close> and \<open>datetime\<close> as the backend uses them: dates as proleptic Gregorian
  ordinals (\<open>date.toordinal\<close>), \<open>isoformat\<close>, \<open>datetime.fromisoformat\<close> and the order of
  ISO strings. Instants are microseconds since day 0 in UTC. \<open>OverflowError\<close> beyond year
  9999 is outside the model: a theorem that prints a date assumes it lies in years 1 to 9999.
\<close>

section \<open>The calendar\<close>

definition is_leap :: "int \<Rightarrow> bool" where
  "is_leap y \<longleftrightarrow> y mod 4 = 0 \<and> (y mod 100 \<noteq> 0 \<or> y mod 400 = 0)"

definition leap_day :: "int \<Rightarrow> int" where
  "leap_day y = (if is_leap y then 1 else 0)"

definition days_before_year :: "int \<Rightarrow> int" where
  "days_before_year y = (y - 1) * 365 + (y - 1) div 4 - (y - 1) div 100 + (y - 1) div 400"

definition days_before_month :: "int \<Rightarrow> int \<Rightarrow> int" where
  "days_before_month l m =
     (if m \<le> 1 then 0 else if m = 2 then 31 else if m = 3 then 59 + l else if m = 4 then 90 + l
      else if m = 5 then 120 + l else if m = 6 then 151 + l else if m = 7 then 181 + l
      else if m = 8 then 212 + l else if m = 9 then 243 + l else if m = 10 then 273 + l
      else if m = 11 then 304 + l else if m = 12 then 334 + l else 365 + l)"

definition days_in_month :: "int \<Rightarrow> int \<Rightarrow> int" where
  "days_in_month y m = days_before_month (leap_day y) (m + 1) - days_before_month (leap_day y) m"

definition month_day :: "int \<Rightarrow> int \<Rightarrow> int \<times> int" where
  \<comment> \<open>month and day of the month for a day of the year, from 0\<close>
  "month_day l n =
     (let m = (if n < 31 then 1 else if n < 59 + l then 2 else if n < 90 + l then 3
        else if n < 120 + l then 4 else if n < 151 + l then 5 else if n < 181 + l then 6
        else if n < 212 + l then 7 else if n < 243 + l then 8 else if n < 273 + l then 9
        else if n < 304 + l then 10 else if n < 334 + l then 11 else 12)
      in (m, n - days_before_month l m + 1))"

definition valid_ymd :: "int \<Rightarrow> int \<Rightarrow> int \<Rightarrow> bool" where
  "valid_ymd y m d \<longleftrightarrow> 1 \<le> y \<and> y \<le> 9999 \<and> 1 \<le> m \<and> m \<le> 12 \<and> 1 \<le> d \<and> d \<le> days_in_month y m"

definition ymd_ord :: "int \<Rightarrow> int \<Rightarrow> int \<Rightarrow> int" where
  "ymd_ord y m d = days_before_year y + days_before_month (leap_day y) m + d"

text \<open>The year of an ordinal: 400-, 100-, 4- and 1-year cycles, as CPython does it.\<close>

definition ord_year :: "int \<Rightarrow> int" where
  "ord_year n =
     (let n0 = n - 1;
          a = n0 div 146097; r1 = n0 mod 146097;
          b = r1 div 36524; r2 = r1 mod 36524;
          c = r2 div 1461; r3 = r2 mod 1461;
          e = r3 div 365
      in if b = 4 \<or> e = 4 then 400 * a + 100 * b + 4 * c + e else 400 * a + 100 * b + 4 * c + e + 1)"

definition ord_ymd :: "int \<Rightarrow> int \<times> int \<times> int" where
  "ord_ymd n =
     (let y = ord_year n; (m, d) = month_day (leap_day y) (n - 1 - days_before_year y)
      in (y, m, d))"

lemma leap_day_range: "0 \<le> leap_day y" "leap_day y \<le> 1"
  by (auto simp: leap_day_def)

lemma days_before_year_Suc: "days_before_year (y + 1) = days_before_year y + 365 + leap_day y"
proof -
  have step: "y div k - (y - 1) div k = (if y mod k = 0 then 1 else 0)" if "1 < k" for k :: int
  proof -
    have y: "y = k * (y div k) + y mod k" by simp
    have r: "0 \<le> y mod k" "y mod k < k" using that by simp_all
    show ?thesis
    proof (cases "y mod k = 0")
      case True
      have "y - 1 = k * (y div k - 1) + (k - 1)"
        using y True by (simp add: right_diff_distrib)
      then have "(y - 1) div k = y div k - 1"
        by (rule int_div_pos_eq) (use that in simp_all)
      then show ?thesis using True by simp
    next
      case False
      have "y - 1 = k * (y div k) + (y mod k - 1)"
        using y by linarith
      then have "(y - 1) div k = y div k"
        by (rule int_div_pos_eq) (use False r in linarith)+
      then show ?thesis using False by simp
    qed
  qed
  have a: "y div 4 - (y - 1) div 4 = (if y mod 4 = 0 then 1 else 0)"
    and b: "y div 100 - (y - 1) div 100 = (if y mod 100 = 0 then 1 else 0)"
    and c: "y div 400 - (y - 1) div 400 = (if y mod 400 = 0 then 1 else 0)"
    by (rule step, simp)+
  have "y mod 100 = y mod 400 mod 100" "y mod 4 = y mod 100 mod 4" by (simp_all add: mod_mod_cancel)
  then have h: "y mod 400 = 0 \<Longrightarrow> y mod 100 = 0" "y mod 100 = 0 \<Longrightarrow> y mod 4 = 0" by simp_all
  have gen: "(if p \<and> (\<not> q \<or> r) then 1 else 0 :: int) =
      (if p then 1 else 0) - (if q then 1 else 0) + (if r then 1 else 0)"
    if "r \<Longrightarrow> q" "q \<Longrightarrow> p" for p q r
    using that by (cases p; cases q; cases r) simp_all
  have l: "leap_day y = (if y mod 4 = 0 then 1 else 0) - (if y mod 100 = 0 then 1 else 0)
      + (if y mod 400 = 0 then 1 else 0)"
    unfolding leap_day_def is_leap_def by (rule gen) (erule h)+
  have d: "days_before_year (y + 1) = y * 365 + y div 4 - y div 100 + y div 400"
    by (simp add: days_before_year_def)
  have e: "days_before_year y = y * 365 - 365 + (y - 1) div 4 - (y - 1) div 100 + (y - 1) div 400"
    by (simp add: days_before_year_def algebra_simps)
  show ?thesis unfolding d e l using a b c by linarith
qed

lemma days_before_year_mono: "y \<le> z \<Longrightarrow> days_before_year y + 365 * (z - y) \<le> days_before_year z"
proof (induction z rule: int_ge_induct)
  case (step z)
  then show ?case using days_before_year_Suc [of z] leap_day_range(1) [of z] by simp
qed simp

lemma ord_year_bounds:
  "days_before_year (ord_year n) < n \<and> n \<le> days_before_year (ord_year n + 1)"
proof -
  define n0 where "n0 = n - 1"
  define a where "a = n0 div 146097"
  define r1 where "r1 = n0 mod 146097"
  define b where "b = r1 div 36524"
  define r2 where "r2 = r1 mod 36524"
  define c where "c = r2 div 1461"
  define r3 where "r3 = r2 mod 1461"
  define e where "e = r3 div 365"
  define r4 where "r4 = r3 mod 365"
  have n0: "n0 = 146097 * a + 36524 * b + 1461 * c + 365 * e + r4"
    by (simp add: a_def b_def c_def e_def r1_def r2_def r3_def r4_def)
  have rng: "0 \<le> r1" "r1 < 146097" "0 \<le> r2" "r2 < 36524" "0 \<le> r3" "r3 < 1461" "0 \<le> r4" "r4 < 365"
    by (simp_all add: r1_def r2_def r3_def r4_def)
  have r1: "r1 = 36524 * b + r2" and r2: "r2 = 1461 * c + r3" and r3: "r3 = 365 * e + r4"
    by (simp_all add: b_def c_def e_def r2_def r3_def r4_def)
  have bb: "0 \<le> b" "b \<le> 4" using rng r1 by linarith+
  have cc: "0 \<le> c" "c \<le> 24" using rng r2 by linarith+
  have ee: "0 \<le> e" "e \<le> 4" using rng r3 by linarith+
  define z where "z = 400 * a + 100 * b + 4 * c + e"
  have dby: "days_before_year (z + 1) = 146097 * a + 36524 * b + 1461 * c + 365 * e + (b div 4) + (e div 4)"
    if "b \<noteq> 4 \<or> c = 0 \<and> e = 0"
  proof -
    have lim: "\<not> (c = 24 \<and> e = 4)" using rng r2 r3 by linarith
    have e4: "e div 4 = (if e = 4 then 1 else 0)" using ee by presburger
    have d4: "z div 4 = 100 * a + 25 * b + c + e div 4"
    proof -
      have "z = e + 4 * (100 * a + 25 * b + c)" by (simp add: z_def)
      then show ?thesis by simp
    qed
    have d100: "z div 100 = 4 * a + b"
    proof -
      have "z = (4 * c + e) + 100 * (4 * a + b)" by (simp add: z_def)
      moreover have "0 \<le> 4 * c + e" "4 * c + e < 100" using cc ee lim by linarith+
      ultimately show ?thesis by simp
    qed
    have d400: "z div 400 = a + (if b = 4 then 1 else 0)"
    proof (cases "b = 4")
      case True
      then have "z = 400 * (a + 1)" using that by (simp add: z_def)
      then show ?thesis using True by simp
    next
      case False
      have "z = (100 * b + 4 * c + e) + 400 * a" by (simp add: z_def)
      moreover have "0 \<le> 100 * b + 4 * c + e" "100 * b + 4 * c + e < 400"
        using False bb cc ee lim by linarith+
      ultimately show ?thesis using False by simp
    qed
    have "b div 4 = (if b = 4 then 1 else 0)" using bb by presburger
    then show ?thesis
      using d4 d100 d400 by (simp add: days_before_year_def z_def)
  qed
  have oy: "ord_year n = (if b = 4 \<or> e = 4 then z else z + 1)"
    by (simp add: ord_year_def n0_def [symmetric] a_def [symmetric] r1_def [symmetric] b_def [symmetric]
        r2_def [symmetric] c_def [symmetric] r3_def [symmetric] e_def [symmetric] z_def Let_def)
  consider "b = 4" | "b \<noteq> 4" "e = 4" | "b \<noteq> 4" "e \<noteq> 4" by blast
  then show ?thesis
  proof cases
    case 1
    then have r: "r2 = 0" using rng r1 by linarith
    then have z: "c = 0" "e = 0" "r4 = 0" using r2 r3 rng cc ee by linarith+
    have y: "ord_year n = z" using 1 oy by simp
    have n: "n = days_before_year (z + 1)" using dby 1 z n0 by (simp add: n0_def)
    then show ?thesis
      using y days_before_year_Suc [of z] leap_day_range [of z] by simp
  next
    case 2
    then have "r4 = 0" using r3 rng by linarith
    then have n: "n = days_before_year (z + 1)" using dby 2 bb n0 by (simp add: n0_def)
    then show ?thesis
      using 2 oy days_before_year_Suc [of z] leap_day_range [of z] by simp
  next
    case 3
    have "b div 4 = 0" "e div 4 = 0" using 3 bb ee by presburger+
    then have n: "n = days_before_year (z + 1) + 1 + r4" using dby 3 n0 by (simp add: n0_def)
    have "ord_year n = z + 1" using 3 oy by simp
    then show ?thesis
      using n rng days_before_year_Suc [of "z + 1"] leap_day_range [of "z + 1"] by simp
  qed
qed

lemma ord_year_unique:
  assumes "days_before_year y < n" and "n \<le> days_before_year (y + 1)"
  shows "ord_year n = y"
proof (rule ccontr)
  assume "ord_year n \<noteq> y"
  then consider "ord_year n + 1 \<le> y" | "y + 1 \<le> ord_year n" by linarith
  then show False
    using assms ord_year_bounds [of n] days_before_year_mono by cases fastforce+
qed

lemma month_day_inverse:
  assumes "month_day l n = (m, d)" "0 \<le> n" "n < 365 + l" "0 \<le> l" "l \<le> 1"
  shows "1 \<le> m \<and> m \<le> 12 \<and> 1 \<le> d \<and> d \<le> days_before_month l (m + 1) - days_before_month l m
    \<and> days_before_month l m + d = n + 1"
  using assms unfolding month_day_def days_before_month_def Let_def
  by (auto split: if_splits)

lemma month_day_of:
  assumes "1 \<le> m" "m \<le> 12" "1 \<le> d" "d \<le> days_before_month l (m + 1) - days_before_month l m"
    "0 \<le> l" "l \<le> 1"
  shows "month_day l (days_before_month l m + d - 1) = (m, d)"
proof -
  have "m = 1 \<or> m = 2 \<or> m = 3 \<or> m = 4 \<or> m = 5 \<or> m = 6 \<or> m = 7 \<or> m = 8 \<or> m = 9 \<or> m = 10 \<or> m = 11 \<or> m = 12"
    using assms(1,2) by presburger
  then show ?thesis
    using assms(3-) by (elim disjE) (simp_all add: month_day_def days_before_month_def)
qed

lemma ymd_ord_ord_ymd: "ord_ymd n = (y, m, d) \<Longrightarrow> ymd_ord y m d = n"
proof -
  assume a: "ord_ymd n = (y, m, d)"
  then have y: "y = ord_year n" and md: "month_day (leap_day y) (n - 1 - days_before_year y) = (m, d)"
    by (auto simp: ord_ymd_def Let_def split: prod.splits)
  have b: "0 \<le> n - 1 - days_before_year y" "n - 1 - days_before_year y < 365 + leap_day y"
    using ord_year_bounds [of n] days_before_year_Suc [of y] by (auto simp: y)
  from month_day_inverse [OF md b leap_day_range] show "ymd_ord y m d = n"
    by (simp add: ymd_ord_def)
qed

lemma ord_ymd_parts:
  "ord_ymd n = (y, m, d) \<Longrightarrow> 1 \<le> m \<and> m \<le> 12 \<and> 1 \<le> d \<and> d \<le> days_in_month y m \<and> y = ord_year n"
proof -
  assume a: "ord_ymd n = (y, m, d)"
  then have y: "y = ord_year n" and md: "month_day (leap_day y) (n - 1 - days_before_year y) = (m, d)"
    by (auto simp: ord_ymd_def Let_def split: prod.splits)
  have b: "0 \<le> n - 1 - days_before_year y" "n - 1 - days_before_year y < 365 + leap_day y"
    using ord_year_bounds [of n] days_before_year_Suc [of y] by (auto simp: y)
  from month_day_inverse [OF md b leap_day_range] y show ?thesis
    by (simp add: days_in_month_def)
qed

lemma ord_ymd_ymd_ord:
  assumes "1 \<le> m" "m \<le> 12" "1 \<le> d" "d \<le> days_in_month y m"
  shows "ord_ymd (ymd_ord y m d) = (y, m, d)"
proof -
  define l where "l = leap_day y"
  have md: "month_day l (days_before_month l m + d - 1) = (m, d)"
    using assms leap_day_range [of y] by (intro month_day_of) (auto simp: l_def days_in_month_def)
  have hi: "days_before_month l m + d \<le> 365 + l"
  proof -
    have "m = 1 \<or> m = 2 \<or> m = 3 \<or> m = 4 \<or> m = 5 \<or> m = 6 \<or> m = 7 \<or> m = 8 \<or> m = 9 \<or> m = 10 \<or> m = 11 \<or> m = 12"
      using assms(1,2) by presburger
    then show ?thesis
      using assms(3,4) leap_day_range [of y]
      by (elim disjE) (simp_all add: days_before_month_def days_in_month_def l_def)
  qed
  have lo: "0 \<le> days_before_month l m"
    using leap_day_range [of y] by (auto simp: days_before_month_def l_def)
  have oy: "ord_year (ymd_ord y m d) = y"
    using hi lo assms(3) days_before_year_Suc [of y]
    by (intro ord_year_unique) (auto simp: ymd_ord_def l_def)
  have e: "ymd_ord y m d - 1 - days_before_year y = days_before_month l m + d - 1"
    by (simp add: ymd_ord_def l_def)
  show ?thesis
    unfolding ord_ymd_def oy Let_def e l_def [symmetric] md by simp
qed

section \<open>Dates\<close>

datatype date = Date (ordinal: int)

instantiation date :: linorder
begin

definition less_eq_date :: "date \<Rightarrow> date \<Rightarrow> bool" where
  "less_eq_date a b \<longleftrightarrow> ordinal a \<le> ordinal b"

definition less_date :: "date \<Rightarrow> date \<Rightarrow> bool" where
  "less_date a b \<longleftrightarrow> ordinal a < ordinal b"

instance
  by standard (auto simp: less_eq_date_def less_date_def date.expand)

end

lemmas date_order = less_eq_date_def less_date_def

declare less_eq_date_def [date_simps] less_date_def [date_simps]

definition max_ordinal :: int where
  "max_ordinal = 3652059"

definition date_max :: date where
  "date_max = Date max_ordinal"

definition in_calendar :: "date \<Rightarrow> bool" where
  "in_calendar d \<longleftrightarrow> 1 \<le> ordinal d \<and> ordinal d \<le> max_ordinal"

definition add_days :: "date \<Rightarrow> int \<Rightarrow> date" where
  "add_days d n = Date (ordinal d + n)"

definition days_between :: "date \<Rightarrow> date \<Rightarrow> int" where
  \<comment> \<open>\<open>(b - a).days\<close>\<close>
  "days_between a b = ordinal b - ordinal a"

lemma ordinal_add_days [simp, date_simps]: "ordinal (add_days d n) = ordinal d + n"
  by (simp add: add_days_def)

lemma add_days_add [simp]: "add_days (add_days d m) n = add_days d (m + n)"
  by (simp add: add_days_def)

lemma add_days_0 [simp]: "add_days d 0 = d"
  by (simp add: add_days_def)

lemma add_days_days_between [simp]: "add_days a (days_between a b) = b"
  by (simp add: add_days_def days_between_def)

section \<open>ISO text\<close>

definition pad2 :: "int \<Rightarrow> string" where
  "pad2 n = [digit_char (nat (n div 10 mod 10)), digit_char (nat (n mod 10))]"

definition pad4 :: "int \<Rightarrow> string" where
  "pad4 n = pad2 (n div 100 mod 100) @ pad2 (n mod 100)"

definition iso_of_date :: "date \<Rightarrow> string" where
  "iso_of_date dt = (case ord_ymd (ordinal dt) of (y, m, d) \<Rightarrow> pad4 y @ ''-'' @ pad2 m @ ''-'' @ pad2 d)"

definition digits_at :: "nat \<Rightarrow> nat \<Rightarrow> string \<Rightarrow> int option" where
  \<comment> \<open>the \<open>n\<close> digits from position \<open>i\<close>\<close>
  "digits_at i n s =
     (let t = take n (drop i s)
      in if length t = n \<and> list_all is_digit t then Some (int (digits_val t)) else None)"

definition char_at :: "nat \<Rightarrow> string \<Rightarrow> char option" where
  "char_at i s = (if i < length s then Some (s ! i) else None)"

definition iso_week_date :: "int \<Rightarrow> int \<Rightarrow> int \<Rightarrow> date option" where
  "iso_week_date y w d =
     (let jan4 = ymd_ord y 1 4; monday1 = jan4 - (jan4 - 1) mod 7; jan1 = ymd_ord y 1 1;
          dow = (jan1 - 1) mod 7;
          long = dow = 3 \<or> (dow = 2 \<and> is_leap y);
          n = monday1 + (w - 1) * 7 + (d - 1)
      in if 1 \<le> y \<and> y \<le> 9999 \<and> 1 \<le> w \<and> (w \<le> 52 \<or> w = 53 \<and> long) \<and> 1 \<le> d \<and> d \<le> 7
            \<and> 1 \<le> n \<and> n \<le> max_ordinal
         then Some (Date n) else None)"

definition date_of_ymd :: "int \<Rightarrow> int \<Rightarrow> int \<Rightarrow> date option" where
  "date_of_ymd y m d = (if valid_ymd y m d then Some (Date (ymd_ord y m d)) else None)"

definition opt_bind :: "'a option \<Rightarrow> ('a \<Rightarrow> 'b option) \<Rightarrow> 'b option" where
  "opt_bind x f = (case x of None \<Rightarrow> None | Some a \<Rightarrow> f a)"

lemma opt_bind_simps [simp]: "opt_bind None f = None" "opt_bind (Some a) f = f a"
  by (simp_all add: opt_bind_def)

definition parse_iso_date_part :: "string \<Rightarrow> date option" where
  \<comment> \<open>\<open>YYYY-MM-DD\<close>, \<open>YYYYMMDD\<close>, \<open>YYYY-Www[-D]\<close> or \<open>YYYYWww[D]\<close>\<close>
  "parse_iso_date_part s =
     opt_bind (digits_at 0 4 s) (\<lambda>y.
       let sep = char_at 4 s = Some (CHR ''-''); p = (if sep then 5 else 4)
       in if char_at p s = Some (CHR ''W'') then
            opt_bind (digits_at (p + 1) 2 s) (\<lambda>w.
              let q = p + 3
              in if length s = q then iso_week_date y w 1
                 else if (char_at q s = Some (CHR ''-'')) = sep
                 then let r = (if sep then q + 1 else q)
                      in if length s = r + 1 then opt_bind (digits_at r 1 s) (iso_week_date y w) else None
                 else None)
          else
            opt_bind (digits_at p 2 s) (\<lambda>m.
              let q = p + 2
              in if (char_at q s = Some (CHR ''-'')) = sep
                 then let r = (if sep then q + 1 else q)
                      in if length s = r + 2 then opt_bind (digits_at r 2 s) (date_of_ymd y m) else None
                 else None))"

definition iso_separator :: "string \<Rightarrow> nat" where
  \<comment> \<open>where the date part ends (\<open>_find_isoformat_datetime_separator\<close>)\<close>
  "iso_separator s =
     (if length s = 7 then 7
      else if char_at 4 s = Some (CHR ''-'') then
        (if char_at 5 s = Some (CHR ''W'') then
           (if char_at 8 s = Some (CHR ''-'') then
              (if length s > 10 \<and> is_digit (s ! 10) then 8 else 10)
            else 8)
         else 10)
      else if char_at 4 s = Some (CHR ''W'') then
        (let i = 7 + length (takeWhile is_digit (drop 7 s))
         in if i < 9 then i else if even i then 7 else 8)
      else 8)"

definition parse_hms :: "string \<Rightarrow> int option" where
  \<comment> \<open>\<open>HH[:MM[:SS[.f+]]]\<close> or \<open>HH[MM[SS[.f+]]]\<close>, in microseconds\<close>
  "parse_hms s =
     opt_bind (digits_at 0 2 s) (\<lambda>h.
       let sep = char_at 2 s = Some (CHR '':''); k = (if sep then 1 else 0); a = drop (2 + k) s
       in if length s = 2 then Some (h * 3600000000)
          else opt_bind (digits_at 0 2 a) (\<lambda>mi.
            if length a = 2 then Some ((h * 60 + mi) * 60000000)
            else if sep \<and> char_at 2 a \<noteq> Some (CHR '':'') then None
            else let b = drop (2 + k) a
                 in opt_bind (digits_at 0 2 b) (\<lambda>sec.
                   let base = ((h * 60 + mi) * 60 + sec) * 1000000;
                       f = drop 3 b;
                       six = take 6 f
                   in if length b = 2 then Some base
                      else if b ! 2 \<in> {CHR ''.'', CHR '',''} \<and> f \<noteq> [] \<and> list_all is_digit f
                      then Some (base + int (digits_val six) * 10 ^ (6 - length six))
                      else None)))"

definition valid_hms :: "string \<Rightarrow> bool" where
  \<comment> \<open>hours below 24, minutes and seconds below 60\<close>
  "valid_hms s =
     (let ds = filter is_digit s
      in digits_val (take 2 ds) < 24 \<and> digits_val (take 2 (drop 2 ds)) < 60
         \<and> digits_val (take 2 (drop 4 ds)) < 60)"

definition checked_hms :: "string \<Rightarrow> int option" where
  "checked_hms s = (if valid_hms s then parse_hms s else None)"

definition parse_iso_time :: "string \<Rightarrow> (int \<times> int option) option" where
  \<comment> \<open>time of day and UTC offset, both in microseconds\<close>
  "parse_iso_time s =
     (let body = takeWhile (\<lambda>c. c \<noteq> CHR ''+'' \<and> c \<noteq> CHR ''-'') s;
          rest = drop (length body) s
      in opt_bind (checked_hms body) (\<lambda>t.
           case rest of
             [] \<Rightarrow> Some (t, None)
           | c # z \<Rightarrow> opt_bind (checked_hms z) (\<lambda>off.
               Some (t, Some (if c = CHR ''-'' then - off else off)))))"

text \<open>\<open>datetime.fromisoformat\<close>: date, microsecond of the day, UTC offset if any.\<close>

type_synonym datetime = "date \<times> int \<times> int option"

definition parse_iso_datetime :: "string \<Rightarrow> datetime option" where
  "parse_iso_datetime s =
     (if length s < 7 then None
      else let p = iso_separator s
           in opt_bind (parse_iso_date_part (take p s)) (\<lambda>d.
                if length s \<le> p + 1 then Some (d, 0, None)
                else opt_bind (parse_iso_time (drop (p + 1) s)) (\<lambda>(t, z). Some (d, t, z))))"

definition parse_iso_z :: "string \<Rightarrow> datetime option" where
  \<comment> \<open>\<open>datetime.fromisoformat(s.replace("Z", "+00:00"))\<close>\<close>
  "parse_iso_z s = parse_iso_datetime (replace_all ''Z'' ''+00:00'' s)"

definition day_us :: int where
  "day_us = 86400000000"

definition instant_of :: "datetime \<Rightarrow> int" where
  \<comment> \<open>the UTC instant; a naive datetime is taken as UTC, as the backend does\<close>
  "instant_of dt = (case dt of (d, t, z) \<Rightarrow>
     ordinal d * day_us + t - (case z of None \<Rightarrow> 0 | Some off \<Rightarrow> off))"

definition date_of_instant :: "int \<Rightarrow> date" where
  "date_of_instant i = Date (i div day_us)"

definition iso_of_hour :: "date \<Rightarrow> int \<Rightarrow> string" where
  \<comment> \<open>\<open>datetime.combine(day, time(h), tzinfo=utc).isoformat()\<close>\<close>
  "iso_of_hour d h = iso_of_date d @ ''T'' @ pad2 h @ '':00:00+00:00''"

end
