(* ===== verification/IsoDate.thy ===== *)
theory IsoDate
  imports PyDate
begin

text \<open>
  ISO text as an interface. The planner stores days as text, compares them as text and
  reads them back; what it relies on is stated once as the locale \<open>day_codec\<close> and
  discharged by \<open>iso_of_date\<close> and the reader of \<open>datetime.fromisoformat\<close>.
\<close>

section \<open>The interface\<close>

locale day_codec =
  fixes show_day :: "date \<Rightarrow> string"
    and read_day :: "string \<Rightarrow> date option"
    and good :: "date \<Rightarrow> bool"
  assumes read_show: "good d \<Longrightarrow> read_day (show_day d) = Some d"
    and show_less: "good a \<Longrightarrow> good b \<Longrightarrow> a < b \<Longrightarrow> show_day a < show_day b"
begin

lemma show_inj: "good a \<Longrightarrow> good b \<Longrightarrow> show_day a = show_day b \<longleftrightarrow> a = b"
  by (metis read_show option.inject)

lemma show_le: "good a \<Longrightarrow> good b \<Longrightarrow> show_day a \<le> show_day b \<longleftrightarrow> a \<le> b"
proof -
  assume g: "good a" "good b"
  consider "a < b" | "a = b" | "b < a" by fastforce
  then show ?thesis
    using show_less [OF g] show_less [OF g(2,1)] by cases (auto dest: less_imp_le)
qed

lemma show_less_iff: "good a \<Longrightarrow> good b \<Longrightarrow> show_day a < show_day b \<longleftrightarrow> a < b"
  using show_le [of b a] by (auto simp: not_le [symmetric])

lemma all_before:
  assumes "\<forall>d\<in>set ds. good d" and "good h"
  shows "(\<forall>t\<in>set (map show_day ds). t \<le> show_day h) \<longleftrightarrow> (\<forall>d\<in>set ds. d \<le> h)"
  using assms show_le by auto

lemma sorted_show:
  "\<forall>d\<in>set ds. good d \<Longrightarrow> sorted (map show_day ds) \<longleftrightarrow> sorted ds"
  by (induction ds) (auto simp: show_le)

end

section \<open>Fixed-width digits\<close>

lemma less_char_code: "c < d \<longleftrightarrow> code c < code d"
proof -
  have "code c = int (of_char c)" "code d = int (of_char d)" by (simp_all add: code_def of_nat_of_char)
  then show ?thesis by (simp add: less_char_def)
qed

lemma digit_char_less: "a < 10 \<Longrightarrow> b < 10 \<Longrightarrow> digit_char a < digit_char b \<longleftrightarrow> a < b"
  by (simp add: digit_char_def less_char_code)

lemma digit_char_eq: "a < 10 \<Longrightarrow> b < 10 \<Longrightarrow> digit_char a = digit_char b \<longleftrightarrow> a = b"
  using digit_char_less [of a b] digit_char_less [of b a] by (metis nat_neq_iff order_less_irrefl)

lemma digit_char_digit: "is_digit (digit_char (nat (n mod 10)))"
  by (rule digit_char_props(1)) simp

lemma div_mod_less:
  fixes a b :: int
  assumes "a < b" and "0 < k"
  shows "a div k < b div k \<or> a div k = b div k \<and> a mod k < b mod k"
proof -
  have "a div k \<le> b div k" using assms by (intro zdiv_mono1) auto
  moreover have "a = k * (a div k) + a mod k" "b = k * (b div k) + b mod k" by simp_all
  ultimately show ?thesis using assms(1) by (metis add_less_cancel_left order_le_less)
qed

lemma append_less:
  "length xs = length ys \<Longrightarrow> (xs :: 'a::linorder list) @ us < ys @ vs \<longleftrightarrow> xs < ys \<or> xs = ys \<and> us < vs"
  by (induction xs ys rule: list_induct2) auto

lemma length_pad [simp]: "length (pad2 n) = 2" "length (pad4 n) = 4"
  by (simp_all add: pad2_def pad4_def)

lemma pad2_less: "0 \<le> a \<Longrightarrow> a < 100 \<Longrightarrow> 0 \<le> b \<Longrightarrow> b < 100 \<Longrightarrow> a < b \<Longrightarrow> pad2 a < pad2 b"
proof -
  assume r: "0 \<le> a" "a < 100" "0 \<le> b" "b < 100" "a < b"
  have d: "nat (a div 10 mod 10) < 10" "nat (b div 10 mod 10) < 10" "nat (a mod 10) < 10" "nat (b mod 10) < 10"
    by simp_all
  have "a div 10 mod 10 = a div 10" "b div 10 mod 10 = b div 10"
    using r by (simp_all add: div_pos_pos_trivial pos_imp_zdiv_nonneg_iff)
  then have "nat (a div 10 mod 10) < nat (b div 10 mod 10) \<or>
      nat (a div 10 mod 10) = nat (b div 10 mod 10) \<and> nat (a mod 10) < nat (b mod 10)"
    using div_mod_less [OF r(5), of 10] r by (auto simp: pos_imp_zdiv_nonneg_iff nat_less_eq_zless)
  then show ?thesis
    unfolding pad2_def by (auto simp: digit_char_less digit_char_eq d)
qed

lemma pad4_less: "0 \<le> a \<Longrightarrow> a < 10000 \<Longrightarrow> 0 \<le> b \<Longrightarrow> b < 10000 \<Longrightarrow> a < b \<Longrightarrow> pad4 a < pad4 b"
proof -
  assume r: "0 \<le> a" "a < 10000" "0 \<le> b" "b < 10000" "a < b"
  have "a div 100 mod 100 < b div 100 mod 100 \<or>
      a div 100 mod 100 = b div 100 mod 100 \<and> a mod 100 < b mod 100"
  proof -
    have "a div 100 mod 100 = a div 100" "b div 100 mod 100 = b div 100"
      using r by (simp_all add: pos_imp_zdiv_nonneg_iff)
    then show ?thesis using div_mod_less [OF r(5), of 100] by simp
  qed
  then show ?thesis
  proof (elim disjE conjE)
    assume "a div 100 mod 100 < b div 100 mod 100"
    then have "pad2 (a div 100 mod 100) < pad2 (b div 100 mod 100)" by (intro pad2_less) simp_all
    then show ?thesis by (simp add: pad4_def append_less)
  next
    assume h: "a div 100 mod 100 = b div 100 mod 100" "a mod 100 < b mod 100"
    then have "pad2 (a mod 100) < pad2 (b mod 100)" by (intro pad2_less) simp_all
    then show ?thesis using h(1) by (simp add: pad4_def append_less)
  qed
qed

definition pad_chars :: "string \<Rightarrow> bool" where
  "pad_chars s \<longleftrightarrow> list_all is_digit s"

lemma pad2_digits [simp]: "list_all is_digit (pad2 n)"
  by (simp add: pad2_def)

lemma pad4_digits [simp]: "list_all is_digit (pad4 n)"
  by (simp add: pad4_def)

lemma digits_val_pad2: "0 \<le> n \<Longrightarrow> n < 100 \<Longrightarrow> int (digits_val (pad2 n)) = n"
  by (simp add: pad2_def digits_val_def pos_imp_zdiv_nonneg_iff)

lemma digits_val_append2: "digits_val (s @ [a, b]) = 100 * digits_val s + (10 * digit_val a + digit_val b)"
  by (simp add: digits_val_def)

lemma digits_val_pad4: "0 \<le> n \<Longrightarrow> n < 10000 \<Longrightarrow> int (digits_val (pad4 n)) = n"
proof -
  assume r: "0 \<le> n" "n < 10000"
  have "digits_val (pad4 n) = 100 * digits_val (pad2 (n div 100 mod 100)) + digits_val (pad2 (n mod 100))"
    unfolding pad4_def pad2_def [of "n mod 100"] digits_val_append2 by (simp add: digits_val_def)
  then show ?thesis
    using digits_val_pad2 [of "n div 100 mod 100"] digits_val_pad2 [of "n mod 100"] r by simp
qed

lemma digits_at_here:
  "list_all is_digit t \<Longrightarrow> length t = n \<Longrightarrow> digits_at 0 n (t @ s) = Some (int (digits_val t))"
  by (simp add: digits_at_def)

lemma digits_at_skip: "length u = i \<Longrightarrow> digits_at (i + j) n (u @ s) = digits_at j n s"
  by (simp add: digits_at_def)

lemma char_at_skip: "length u = i \<Longrightarrow> char_at (i + j) (u @ s) = char_at j s"
  by (simp add: char_at_def nth_append)

section \<open>Years 1 to 9999\<close>

lemma in_calendar_year:
  assumes "in_calendar d"
  shows "1 \<le> ord_year (ordinal d)" "ord_year (ordinal d) \<le> 9999"
proof -
  have b: "days_before_year (ord_year (ordinal d)) < ordinal d"
    "ordinal d \<le> days_before_year (ord_year (ordinal d) + 1)"
    using ord_year_bounds [of "ordinal d"] by auto
  have c: "days_before_year 1 = 0" "days_before_year 10000 = 3652059"
    by (simp_all add: days_before_year_def)
  show "1 \<le> ord_year (ordinal d)"
    using b(2) c(1) days_before_year_mono [of "ord_year (ordinal d) + 1" 1] assms
    by (force simp: in_calendar_def)
  show "ord_year (ordinal d) \<le> 9999"
    using b(1) c(2) days_before_year_mono [of 10000 "ord_year (ordinal d)"] assms
    by (force simp: in_calendar_def max_ordinal_def)
qed

lemma month_len_31: "days_in_month y m \<le> 31"
  using leap_day_range [of y] by (auto simp: days_in_month_def days_before_month_def)

lemma in_calendar_ymd:
  assumes "in_calendar dt"
  obtains y m d where "ord_ymd (ordinal dt) = (y, m, d)" "valid_ymd y m d" "d \<le> 31"
    "ymd_ord y m d = ordinal dt"
proof -
  obtain y m d where e: "ord_ymd (ordinal dt) = (y, m, d)" by (cases "ord_ymd (ordinal dt)") auto
  show thesis
    using that [OF e] ord_ymd_parts [OF e] ymd_ord_ord_ymd [OF e] in_calendar_year [OF assms]
      month_len_31 [of y m] by (auto simp: valid_ymd_def)
qed

section \<open>Reading back\<close>

lemma parse_iso_date_part_ymd:
  assumes "valid_ymd y m d"
  shows "parse_iso_date_part (pad4 y @ ''-'' @ pad2 m @ ''-'' @ pad2 d) = Some (Date (ymd_ord y m d))"
proof -
  define s where "s = pad4 y @ ''-'' @ pad2 m @ ''-'' @ pad2 d"
  have r: "1 \<le> y" "y \<le> 9999" "1 \<le> m" "m \<le> 12" "1 \<le> d" "d \<le> 31"
    using assms month_len_31 [of y m] by (auto simp: valid_ymd_def)
  have y: "digits_at 0 4 s = Some y"
    unfolding s_def using r by (subst digits_at_here) (simp_all add: digits_val_pad4)
  have c4: "char_at 4 s = Some (CHR ''-'')"
    unfolding s_def by (simp add: char_at_def nth_append)
  have m: "digits_at 5 2 s = Some m"
  proof -
    have "digits_at (5 + 0) 2 ((pad4 y @ ''-'') @ pad2 m @ ''-'' @ pad2 d) = Some m"
      using r by (subst digits_at_skip) (simp_all add: digits_at_here digits_val_pad2)
    then show ?thesis by (simp add: s_def)
  qed
  have c5: "char_at 5 s = Some (digit_char (nat (m div 10 mod 10)))"
    unfolding s_def by (simp add: char_at_def nth_append pad2_def)
  have w: "digit_char (nat (m div 10 mod 10)) \<noteq> CHR ''W''"
    using digit_char_digit [of "m div 10"] by (auto simp: is_digit_def code_def)
  have c7: "char_at 7 s = Some (CHR ''-'')"
    unfolding s_def by (simp add: char_at_def nth_append)
  have d: "digits_at 8 2 s = Some d"
  proof -
    have "digits_at (8 + 0) 2 ((pad4 y @ ''-'' @ pad2 m @ ''-'') @ pad2 d @ []) = Some d"
      using r by (subst digits_at_skip) (simp_all add: digits_at_here [where s = "[]", simplified] digits_val_pad2)
    then show ?thesis by (simp add: s_def)
  qed
  have l: "length s = 10" by (simp add: s_def)
  have "parse_iso_date_part s = Some (Date (ymd_ord y m d))"
    unfolding parse_iso_date_part_def using y c4 c5 w m c7 d l assms
    by (simp add: date_of_ymd_def Let_def)
  then show ?thesis by (simp add: s_def)
qed

lemma iso_of_date_chars: "c \<in> set (iso_of_date dt) \<Longrightarrow> is_digit c \<or> c = CHR ''-''"
proof -
  have "list_all (\<lambda>c. is_digit c \<or> c = CHR ''-'') (iso_of_date dt)"
    by (simp add: iso_of_date_def pad4_def pad2_def split: prod.splits)
  then show "c \<in> set (iso_of_date dt) \<Longrightarrow> is_digit c \<or> c = CHR ''-''"
    by (auto simp: list_all_iff)
qed

lemma length_iso_of_date [simp]: "length (iso_of_date dt) = 10"
  by (simp add: iso_of_date_def split: prod.splits)

lemma iso_of_date_nonempty [simp]: "iso_of_date dt \<noteq> []"
  using length_iso_of_date [of dt] by (metis list.size(3) zero_neq_numeral)

lemma replace_all_absent: "c \<notin> set s \<Longrightarrow> replace_all [c] new s = s"
proof (induction s)
  case (Cons x s)
  then have "\<not> prefix [c] (x # s)" by auto
  with Cons show ?case by (simp add: replace_all.simps [of "[c]" new "x # s"])
qed (simp add: replace_all.simps)

lemma iso_no_Z: "CHR ''Z'' \<notin> set (iso_of_date dt)"
  using iso_of_date_chars [of "CHR ''Z''" dt] by (auto simp: is_digit_def code_def)

lemma iso_separator_iso:
  "iso_separator (iso_of_date dt @ u) = 10"
proof -
  obtain y m d where e: "ord_ymd (ordinal dt) = (y, m, d)" by (cases "ord_ymd (ordinal dt)") auto
  have c4: "char_at 4 (iso_of_date dt @ u) = Some (CHR ''-'')"
    by (simp add: iso_of_date_def e char_at_def nth_append)
  have c5: "char_at 5 (iso_of_date dt @ u) = Some (digit_char (nat (m div 10 mod 10)))"
    by (simp add: iso_of_date_def e char_at_def nth_append pad2_def)
  have w: "digit_char (nat (m div 10 mod 10)) \<noteq> CHR ''W''"
    using digit_char_digit [of "m div 10"] by (auto simp: is_digit_def code_def)
  show ?thesis unfolding iso_separator_def using c4 c5 w by simp
qed

lemma parse_iso_date:
  assumes "in_calendar dt"
  shows "parse_iso_z (iso_of_date dt) = Some (dt, 0, None)"
proof -
  obtain y m d where e: "ord_ymd (ordinal dt) = (y, m, d)" "valid_ymd y m d" "ymd_ord y m d = ordinal dt"
    using in_calendar_ymd [OF assms] by metis
  have p: "parse_iso_date_part (iso_of_date dt) = Some dt"
    using parse_iso_date_part_ymd [OF e(2)] e by (simp add: iso_of_date_def date.expand)
  have sep: "iso_separator (iso_of_date dt) = 10" using iso_separator_iso [of dt "[]"] by simp
  show ?thesis
    unfolding parse_iso_z_def replace_all_absent [OF iso_no_Z] parse_iso_datetime_def
    by (simp add: sep p)
qed

text \<open>The start of a calendar slot, \<open>YYYY-MM-DDTHH:00:00+00:00\<close>.\<close>

lemma parse_hms_hour:
  "0 \<le> h \<Longrightarrow> h < 24 \<Longrightarrow> checked_hms (pad2 h @ '':00:00'') = Some (h * 3600000000)"
proof -
  assume h: "0 \<le> h" "h < 24"
  have d: "list_all is_digit (pad2 h)" "\<not> is_digit (CHR '':'')" "is_digit (CHR ''0'')"
    by (simp_all add: is_digit_def code_def)
  have ds: "filter is_digit (pad2 h @ '':00:00'') = pad2 h @ ''0000''"
    using d by (simp add: list_all_iff filter_id_conv)
  have v: "valid_hms (pad2 h @ '':00:00'')"
    unfolding valid_hms_def ds Let_def
    using digits_val_pad2 [of h] h by (simp add: digits_val_def digit_val_def code_def numeral_2_eq_2 numeral_3_eq_3)
  have a: "digits_at 0 2 (pad2 h @ '':00:00'') = Some h"
    using h by (subst digits_at_here) (simp_all add: digits_val_pad2)
  have z: "digits_at 0 2 ''00:00'' = Some 0" "digits_at 0 2 ''00'' = Some 0"
    by (simp_all add: digits_at_def digits_val_def digit_val_def is_digit_def code_def)
  have c: "char_at 2 (pad2 h @ '':00:00'') = Some (CHR '':'')"
    by (simp add: char_at_def nth_append)
  show ?thesis
    unfolding checked_hms_def parse_hms_def using v a z c
    by (simp add: Let_def char_at_def)
qed

lemma parse_iso_hour:
  assumes "in_calendar dt" "0 \<le> h" "h < 24"
  shows "parse_iso_z (iso_of_hour dt h) = Some (dt, h * 3600000000, Some 0)"
proof -
  define body where "body = pad2 h @ '':00:00''"
  have ok: "c \<noteq> CHR ''+'' \<and> c \<noteq> CHR ''-'' \<and> c \<noteq> CHR ''Z''" if "c \<in> set body" for c
  proof -
    have "is_digit c \<or> c = CHR '':'' \<or> c = CHR ''0''"
      using that pad2_digits [of h] by (auto simp: body_def list_all_iff)
    then show ?thesis by (auto simp: is_digit_def code_def)
  qed
  have tw: "takeWhile (\<lambda>c. c \<noteq> CHR ''+'' \<and> c \<noteq> CHR ''-'') (body @ ''+00:00'') = body"
    using ok by (subst takeWhile_append2) auto
  have off: "checked_hms ''00:00'' = Some 0"
    by (simp add: checked_hms_def valid_hms_def parse_hms_def digits_at_def digits_val_def digit_val_def
        is_digit_def code_def char_at_def Let_def)
  have t: "parse_iso_time (body @ ''+00:00'') = Some (h * 3600000000, Some 0)"
    unfolding parse_iso_time_def tw using parse_hms_hour [of h] assms(2,3) off
    by (simp add: body_def [symmetric])
  have noZ: "CHR ''Z'' \<notin> set (iso_of_hour dt h)"
  proof -
    have "CHR ''Z'' \<notin> set body" using ok by blast
    then show ?thesis using iso_no_Z [of dt] by (simp add: iso_of_hour_def body_def)
  qed
  have e: "iso_of_hour dt h = iso_of_date dt @ ''T'' @ body @ ''+00:00''"
    by (simp add: iso_of_hour_def body_def)
  have p: "parse_iso_date_part (iso_of_date dt) = Some dt"
  proof -
    obtain y m d where e: "ord_ymd (ordinal dt) = (y, m, d)" "valid_ymd y m d" "ymd_ord y m d = ordinal dt"
      using in_calendar_ymd [OF assms(1)] by metis
    show ?thesis using parse_iso_date_part_ymd [OF e(2)] e by (simp add: iso_of_date_def date.expand)
  qed
  have sep: "iso_separator (iso_of_hour dt h) = 10" unfolding e by (rule iso_separator_iso)
  have len: "length (iso_of_hour dt h) = 25" by (simp add: e body_def)
  have dr: "drop (10 + 1) (iso_of_hour dt h) = body @ ''+00:00''" by (simp add: e)
  have tk: "take 10 (iso_of_hour dt h) = iso_of_date dt" by (simp add: e)
  show ?thesis
    unfolding parse_iso_z_def replace_all_absent [OF noZ] parse_iso_datetime_def sep Let_def dr tk len p t
    by simp
qed

section \<open>Order of ISO text\<close>

lemma days_before_month_step: "0 \<le> l \<Longrightarrow> days_before_month l k \<le> days_before_month l (k + 1)"
proof -
  assume l: "0 \<le> l"
  have "k \<le> 0 \<or> k = 1 \<or> k = 2 \<or> k = 3 \<or> k = 4 \<or> k = 5 \<or> k = 6 \<or> k = 7 \<or> k = 8 \<or> k = 9 \<or> k = 10 \<or> k = 11 \<or> k = 12 \<or> 13 \<le> k"
    by presburger
  then show ?thesis
    using l by (elim disjE) (simp_all add: days_before_month_def)
qed

lemma days_before_month_mono:
  assumes "0 \<le> l" and "j \<le> k"
  shows "days_before_month l j \<le> days_before_month l k"
  using assms(2)
proof (induction k rule: int_ge_induct)
  case (step k)
  then show ?case using days_before_month_step [of l k] assms(1) by simp
qed simp

lemma ymd_less:
  assumes "valid_ymd y m d" "valid_ymd y' m' d'" "ymd_ord y m d < ymd_ord y' m' d'"
  shows "y < y' \<or> y = y' \<and> (m < m' \<or> m = m' \<and> d < d')"
proof (rule ccontr)
  assume n: "\<not> ?thesis"
  have hi: "ymd_ord y' m' d' \<le> days_before_year (y' + 1)"
  proof -
    have "m' = 1 \<or> m' = 2 \<or> m' = 3 \<or> m' = 4 \<or> m' = 5 \<or> m' = 6 \<or> m' = 7 \<or> m' = 8 \<or> m' = 9 \<or> m' = 10 \<or> m' = 11 \<or> m' = 12"
      using assms(2) unfolding valid_ymd_def by presburger
    then show ?thesis
      using assms(2) leap_day_range [of y'] days_before_year_Suc [of y']
      by (elim disjE) (simp_all add: valid_ymd_def ymd_ord_def days_in_month_def days_before_month_def)
  qed
  have lo: "days_before_year y < ymd_ord y m d"
    using assms(1) leap_day_range [of y]
    by (auto simp: valid_ymd_def ymd_ord_def days_before_month_def)
  consider "y' < y" | "y' = y" "m' < m" | "y' = y" "m' = m" "d' \<le> d" using n by linarith
  then show False
  proof cases
    case 1
    then have "days_before_year (y' + 1) \<le> days_before_year y"
      using days_before_year_mono [of "y' + 1" y] by simp
    then show False using hi lo assms(3) by linarith
  next
    case 2
    define l where "l = leap_day y"
    have step: "days_before_month l (m' + 1) \<le> days_before_month l m"
      using 2 leap_day_range [of y] by (intro days_before_month_mono) (simp_all add: l_def)
    have "d' \<le> days_before_month l (m' + 1) - days_before_month l m'"
      using assms(2) 2 by (simp add: valid_ymd_def days_in_month_def l_def)
    then have "ymd_ord y' m' d' \<le> days_before_year y + days_before_month l m"
      using step 2 by (simp add: ymd_ord_def l_def)
    then show False using assms(1,3) by (simp add: ymd_ord_def l_def valid_ymd_def)
  next
    case 3
    then show False using assms(3) by (simp add: ymd_ord_def)
  qed
qed

lemma iso_less:
  assumes "in_calendar a" "in_calendar b" "a < b"
  shows "iso_of_date a < iso_of_date b"
proof -
  obtain y m d where e: "ord_ymd (ordinal a) = (y, m, d)" "valid_ymd y m d" "d \<le> 31" "ymd_ord y m d = ordinal a"
    using in_calendar_ymd [OF assms(1)] by metis
  obtain y' m' d' where e': "ord_ymd (ordinal b) = (y', m', d')" "valid_ymd y' m' d'" "d' \<le> 31"
      "ymd_ord y' m' d' = ordinal b"
    using in_calendar_ymd [OF assms(2)] by metis
  have r: "0 \<le> y" "y < 10000" "0 \<le> m" "m < 100" "0 \<le> d" "d < 100"
    "0 \<le> y'" "y' < 10000" "0 \<le> m'" "m' < 100" "0 \<le> d'" "d' < 100"
    using e e' by (auto simp: valid_ymd_def)
  have "y < y' \<or> y = y' \<and> (m < m' \<or> m = m' \<and> d < d')"
    using assms(3) e e' by (intro ymd_less) (simp_all add: less_date_def)
  then have "pad4 y < pad4 y' \<or> pad4 y = pad4 y' \<and> (pad2 m < pad2 m' \<or> pad2 m = pad2 m' \<and> pad2 d < pad2 d')"
    using r pad4_less pad2_less by metis
  then show ?thesis
    unfolding iso_of_date_def e(1) e'(1) prod.case by (simp add: append_less)
qed

definition read_iso_day :: "string \<Rightarrow> date option" where
  "read_iso_day s = map_option fst (parse_iso_z s)"

interpretation iso: day_codec iso_of_date read_iso_day in_calendar
  by unfold_locales (simp_all add: read_iso_day_def parse_iso_date iso_less)

end
