(* ===== verification/PyVal.thy ===== *)
theory PyVal
  imports PyFloat IsoDate
begin

text \<open>
  The untyped values the agents pass around (\<open>dict[str, Any]\<close> projected from the database
  or returned by a model): JSON values, dates and datetimes, with Python's truth value,
  \<open>dict.get\<close>, \<open>or\<close>, \<open>str\<close>, \<open>repr\<close>, \<open>int\<close> and \<open>float\<close>. Iterating a value that is
  not iterable raises \<open>TypeError\<close> in Python; here it yields nothing (the shared state only
  holds lists where the agents iterate).
\<close>

datatype pyval =
    VNone
  | VBool bool
  | VInt int
  | VFloat rat
  | VStr string
  | VList "pyval list"
  | VDict "(string \<times> pyval) list"
  | VDate date
  | VDateTime datetime

type_synonym pydict = "(string \<times> pyval) list"

section \<open>Truth, lookup, iteration\<close>

fun truthy :: "pyval \<Rightarrow> bool" where
  "truthy VNone = False"
| "truthy (VBool b) = b"
| "truthy (VInt i) = (i \<noteq> 0)"
| "truthy (VFloat x) = (x \<noteq> 0)"
| "truthy (VStr s) = (s \<noteq> [])"
| "truthy (VList xs) = (xs \<noteq> [])"
| "truthy (VDict d) = (d \<noteq> [])"
| "truthy (VDate d) = True"
| "truthy (VDateTime d) = True"

definition py_or :: "pyval \<Rightarrow> pyval \<Rightarrow> pyval" where
  "py_or a b = (if truthy a then a else b)"

definition vget :: "pydict \<Rightarrow> string \<Rightarrow> pyval" where
  "vget d k = (case map_of d k of None \<Rightarrow> VNone | Some v \<Rightarrow> v)"

definition vget_default :: "pydict \<Rightarrow> string \<Rightarrow> pyval \<Rightarrow> pyval" where
  "vget_default d k v = (case map_of d k of None \<Rightarrow> v | Some w \<Rightarrow> w)"

fun is_mapping :: "pyval \<Rightarrow> bool" where
  "is_mapping (VDict d) = True"
| "is_mapping v = False"

fun as_dict :: "pyval \<Rightarrow> pydict" where
  \<comment> \<open>\<open>v if isinstance(v, Mapping) else {}\<close>\<close>
  "as_dict (VDict d) = d"
| "as_dict v = []"

fun py_iter :: "pyval \<Rightarrow> pyval list" where
  "py_iter (VList xs) = xs"
| "py_iter (VStr s) = map (\<lambda>c. VStr [c]) s"
| "py_iter (VDict d) = map (\<lambda>p. VStr (fst p)) d"
| "py_iter v = []"

fun dicts_of :: "pyval list \<Rightarrow> pydict list" where
  \<comment> \<open>\<open>[x for x in xs if isinstance(x, Mapping)]\<close>\<close>
  "dicts_of [] = []"
| "dicts_of (VDict d # xs) = d # dicts_of xs"
| "dicts_of (v # xs) = dicts_of xs"

lemma dicts_of_map_VDict [simp]: "dicts_of (map VDict ds) = ds"
  by (induction ds) auto

lemma length_dicts_of: "length (dicts_of xs) \<le> length xs"
  by (induction xs rule: dicts_of.induct) auto

section \<open>Text of values\<close>

definition hex_char :: "int \<Rightarrow> char" where
  "hex_char d = (if d < 10 then char_of (48 + d) else char_of (87 + d))"

definition repr_char :: "char \<Rightarrow> char \<Rightarrow> string" where
  "repr_char q c =
     (if c = q \<or> code c = 92 then [CHR 0x5C, c]
      else if code c = 10 then [CHR 0x5C, CHR ''n'']
      else if code c = 13 then [CHR 0x5C, CHR ''r'']
      else if code c = 9 then [CHR 0x5C, CHR ''t'']
      else if code c < 32 \<or> code c = 127
      then [CHR 0x5C, CHR ''x'', hex_char (code c div 16), hex_char (code c mod 16)]
      else [c])"

definition repr_str :: "string \<Rightarrow> string" where
  "repr_str s =
     (let q = (if CHR 0x27 \<in> set s \<and> CHR 0x22 \<notin> set s then CHR 0x22 else CHR 0x27)
      in q # concat (map (repr_char q) s) @ [q])"

definition time_str :: "int \<Rightarrow> string" where
  "time_str us =
     (let s = us div 1000000; f = us mod 1000000
      in pad2 (s div 3600) @ '':'' @ pad2 (s div 60 mod 60) @ '':'' @ pad2 (s mod 60) @
         (if f = 0 then [] else ''.'' @ pad2 (f div 10000) @ pad4 (f mod 10000)))"

definition offset_str :: "int option \<Rightarrow> string" where
  "offset_str z = (case z of None \<Rightarrow> [] | Some off \<Rightarrow>
     (let a = \<bar>off\<bar> div 1000000; s = a mod 60
      in (if off < 0 then ''-'' else ''+'') @ pad2 (a div 3600) @ '':'' @ pad2 (a div 60 mod 60) @
         (if s = 0 then [] else '':'' @ pad2 s)))"

definition datetime_str :: "datetime \<Rightarrow> string" where
  "datetime_str dt = (case dt of (d, t, z) \<Rightarrow> iso_of_date d @ '' '' @ time_str t @ offset_str z)"

definition date_repr :: "date \<Rightarrow> string" where
  "date_repr dt = (case ord_ymd (ordinal dt) of (y, m, d) \<Rightarrow>
     ''datetime.date('' @ int_str y @ '', '' @ int_str m @ '', '' @ int_str d @ '')'')"

definition datetime_repr :: "datetime \<Rightarrow> string" where
  "datetime_repr dt = (case dt of (d, t, z) \<Rightarrow>
     (case ord_ymd (ordinal d) of (y, m, dd) \<Rightarrow>
       (let s = t div 1000000; f = t mod 1000000
        in ''datetime.datetime('' @
           join '', '' ([int_str y, int_str m, int_str dd, int_str (s div 3600), int_str (s div 60 mod 60)] @
             (if s mod 60 = 0 \<and> f = 0 then [] else [int_str (s mod 60)]) @
             (if f = 0 then [] else [int_str f]) @
             (case z of None \<Rightarrow> [] | Some _ \<Rightarrow> [''tzinfo=datetime.timezone.utc''])) @ '')'')))"

fun py_repr :: "pyval \<Rightarrow> string" where
  "py_repr VNone = ''None''"
| "py_repr (VBool b) = (if b then ''True'' else ''False'')"
| "py_repr (VInt i) = int_str i"
| "py_repr (VFloat x) = float_str x"
| "py_repr (VStr s) = repr_str s"
| "py_repr (VList xs) = ''['' @ join '', '' (map py_repr xs) @ '']''"
| "py_repr (VDict d) = ''{'' @ join '', '' (map (\<lambda>(k, v). repr_str k @ '': '' @ py_repr v) d) @ ''}''"
| "py_repr (VDate d) = date_repr d"
| "py_repr (VDateTime d) = datetime_repr d"

definition py_str :: "pyval \<Rightarrow> string" where
  "py_str v = (case v of VStr s \<Rightarrow> s | VDate d \<Rightarrow> iso_of_date d | VDateTime d \<Rightarrow> datetime_str d | _ \<Rightarrow> py_repr v)"

lemma py_str_VStr [simp]: "py_str (VStr s) = s"
  by (simp add: py_str_def)

definition str_or_empty :: "pyval \<Rightarrow> string" where
  \<comment> \<open>\<open>str(v or "")\<close>\<close>
  "str_or_empty v = (if truthy v then py_str v else [])"

lemma str_or_empty_VStr [simp]: "str_or_empty (VStr s) = s" "str_or_empty VNone = []"
  by (simp_all add: str_or_empty_def)

section \<open>Numbers of values\<close>

text \<open>\<open>int(v)\<close> and \<open>float(v)\<close>; \<open>None\<close> where Python raises \<open>TypeError\<close> or \<open>ValueError\<close>.\<close>

definition trunc :: "rat \<Rightarrow> int" where
  "trunc x = (if 0 \<le> x then floor x else - floor (- x))"

fun py_int :: "pyval \<Rightarrow> int option" where
  "py_int (VInt i) = Some i"
| "py_int (VBool b) = Some (if b then 1 else 0)"
| "py_int (VFloat x) = Some (trunc x)"
| "py_int (VStr s) = parse_int s"
| "py_int v = None"

fun py_float :: "pyval \<Rightarrow> rat option" where
  "py_float (VInt i) = Some (fl64 (of_int i))"
| "py_float (VBool b) = Some (if b then 1 else 0)"
| "py_float (VFloat x) = Some x"
| "py_float (VStr s) = parse_float s"
| "py_float v = None"

section \<open>Optional fields as values\<close>

definition opt_str :: "string option \<Rightarrow> pyval" where
  "opt_str x = (case x of None \<Rightarrow> VNone | Some s \<Rightarrow> VStr s)"

definition opt_int :: "int option \<Rightarrow> pyval" where
  "opt_int x = (case x of None \<Rightarrow> VNone | Some i \<Rightarrow> VInt i)"

definition opt_float :: "rat option \<Rightarrow> pyval" where
  "opt_float x = (case x of None \<Rightarrow> VNone | Some r \<Rightarrow> VFloat r)"

definition opt_date :: "date option \<Rightarrow> pyval" where
  \<comment> \<open>\<open>d.isoformat() if d else None\<close>\<close>
  "opt_date x = (case x of None \<Rightarrow> VNone | Some d \<Rightarrow> VStr (iso_of_date d))"

lemma vget_Cons [simp]: "vget ((k, v) # d) k' = (if k' = k then v else vget d k')"
  by (simp add: vget_def)

lemma vget_Nil [simp]: "vget [] k = VNone"
  by (simp add: vget_def)

lemma vget_default_simps [simp]:
  "vget_default ((k, v) # d) k' w = (if k' = k then v else vget_default d k' w)"
  "vget_default [] k w = w"
  by (simp_all add: vget_default_def)

lemma vget_dict_set: "vget (dict_set k v d) k' = (if k' = k then v else vget d k')"
  by (simp add: vget_def)

end
