(* ===== verification/PyRegex.thy ===== *)
theory PyRegex
  imports PyText
begin

text \<open>
  Python's \<open>re\<close> on ASCII text: a backtracking matcher that returns the ends of all matches
  from a position in the order the engine tries them (so the head is the match \<open>re\<close>
  reports), with one capture group, and the relational meaning it is proved against.
  Repetition does not iterate a body that consumes nothing, as in \<open>re\<close>.
\<close>

section \<open>Patterns\<close>

datatype cset =
    One char | OneI char   \<comment> \<open>a character, exactly or under IGNORECASE\<close>
  | AnyC                   \<comment> \<open>\<open>.\<close> under DOTALL\<close>
  | NotNL                  \<comment> \<open>\<open>.\<close> without DOTALL\<close>
  | SpaceC | NotSpaceC | DigitC | WordC | KeyC

fun in_cset :: "cset \<Rightarrow> char \<Rightarrow> bool" where
  "in_cset (One c) x = (x = c)"
| "in_cset (OneI c) x = (lower_char x = lower_char c)"
| "in_cset AnyC x = True"
| "in_cset NotNL x = (x \<noteq> newline)"
| "in_cset SpaceC x = is_space x"
| "in_cset NotSpaceC x = (\<not> is_space x)"
| "in_cset DigitC x = is_digit x"
| "in_cset WordC x = is_word x"
| "in_cset KeyC x = (is_word x \<or> x = CHR ''-'')"   \<comment> \<open>\<open>[A-Za-z0-9_-]\<close>\<close>

datatype rx =
    Eps
  | Chr cset
  | Seq rx rx
  | Alt rx rx
  | Rep rx nat "nat option" bool   \<comment> \<open>at least, at most, greedy\<close>
  | WordB                          \<comment> \<open>\<open>\b\<close>\<close>
  | Bos                            \<comment> \<open>\<open>^\<close> without MULTILINE\<close>
  | Eos                            \<comment> \<open>\<open>$\<close>: the end, or before a final newline\<close>
  | Ahead rx                       \<comment> \<open>\<open>(?=r)\<close>\<close>
  | Group rx                       \<comment> \<open>\<open>(r)\<close>\<close>

type_synonym cap = "(nat \<times> nat) option"

definition word_at :: "string \<Rightarrow> nat \<Rightarrow> bool" where
  "word_at s i \<longleftrightarrow> i < length s \<and> is_word (s ! i)"

definition boundary :: "string \<Rightarrow> nat \<Rightarrow> bool" where
  "boundary s i \<longleftrightarrow> (0 < i \<and> word_at s (i - 1)) \<noteq> word_at s i"

definition at_end :: "string \<Rightarrow> nat \<Rightarrow> bool" where
  "at_end s i \<longleftrightarrow> i = length s \<or> Suc i = length s \<and> s ! i = newline"

section \<open>The matcher\<close>

primrec rep_m ::
  "(nat \<times> cap \<Rightarrow> (nat \<times> cap) list) \<Rightarrow> bool \<Rightarrow> nat \<Rightarrow> nat \<Rightarrow> nat option \<Rightarrow> nat \<times> cap \<Rightarrow> (nat \<times> cap) list"
where
  "rep_m f g 0 lo hi p = (if lo = 0 then [p] else [])"
| "rep_m f g (Suc n) lo hi p =
     (let stop = (if lo = 0 then [p] else []);
          go = (if hi = Some 0 then []
                else concat (map (rep_m f g n (lo - 1) (map_option (\<lambda>h. h - 1) hi))
                       (filter (\<lambda>q. fst p < fst q) (f p))))
      in if g then go @ stop else stop @ go)"

primrec rx_m :: "string \<Rightarrow> rx \<Rightarrow> nat \<times> cap \<Rightarrow> (nat \<times> cap) list" where
  "rx_m s Eps p = [p]"
| "rx_m s (Chr P) p = (if fst p < length s \<and> in_cset P (s ! fst p) then [(Suc (fst p), snd p)] else [])"
| "rx_m s (Seq a b) p = concat (map (rx_m s b) (rx_m s a p))"
| "rx_m s (Alt a b) p = rx_m s a p @ rx_m s b p"
| "rx_m s (Rep a lo hi g) p = rep_m (rx_m s a) g (length s - fst p) lo hi p"
| "rx_m s WordB p = (if boundary s (fst p) then [p] else [])"
| "rx_m s Bos p = (if fst p = 0 then [p] else [])"
| "rx_m s Eos p = (if at_end s (fst p) then [p] else [])"
| "rx_m s (Ahead a) p = (case rx_m s a p of [] \<Rightarrow> [] | q # _ \<Rightarrow> [(fst p, snd q)])"
| "rx_m s (Group a) p = map (\<lambda>q. (fst q, Some (fst p, fst q))) (rx_m s a p)"

definition rx_at :: "rx \<Rightarrow> string \<Rightarrow> nat \<Rightarrow> (nat \<times> cap) option" where
  \<comment> \<open>\<open>pattern.match\<close> at a position\<close>
  "rx_at r s i = (case rx_m s r (i, None) of [] \<Rightarrow> None | q # _ \<Rightarrow> Some q)"

definition rx_search :: "rx \<Rightarrow> string \<Rightarrow> bool" where
  "rx_search r s \<longleftrightarrow> list_ex (\<lambda>i. rx_m s r (i, None) \<noteq> []) [0..<Suc (length s)]"

fun rx_find_from :: "rx \<Rightarrow> string \<Rightarrow> nat \<Rightarrow> nat \<Rightarrow> (nat \<times> nat \<times> cap) option" where
  \<comment> \<open>the first match at one of \<open>n\<close> positions from \<open>i\<close>\<close>
  "rx_find_from r s i 0 = None"
| "rx_find_from r s i (Suc n) =
     (case rx_at r s i of
        Some (j, c) \<Rightarrow> Some (i, j, c)
      | None \<Rightarrow> rx_find_from r s (Suc i) n)"

definition rx_find :: "rx \<Rightarrow> string \<Rightarrow> (nat \<times> nat \<times> cap) option" where
  "rx_find r s = rx_find_from r s 0 (Suc (length s))"

fun rx_finditer :: "rx \<Rightarrow> string \<Rightarrow> nat \<Rightarrow> nat \<Rightarrow> (nat \<times> nat \<times> cap) list" where
  \<comment> \<open>non-overlapping matches; the fuel bounds the number of matches\<close>
  "rx_finditer r s i 0 = []"
| "rx_finditer r s i (Suc n) =
     (case rx_find_from r s i (Suc (length s) - i) of
        None \<Rightarrow> []
      | Some (a, b, c) \<Rightarrow> (a, b, c) # rx_finditer r s (if b = a then Suc b else b) n)"

definition slice :: "string \<Rightarrow> nat \<Rightarrow> nat \<Rightarrow> string" where
  "slice s i j = drop i (take j s)"

definition cap_text :: "string \<Rightarrow> cap \<Rightarrow> string" where
  "cap_text s c = (case c of None \<Rightarrow> [] | Some (i, j) \<Rightarrow> slice s i j)"

definition rx_findall :: "rx \<Rightarrow> string \<Rightarrow> string list" where
  \<comment> \<open>\<open>re.findall\<close>: the group if the pattern has one, else the whole match\<close>
  "rx_findall r s =
     map (\<lambda>(a, b, c). case c of None \<Rightarrow> slice s a b | Some (i, j) \<Rightarrow> slice s i j)
       (rx_finditer r s 0 (Suc (length s)))"

fun cut_out :: "string \<Rightarrow> nat \<Rightarrow> (nat \<times> nat \<times> cap) list \<Rightarrow> string" where
  "cut_out s i [] = drop i s"
| "cut_out s i ((a, b, c) # ms) = slice s i a @ cut_out s b ms"

definition rx_delete :: "rx \<Rightarrow> string \<Rightarrow> string" where
  \<comment> \<open>\<open>re.sub(pattern, "", s)\<close>\<close>
  "rx_delete r s = cut_out s 0 (rx_finditer r s 0 (Suc (length s)))"

fun split_at :: "string \<Rightarrow> nat \<Rightarrow> (nat \<times> nat \<times> cap) list \<Rightarrow> string list" where
  "split_at s i [] = [drop i s]"
| "split_at s i ((a, b, c) # ms) = slice s i a # split_at s b ms"

definition rx_split :: "rx \<Rightarrow> string \<Rightarrow> string list" where
  "rx_split r s = split_at s 0 (rx_finditer r s 0 (Suc (length s)))"

definition rx_fullmatch :: "rx \<Rightarrow> string \<Rightarrow> bool" where
  "rx_fullmatch r s \<longleftrightarrow> list_ex (\<lambda>q. fst q = length s) (rx_m s r (0, None))"

section \<open>Building patterns\<close>

primrec lit :: "string \<Rightarrow> rx" where
  "lit [] = Eps"
| "lit (c # cs) = Seq (Chr (One c)) (lit cs)"

primrec lit_i :: "string \<Rightarrow> rx" where
  \<comment> \<open>a literal under IGNORECASE\<close>
  "lit_i [] = Eps"
| "lit_i (c # cs) = Seq (Chr (OneI c)) (lit_i cs)"

fun alts :: "rx list \<Rightarrow> rx" where
  "alts [] = Rep Eps 1 (Some 0) True"   \<comment> \<open>never matches\<close>
| "alts (r # rs) = (if rs = [] then r else Alt r (alts rs))"

fun seqs :: "rx list \<Rightarrow> rx" where
  "seqs [] = Eps"
| "seqs (r # rs) = (if rs = [] then r else Seq r (seqs rs))"

definition opt :: "rx \<Rightarrow> rx" where
  "opt r = Rep r 0 (Some 1) True"

definition many :: "rx \<Rightarrow> rx" where
  "many r = Rep r 0 None True"

definition many1 :: "rx \<Rightarrow> rx" where
  "many1 r = Rep r 1 None True"

definition gap :: "nat \<Rightarrow> rx" where
  \<comment> \<open>\<open>.{0,n}\<close> under DOTALL\<close>
  "gap n = Rep (Chr AnyC) 0 (Some n) True"

definition words_i :: "string list \<Rightarrow> rx" where
  \<comment> \<open>\<open>\b(?:w1|w2|...)\b\<close> under IGNORECASE\<close>
  "words_i ws = seqs [WordB, alts (map lit_i ws), WordB]"

definition plural_i :: "string list \<Rightarrow> rx" where
  \<comment> \<open>\<open>\b(?:w1s?|w2s?|...)\b\<close> under IGNORECASE\<close>
  "plural_i ws = seqs [WordB, alts (map (\<lambda>w. Seq (lit_i w) (opt (lit_i ''s''))) ws), WordB]"

definition spaces :: rx where
  "spaces = many (Chr SpaceC)"

section \<open>The relational meaning\<close>

definition repeat_rel :: "(nat \<times> nat) set \<Rightarrow> nat \<Rightarrow> nat option \<Rightarrow> (nat \<times> nat) set" where
  "repeat_rel R lo hi = (\<Union>n \<in> {n. lo \<le> n \<and> (case hi of None \<Rightarrow> True | Some h \<Rightarrow> n \<le> h)}. (R \<inter> {(i, j). i < j}) ^^ n)"

primrec rx_rel :: "string \<Rightarrow> rx \<Rightarrow> (nat \<times> nat) set" where
  "rx_rel s Eps = Id"
| "rx_rel s (Chr P) = {(i, Suc i) |i. i < length s \<and> in_cset P (s ! i)}"
| "rx_rel s (Seq a b) = rx_rel s a O rx_rel s b"
| "rx_rel s (Alt a b) = rx_rel s a \<union> rx_rel s b"
| "rx_rel s (Rep a lo hi g) = repeat_rel (rx_rel s a) lo hi"
| "rx_rel s WordB = {(i, i) |i. boundary s i}"
| "rx_rel s Bos = {(0, 0)}"
| "rx_rel s Eos = {(i, i) |i. at_end s i}"
| "rx_rel s (Ahead a) = {(i, i) |i. \<exists>j. (i, j) \<in> rx_rel s a}"
| "rx_rel s (Group a) = rx_rel s a"

lemma rx_rel_bounded: "(i, j) \<in> rx_rel s r \<Longrightarrow> i \<le> length s \<Longrightarrow> j \<le> length s"
proof (induction r arbitrary: i j)
  case (Rep a lo hi g)
  obtain n where n: "(i, j) \<in> (rx_rel s a \<inter> {(i, j). i < j}) ^^ n"
    using Rep.prems(1) by (auto simp: repeat_rel_def)
  have "(k, l) \<in> (rx_rel s a \<inter> {(i, j). i < j}) ^^ n \<Longrightarrow> k \<le> length s \<Longrightarrow> l \<le> length s" for k l
    by (induction n arbitrary: l) (auto dest: Rep.IH)
  then show ?case using n Rep.prems(2) by blast
qed auto

lemma repeat_rel_unfold:
  "repeat_rel R lo hi =
     (if lo = 0 then Id else {}) \<union>
     (if hi = Some 0 then {} else (R \<inter> {(i, j). i < j}) O repeat_rel R (lo - 1) (map_option (\<lambda>h. h - 1) hi))"
  (is "?L = ?Z \<union> ?S")
proof -
  define Q where "Q = R \<inter> {(i::nat, j). i < j}"
  define ok where "ok lo hi n \<longleftrightarrow> lo \<le> n \<and> (case hi of None \<Rightarrow> True | Some h \<Rightarrow> n \<le> h)" for lo hi and n :: nat
  have L: "repeat_rel R lo hi = (\<Union>n \<in> {n. ok lo hi n}. Q ^^ n)" for lo hi
    by (simp add: repeat_rel_def Q_def ok_def)
  have s: "ok lo hi (Suc n) \<longleftrightarrow> hi \<noteq> Some 0 \<and> ok (lo - 1) (map_option (\<lambda>h. h - 1) hi) n" for n
    by (cases hi) (auto simp: ok_def)
  have z: "ok lo hi 0 \<longleftrightarrow> lo = 0" by (cases hi) (auto simp: ok_def)
  have split: "(\<Union>n \<in> {n. ok lo hi n}. Q ^^ n) =
      (if ok lo hi 0 then Id else {}) \<union> (\<Union>n \<in> {n. ok lo hi (Suc n)}. Q ^^ Suc n)"
  proof -
    have "{n. ok lo hi n} = (if ok lo hi 0 then {0} else {}) \<union> Suc ` {n. ok lo hi (Suc n)}"
    proof (rule set_eqI)
      fix n
      show "n \<in> {n. ok lo hi n} \<longleftrightarrow> n \<in> (if ok lo hi 0 then {0} else {}) \<union> Suc ` {n. ok lo hi (Suc n)}"
        by (cases n) auto
    qed
    then show ?thesis by auto
  qed
  have "(\<Union>n \<in> {n. ok lo hi (Suc n)}. Q ^^ Suc n) = ?S"
    unfolding s L Q_def [symmetric] by (auto simp: relpow_commute relcomp_UNION_distrib)
  then show ?thesis using split z by (simp add: L)
qed

definition ends :: "(nat \<times> cap) list \<Rightarrow> nat set" where
  "ends ps = fst ` set ps"

lemma rep_m_rel:
  assumes f: "\<And>p. fst p \<le> length s \<Longrightarrow> ends (f p) = R `` {fst p}"
    and bd: "\<And>i j. (i, j) \<in> R \<Longrightarrow> i \<le> length s \<Longrightarrow> j \<le> length s"
  shows "length s - fst p \<le> n \<Longrightarrow> fst p \<le> length s \<Longrightarrow>
    ends (rep_m f g n lo hi p) = repeat_rel R lo hi `` {fst p}"
proof (induction n arbitrary: lo hi p)
  case 0
  then have l: "fst p = length s" by simp
  then have "(R \<inter> {(i, j). i < j}) `` {fst p} = {}" using bd by fastforce
  then have "((R \<inter> {(i, j). i < j}) O X) `` {fst p} = {}" for X :: "(nat \<times> nat) set" by blast
  then show ?case
    by (subst repeat_rel_unfold) (simp add: ends_def Un_Image)
next
  case (Suc n)
  define Q where "Q = R \<inter> {(i, j). i < j}"
  have fp: "ends (f p) = R `` {fst p}" by (rule f) (rule Suc.prems(2))
  have IH: "ends (rep_m f g n lo' hi' q) = repeat_rel R lo' hi' `` {fst q}"
    if "q \<in> set (f p)" "fst p < fst q" for q lo' hi'
  proof (rule Suc.IH)
    have "(fst p, fst q) \<in> R" using fp that by (auto simp: ends_def)
    then show "fst q \<le> length s" using bd Suc.prems(2) by blast
    show "length s - fst q \<le> n" using that(2) Suc.prems(1) by simp
  qed
  have go: "ends (concat (map (rep_m f g n lo' hi') (filter (\<lambda>q. fst p < fst q) (f p)))) =
      (Q O repeat_rel R lo' hi') `` {fst p}" for lo' hi'
  proof -
    have "ends (concat (map (rep_m f g n lo' hi') (filter (\<lambda>q. fst p < fst q) (f p)))) =
        (\<Union>q \<in> {q \<in> set (f p). fst p < fst q}. ends (rep_m f g n lo' hi' q))"
      by (auto simp: ends_def)
    also have "\<dots> = (\<Union>q \<in> {q \<in> set (f p). fst p < fst q}. repeat_rel R lo' hi' `` {fst q})"
      using IH by auto
    also have "\<dots> = (\<Union>j \<in> {j \<in> ends (f p). fst p < j}. repeat_rel R lo' hi' `` {j})"
      by (auto simp: ends_def)
    also have "\<dots> = (Q O repeat_rel R lo' hi') `` {fst p}"
      unfolding fp Q_def by auto
    finally show ?thesis .
  qed
  have un: "ends (xs @ ys) = ends xs \<union> ends ys" for xs ys by (auto simp: ends_def)
  define st where "st = (if lo = 0 then [p] else [])"
  define gl where "gl = (if hi = Some 0 then []
    else concat (map (rep_m f g n (lo - 1) (map_option (\<lambda>h. h - 1) hi)) (filter (\<lambda>q. fst p < fst q) (f p))))"
  have st: "ends st = (if lo = 0 then Id else {}) `` {fst p}"
    by (simp add: ends_def st_def)
  have gl: "ends gl = (if hi = Some 0 then {} else Q O repeat_rel R (lo - 1) (map_option (\<lambda>h. h - 1) hi)) `` {fst p}"
  proof (cases "hi = Some 0")
    case True
    then show ?thesis by (simp add: gl_def ends_def)
  next
    case False
    then show ?thesis unfolding gl_def using go by simp
  qed
  have "rep_m f g (Suc n) lo hi p = (if g then gl @ st else st @ gl)"
    by (simp add: Let_def gl_def st_def)
  then have "ends (rep_m f g (Suc n) lo hi p) = ends st \<union> ends gl"
    by (simp add: un Un_commute)
  then show ?case
    by (subst repeat_rel_unfold) (simp only: st gl Un_Image Q_def)
qed

text \<open>The matcher finds exactly the ends the relation allows.\<close>

lemma rx_m_rel:
  "fst p \<le> length s \<Longrightarrow> ends (rx_m s r p) = rx_rel s r `` {fst p}"
proof (induction r arbitrary: p)
  case (Seq a b)
  have "ends (rx_m s (Seq a b) p) = (\<Union>q \<in> set (rx_m s a p). ends (rx_m s b q))"
    by (auto simp: ends_def)
  also have "\<dots> = (\<Union>q \<in> set (rx_m s a p). rx_rel s b `` {fst q})"
  proof (rule SUP_cong)
    fix q assume q: "q \<in> set (rx_m s a p)"
    then have "(fst p, fst q) \<in> rx_rel s a" using Seq.IH(1) [OF Seq.prems] by (auto simp: ends_def)
    then have "fst q \<le> length s" using rx_rel_bounded Seq.prems by blast
    then show "ends (rx_m s b q) = rx_rel s b `` {fst q}" by (rule Seq.IH(2))
  qed simp
  also have "\<dots> = (\<Union>j \<in> ends (rx_m s a p). rx_rel s b `` {j})"
    by (auto simp: ends_def)
  also have "\<dots> = rx_rel s (Seq a b) `` {fst p}"
    unfolding Seq.IH(1) [OF Seq.prems] by auto
  finally show ?case .
next
  case (Rep a lo hi g)
  show ?case
    unfolding rx_m.simps rx_rel.simps
    by (rule rep_m_rel) (use Rep rx_rel_bounded in auto)
next
  case (Ahead a)
  have "ends (rx_m s a p) = rx_rel s a `` {fst p}" by (rule Ahead.IH) (rule Ahead.prems)
  then have e: "rx_m s a p = [] \<longleftrightarrow> (\<nexists>j. (fst p, j) \<in> rx_rel s a)"
    by (cases "rx_m s a p") (auto simp: ends_def)
  have "ends (rx_m s (Ahead a) p) = (if rx_m s a p = [] then {} else {fst p})"
    by (cases "rx_m s a p") (simp_all add: ends_def)
  then show ?case using e by auto
next
  case (Group a)
  have "ends (rx_m s (Group a) p) = ends (rx_m s a p)" by (simp add: ends_def image_image)
  then show ?case using Group by simp
next
  case (Alt a b)
  have "ends (rx_m s (Alt a b) p) = ends (rx_m s a p) \<union> ends (rx_m s b p)" by (auto simp: ends_def)
  then show ?case using Alt by auto
qed (auto simp: ends_def)

definition rx_matches :: "rx \<Rightarrow> string \<Rightarrow> bool" where
  "rx_matches r s \<longleftrightarrow> (\<exists>i j. i \<le> length s \<and> (i, j) \<in> rx_rel s r)"

lemma rx_search_matches: "rx_search r s \<longleftrightarrow> rx_matches r s"
proof -
  have "rx_m s r (i, None) \<noteq> [] \<longleftrightarrow> (\<exists>j. (i, j) \<in> rx_rel s r)" if "i \<le> length s" for i
  proof -
    have "ends (rx_m s r (i, None)) = rx_rel s r `` {i}"
      using rx_m_rel [of "(i, None)" s r] that by simp
    then show ?thesis by (cases "rx_m s r (i, None)") (auto simp: ends_def)
  qed
  moreover have "set [0..<Suc (length s)] = {i. i \<le> length s}" by auto
  ultimately show ?thesis
    unfolding rx_search_def rx_matches_def list_ex_iff by simp
qed

lemma rx_at_bounds:
  "rx_at r s i = Some (j, c) \<Longrightarrow> i \<le> length s \<Longrightarrow> (i, j) \<in> rx_rel s r \<and> j \<le> length s"
proof -
  assume a: "rx_at r s i = Some (j, c)" and i: "i \<le> length s"
  then have "j \<in> ends (rx_m s r (i, None))"
    by (force simp: rx_at_def ends_def split: list.splits)
  then have "(i, j) \<in> rx_rel s r" using rx_m_rel [of "(i, None)" s r] i by simp
  then show ?thesis using rx_rel_bounded i by blast
qed

section \<open>Literals, runs and a deleted suffix\<close>

lemma rx_rel_lit: "(i, j) \<in> rx_rel s (lit w) \<longleftrightarrow> j = i + length w \<and> (w = [] \<or> i + length w \<le> length s) \<and> take (length w) (drop i s) = w"
proof (induction w arbitrary: i)
  case (Cons c w)
  have "(i, j) \<in> rx_rel s (lit (c # w)) \<longleftrightarrow> i < length s \<and> s ! i = c \<and> (Suc i, j) \<in> rx_rel s (lit w)"
    by auto
  also have "\<dots> \<longleftrightarrow> j = i + length (c # w) \<and> i + length (c # w) \<le> length s \<and> take (length (c # w)) (drop i s) = c # w"
    unfolding Cons.IH by (cases w) (auto simp: Cons_nth_drop_Suc [symmetric] simp del: length_drop)
  finally show ?case by simp
qed auto

lemma chr_steps:
  "(i, j) \<in> (rx_rel s (Chr P) \<inter> {(i, j). i < j}) ^^ n \<longleftrightarrow>
     j = i + n \<and> (n = 0 \<or> i + n \<le> length s) \<and> (\<forall>k. i \<le> k \<and> k < i + n \<longrightarrow> in_cset P (s ! k))"
proof (induction n arbitrary: j)
  case (Suc n)
  have "(i, j) \<in> (rx_rel s (Chr P) \<inter> {(i, j). i < j}) ^^ Suc n \<longleftrightarrow>
      (\<exists>m. (i, m) \<in> (rx_rel s (Chr P) \<inter> {(i, j). i < j}) ^^ n \<and> j = Suc m \<and> m < length s \<and> in_cset P (s ! m))"
    by auto
  also have "\<dots> \<longleftrightarrow> j = i + Suc n \<and> i + Suc n \<le> length s \<and> (\<forall>k. i \<le> k \<and> k < i + Suc n \<longrightarrow> in_cset P (s ! k))"
    unfolding Suc.IH by (auto simp: less_Suc_eq)
  finally show ?case by simp
qed auto

lemma rx_rel_run:
  "(i, j) \<in> rx_rel s (Rep (Chr P) lo None g) \<longleftrightarrow>
     i + lo \<le> j \<and> (i = j \<or> j \<le> length s) \<and> (\<forall>k. i \<le> k \<and> k < j \<longrightarrow> in_cset P (s ! k))"
proof -
  have "(i, j) \<in> rx_rel s (Rep (Chr P) lo None g) \<longleftrightarrow>
      (\<exists>n\<ge>lo. j = i + n \<and> (n = 0 \<or> i + n \<le> length s) \<and> (\<forall>k. i \<le> k \<and> k < i + n \<longrightarrow> in_cset P (s ! k)))"
    by (simp add: repeat_rel_def chr_steps del: rx_rel.simps(2))
  also have "\<dots> \<longleftrightarrow> i + lo \<le> j \<and> (i = j \<or> j \<le> length s) \<and> (\<forall>k. i \<le> k \<and> k < j \<longrightarrow> in_cset P (s ! k))"
    by (auto intro!: exI [of _ "j - i"])
  finally show ?thesis .
qed

lemma rx_at_None_iff: "i \<le> length s \<Longrightarrow> rx_at r s i = None \<longleftrightarrow> (\<forall>j. (i, j) \<notin> rx_rel s r)"
proof -
  assume i: "i \<le> length s"
  have "ends (rx_m s r (i, None)) = rx_rel s r `` {i}"
    using rx_m_rel [of "(i, None)" s r] i by simp
  then show ?thesis by (auto simp: rx_at_def ends_def split: list.splits)
qed

lemma rx_find_from_first:
  assumes "rx_at r s (i + k) = Some (j, c)" and "\<forall>p. i \<le> p \<and> p < i + k \<longrightarrow> rx_at r s p = None" and "k < n"
  shows "rx_find_from r s i n = Some (i + k, j, c)"
  using assms
proof (induction k arbitrary: i n)
  case 0
  then show ?case by (cases n) auto
next
  case (Suc k)
  obtain m where m: "n = Suc m" using Suc.prems(3) by (cases n) auto
  have "rx_find_from r s (Suc i) m = Some (Suc i + k, j, c)"
    using Suc.prems m by (intro Suc.IH) auto
  moreover have "rx_at r s i = None" using Suc.prems(2) by simp
  ultimately show ?case using m by simp
qed

text \<open>A pattern that matches from \<open>a\<close> to the end and nowhere before deletes exactly the rest.\<close>

lemma rx_delete_suffix:
  assumes "a < length s" and "(a, length s) \<in> rx_rel s r"
    and "\<And>p q. p \<le> length s \<Longrightarrow> (p, q) \<in> rx_rel s r \<Longrightarrow> a \<le> p \<and> p < length s \<and> q = length s"
  shows "rx_delete r s = take a s"
proof -
  obtain j c where at: "rx_at r s a = Some (j, c)"
    using rx_at_None_iff [of a s r] assms(1,2) by (cases "rx_at r s a") auto
  have j: "j = length s" using rx_at_bounds [OF at] assms(1) assms(3) [of a j] by auto
  have "rx_find_from r s 0 (Suc (length s)) = Some (0 + a, j, c)"
  proof (rule rx_find_from_first)
    show "\<forall>p. 0 \<le> p \<and> p < 0 + a \<longrightarrow> rx_at r s p = None"
    proof (intro allI impI)
      fix p assume "0 \<le> p \<and> p < 0 + a"
      then have "p \<le> length s" "\<not> a \<le> p" using assms(1) by auto
      then show "rx_at r s p = None" using rx_at_None_iff [of p s r] assms(3) by blast
    qed
  qed (use at assms(1) in auto)
  moreover have "rx_at r s (length s) = None"
    using rx_at_None_iff [of "length s" s r] assms(3) by blast
  moreover obtain n where n: "length s = Suc n" using assms(1) by (cases "length s") auto
  ultimately have "rx_finditer r s 0 (Suc (length s)) = [(a, length s, c)]"
    using j assms(1) by simp
  then show ?thesis by (simp add: rx_delete_def slice_def)
qed

section \<open>A quick test that a pattern cannot match\<close>

text \<open>\<open>dead cs r\<close>: every match of \<open>r\<close> consumes a character that is not among \<open>cs\<close>.\<close>

primrec dead :: "char list \<Rightarrow> rx \<Rightarrow> bool" where
  "dead cs Eps = False"
| "dead cs (Chr P) = (\<not> list_ex (in_cset P) cs)"
| "dead cs (Seq a b) = (dead cs a \<or> dead cs b)"
| "dead cs (Alt a b) = (dead cs a \<and> dead cs b)"
| "dead cs (Rep a lo hi g) = (0 < lo \<and> dead cs a)"
| "dead cs WordB = False"
| "dead cs Bos = False"
| "dead cs Eos = False"
| "dead cs (Ahead a) = dead cs a"
| "dead cs (Group a) = dead cs a"

lemma dead_rel: "dead cs r \<Longrightarrow> set s \<subseteq> set cs \<Longrightarrow> rx_rel s r = {}"
proof (induction r)
  case (Chr P)
  then show ?case by (auto simp: list_ex_iff subset_iff dest: nth_mem)
next
  case (Rep a lo hi g)
  then have "rx_rel s a = {}" "0 < lo" by auto
  then show ?case by (subst rx_rel.simps, subst repeat_rel_unfold) auto
next
  case (Seq a b)
  then show ?case by auto
qed auto

lemma dead_search: "dead (remdups s) r \<Longrightarrow> \<not> rx_search r s"
  using dead_rel [of "remdups s" r s] by (simp add: rx_search_matches rx_matches_def)

lemma dead_searches:
  "list_all (dead (remdups s)) rs \<Longrightarrow> \<not> list_ex (\<lambda>r. rx_search r s) rs"
  by (auto simp: list_ex_iff list_all_iff dest: dead_search)

section \<open>Matches inside a longer text\<close>

text \<open>
  A pattern without anchors matches a text wherever it occurs in a longer one, provided the
  neighbours of the occurrence are not word characters.
\<close>

primrec anchor_free :: "rx \<Rightarrow> bool" where
  "anchor_free Eps = True"
| "anchor_free (Chr P) = True"
| "anchor_free (Seq a b) = (anchor_free a \<and> anchor_free b)"
| "anchor_free (Alt a b) = (anchor_free a \<and> anchor_free b)"
| "anchor_free (Rep a lo hi g) = anchor_free a"
| "anchor_free WordB = True"
| "anchor_free Bos = False"
| "anchor_free Eos = False"
| "anchor_free (Ahead a) = anchor_free a"
| "anchor_free (Group a) = anchor_free a"

definition quiet_left :: "string \<Rightarrow> bool" where
  "quiet_left p \<longleftrightarrow> p = [] \<or> \<not> is_word (last p)"

definition quiet_right :: "string \<Rightarrow> bool" where
  "quiet_right q \<longleftrightarrow> q = [] \<or> \<not> is_word (hd q)"

lemma word_at_inside:
  assumes "quiet_right q" and "i \<le> length s"
  shows "word_at (p @ s @ q) (length p + i) = word_at s i"
proof (cases "i < length s")
  case True
  then show ?thesis by (simp add: word_at_def nth_append)
next
  case False
  then have "i = length s" using assms(2) by simp
  then show ?thesis
    using assms(1) by (cases q) (auto simp: word_at_def quiet_right_def nth_append)
qed

lemma word_before_inside:
  assumes "quiet_left p" and "i \<le> length s"
  shows "(0 < length p + i \<and> word_at (p @ s @ q) (length p + i - 1)) = (0 < i \<and> word_at s (i - 1))"
proof (cases "i = 0")
  case True
  show ?thesis
  proof (cases "p = []")
    case False
    then have "(p @ s @ q) ! (length p - 1) = last p"
      by (simp add: nth_append last_conv_nth)
    then show ?thesis using True False assms(1) by (simp add: word_at_def quiet_left_def)
  qed (use True in simp)
next
  case False
  then obtain k where k: "i = Suc k" by (cases i) auto
  then have "k < length s" using assms(2) by simp
  then show ?thesis by (simp add: k word_at_def nth_append)
qed

lemma boundary_inside:
  "quiet_left p \<Longrightarrow> quiet_right q \<Longrightarrow> i \<le> length s \<Longrightarrow>
    boundary (p @ s @ q) (length p + i) = boundary s i"
  unfolding boundary_def by (simp only: word_at_inside word_before_inside)

lemma rx_rel_inside:
  assumes "quiet_left p" and "quiet_right q"
  shows "anchor_free r \<Longrightarrow> (i, j) \<in> rx_rel s r \<Longrightarrow> i \<le> length s \<Longrightarrow>
    (length p + i, length p + j) \<in> rx_rel (p @ s @ q) r"
proof (induction r arbitrary: i j)
  case (Chr P)
  then show ?case by (auto simp: nth_append)
next
  case (Seq a b)
  then obtain k where k: "(i, k) \<in> rx_rel s a" "(k, j) \<in> rx_rel s b" by auto
  then have "k \<le> length s" using rx_rel_bounded Seq.prems by blast
  then have "(length p + i, length p + k) \<in> rx_rel (p @ s @ q) a"
    "(length p + k, length p + j) \<in> rx_rel (p @ s @ q) b"
    using Seq k by auto
  then show ?case by auto
next
  case (Rep a lo hi g)
  obtain n where n: "(i, j) \<in> (rx_rel s a \<inter> {(i, j). i < j}) ^^ n"
      and nn: "lo \<le> n" "case hi of None \<Rightarrow> True | Some h \<Rightarrow> n \<le> h"
    using Rep.prems(2) by (auto simp: repeat_rel_def)
  have "(i, l) \<in> (rx_rel s a \<inter> {(i, j). i < j}) ^^ m \<Longrightarrow>
      l \<le> length s \<and> (length p + i, length p + l) \<in> (rx_rel (p @ s @ q) a \<inter> {(i, j). i < j}) ^^ m" for l m
  proof (induction m arbitrary: l)
    case 0
    then show ?case using Rep.prems(3) by simp
  next
    case (Suc m)
    then obtain k where k: "(i, k) \<in> (rx_rel s a \<inter> {(i, j). i < j}) ^^ m" "(k, l) \<in> rx_rel s a" "k < l"
      by auto
    have kb: "k \<le> length s"
      and kr: "(length p + i, length p + k) \<in> (rx_rel (p @ s @ q) a \<inter> {(i, j). i < j}) ^^ m"
      using Suc.IH [OF k(1)] by auto
    have "(length p + k, length p + l) \<in> rx_rel (p @ s @ q) a"
      using Rep.IH Rep.prems(1) k(2) kb by simp
    then show ?case using k(2,3) kb kr rx_rel_bounded [OF k(2) kb] by auto
  qed
  from this [OF n] show ?case using nn by (auto simp: repeat_rel_def)
next
  case WordB
  then show ?case using assms by (auto simp: boundary_inside)
qed auto

lemma rx_search_inside:
  assumes "anchor_free r" and "quiet_left p" and "quiet_right q" and "rx_search r s"
  shows "rx_search r (p @ s @ q)"
proof -
  obtain i j where "i \<le> length s" "(i, j) \<in> rx_rel s r"
    using assms(4) by (auto simp: rx_search_matches rx_matches_def)
  then have "(length p + i, length p + j) \<in> rx_rel (p @ s @ q) r" "length p + i \<le> length (p @ s @ q)"
    using rx_rel_inside assms by auto
  then show ?thesis unfolding rx_search_matches rx_matches_def by blast
qed

end
