(* ===== verification/Planning.thy ===== *)
theory Planning
  imports PyVal PyRegex
begin

text \<open>
  The planning specialist of \<open>backend/agents.py\<close>, first part: how it reads the shared semester
  state (courses, deadlines, materials, current plan), the effort, mastery, priority and pace
  model, and the candidates worth scheduling. A course is the untyped dictionary of the shared
  state (\<open>pydict\<close>); a candidate is a record with the keys of the source's dictionary.
\<close>

section \<open>Constants\<close>

definition PAGES_PER_SESSION :: int where "PAGES_PER_SESSION = 12"
definition MAX_SESSIONS_PER_ITEM :: int where "MAX_SESSIONS_PER_ITEM = 6"
definition DEFAULT_SESSIONS_PER_DAY :: int where "DEFAULT_SESSIONS_PER_DAY = 2"
definition MAX_SESSIONS_PER_DAY :: int where "MAX_SESSIONS_PER_DAY = 8"
definition MASTERY_TARGET :: rat where "MASTERY_TARGET = flit (7/10)"

lemmas planning_limits =
  PAGES_PER_SESSION_def MAX_SESSIONS_PER_ITEM_def DEFAULT_SESSIONS_PER_DAY_def MAX_SESSIONS_PER_DAY_def

section \<open>Reading the shared state\<close>

text \<open>The two keys of the shared state that planning uses.\<close>

record plan_state =
  ps_semester :: pyval
  ps_courses :: pyval

definition semester_of :: "plan_state \<Rightarrow> pydict" where
  "semester_of st = as_dict (ps_semester st)"

definition state_courses :: "plan_state \<Rightarrow> pydict list" where
  "state_courses st = dicts_of (py_iter (ps_courses st))"

definition parse_date :: "pyval \<Rightarrow> date option" where
  "parse_date value =
     (case value of
        VDateTime dt \<Rightarrow> Some (fst dt)
      | VDate d \<Rightarrow> Some d
      | v \<Rightarrow> if truthy v then map_option fst (parse_iso_z (py_str v)) else None)"

definition blank_value :: "pyval \<Rightarrow> bool" where
  \<comment> \<open>\<open>value in (None, "", [], {})\<close>\<close>
  "blank_value v \<longleftrightarrow> (case v of VNone \<Rightarrow> True | VStr s \<Rightarrow> s = [] | VList xs \<Rightarrow> xs = [] | VDict d \<Rightarrow> d = [] | _ \<Rightarrow> False)"

definition has_course_data :: "pydict \<Rightarrow> bool" where
  "has_course_data course \<longleftrightarrow>
     truthy (vget course ''course_name'') \<or> truthy (vget course ''name'') \<or>
     list_ex (\<lambda>key. list_ex (\<lambda>item. list_ex (\<lambda>p. \<not> blank_value (snd p)) item)
         (dicts_of (py_iter (vget course key))))
       [''deadlines'', ''materials'', ''completed_topics'', ''quiz_performance'']"

definition course_name_or :: "pydict \<Rightarrow> string \<Rightarrow> string" where
  \<comment> \<open>\<open>str(course.get("course_name") or course.get("name") or d)\<close>\<close>
  "course_name_or course d = py_str (py_or (py_or (vget course ''course_name'') (vget course ''name'')) (VStr d))"

definition course_title :: "nat \<Rightarrow> pydict \<Rightarrow> string" where
  "course_title index course = course_name_or course (''Course '' @ nat_str (index + 1))"

definition current_plans :: "pydict \<Rightarrow> pydict list" where
  "current_plans course =
     (case vget course ''current_plan'' of
        VDict p \<Rightarrow> if p = [] then [] else [p]
      | v \<Rightarrow> dicts_of (py_iter v))"

definition plan_tasks :: "pydict \<Rightarrow> string \<Rightarrow> pydict list" where
  "plan_tasks course key = concat (map (\<lambda>plan. dicts_of (py_iter (vget plan key))) (current_plans course))"

definition completed_items :: "pydict \<Rightarrow> pydict list" where
  "completed_items course =
     filter (\<lambda>item. truthy (vget item ''title'')) (dicts_of (py_iter (vget course ''completed_topics'')))"

fun summary_length :: "pydict \<Rightarrow> string list \<Rightarrow> int option" where
  \<comment> \<open>the loop over the length keys: the first that is a list or an integer\<close>
  "summary_length material [] = None"
| "summary_length material (key # keys) =
     (case vget material key of
        VNone \<Rightarrow> summary_length material keys
      | VList xs \<Rightarrow> Some (int (length xs))
      | v \<Rightarrow> (case py_int v of Some n \<Rightarrow> Some n | None \<Rightarrow> summary_length material keys))"

record summary =
  sm_title :: string
  sm_length :: "int option"

definition material_summary :: "nat \<Rightarrow> pydict \<Rightarrow> summary" where
  "material_summary index material =
     (let by_key = summary_length material
            [''slide_count'', ''num_slides'', ''slides'', ''page_count'', ''num_pages'', ''pages'']
      in \<lparr>sm_title = strip (py_str (py_or (py_or (py_or (py_or (vget material ''title'')
              (vget material ''document_title'')) (vget material ''filename'')) (vget material ''name''))
              (VStr (''Material '' @ nat_str (index + 1))))),
          sm_length = (case by_key of
              Some n \<Rightarrow> Some n
            | None \<Rightarrow> (case vget material ''content'' of VList xs \<Rightarrow> Some (int (length xs)) | _ \<Rightarrow> None))\<rparr>)"

definition summary_dict :: "summary \<Rightarrow> pydict" where
  "summary_dict s =
     [(''title'', VStr (sm_title s)), (''slides'', opt_int (sm_length s)), (''pages'', opt_int (sm_length s)),
      (''length'', opt_int (sm_length s))]"

fun indexed_dicts :: "nat \<Rightarrow> pyval list \<Rightarrow> (nat \<times> pydict) list" where
  \<comment> \<open>\<open>enumerate\<close> over a list, keeping the entries that are mappings\<close>
  "indexed_dicts n [] = []"
| "indexed_dicts n (VDict d # xs) = (n, d) # indexed_dicts (Suc n) xs"
| "indexed_dicts n (v # xs) = indexed_dicts (Suc n) xs"

definition library_overview :: "plan_state \<Rightarrow> pydict list" where
  "library_overview st =
     map (\<lambda>(index, course).
       [(''course_name'', VStr (course_title index course)),
        (''documents'', VList (map (\<lambda>(i, material). VDict (summary_dict (material_summary i material)))
           (filter (\<lambda>(i, material). list_ex (\<lambda>k. truthy (vget material k))
               [''title'', ''content'', ''slide_count'', ''num_slides'', ''slides''])
             (indexed_dicts 0 (py_iter (vget course ''materials'')))))),
        (''completed_topics'', VList (map VDict (dicts_of (py_iter (vget course ''completed_topics''))))),
        (''current_plan'', VList (map VDict (current_plans course))),
        (''completed_tasks'', VList (map VDict (plan_tasks course ''completed_tasks''))),
        (''remaining_tasks'', VList (map VDict (plan_tasks course ''remaining_tasks''))),
        (''quiz_performance'', VList (map VDict (dicts_of (py_iter (vget course ''quiz_performance'')))))])
     (filter (\<lambda>(index, course). has_course_data course) (indexed_dicts 0 (py_iter (ps_courses st))))"

section \<open>Deadlines and titles\<close>

record deadline_item =
  dl_title :: string
  dl_date :: "date option"
  dl_type :: string

definition deadline_items :: "pyval \<Rightarrow> deadline_item list" where
  "deadline_items deadlines =
     map (\<lambda>item. \<lparr>dl_title = strip (str_or_empty (vget item ''title'')), dl_date = parse_date (vget item ''date''),
         dl_type = strip (str_or_empty (py_or (py_or (vget item ''type'') (vget item ''kind'')) (vget item ''assessment_type'')))\<rparr>)
       (filter (\<lambda>item. truthy (vget item ''title'') \<or> truthy (vget item ''date'')) (dicts_of (py_iter deadlines)))"

definition assessment_type :: "deadline_item \<Rightarrow> string" where
  \<comment> \<open>the item has the keys \<open>title\<close> and \<open>type\<close>; the other two are absent\<close>
  "assessment_type item =
     (let text = join '' '' [casefold (dl_title item), casefold (dl_type item), [], []]
      in if contains ''quiz'' text then ''quiz''
         else if list_ex (\<lambda>w. contains w text) [''exam'', ''midterm'', ''mid-term'', ''final''] then ''exam''
         else ''assessment'')"

definition session_suffix_rx :: rx where
  "session_suffix_rx =
     seqs [spaces, lit ''(session '', many1 (Chr DigitC), lit '' of '', many1 (Chr DigitC), lit '')'', spaces, Eos]"

definition base_title :: "string \<Rightarrow> string" where
  "base_title title = strip (rx_delete session_suffix_rx title)"

definition focus_rx :: rx where
  "focus_rx = seqs [spaces, lit ''Focus:'', many (Chr AnyC), Eos]"

definition base_description :: "string \<Rightarrow> string" where
  "base_description text = strip (rx_delete focus_rx text)"

definition is_completed :: "string \<Rightarrow> pydict list \<Rightarrow> bool" where
  "is_completed title completed \<longleftrightarrow>
     list_ex (\<lambda>item. casefold (base_title (str_or_empty (vget_default item ''title'' (VStr []))))
       = casefold (base_title title)) completed"

section \<open>Effort, mastery, priority, pace\<close>

definition capacity_of :: "pydict \<Rightarrow> int" where
  "capacity_of semester_data =
     (let value = (case py_int (py_or (vget semester_data ''sessions_per_day'') (VInt DEFAULT_SESSIONS_PER_DAY)) of
                     Some n \<Rightarrow> n | None \<Rightarrow> DEFAULT_SESSIONS_PER_DAY)
      in max 1 (min value 6))"

definition clamp01 :: "rat \<Rightarrow> rat" where
  "clamp01 x = max 0 (min 1 x)"

definition page_sessions :: "int option \<Rightarrow> int" where
  "page_sessions len =
     (let pages = (case len of Some n \<Rightarrow> n | None \<Rightarrow> 0)
      in min (max 1 (- ((- pages) div PAGES_PER_SESSION))) MAX_SESSIONS_PER_ITEM)"

definition weighted_sessions :: "int \<Rightarrow> rat \<Rightarrow> int" where
  "weighted_sessions sessions mastery =
     round_half_even (fmul (of_int sessions) (fsub (7/4) (fmul (flit (115/100)) (clamp01 mastery))))"

definition effort_units :: "int option \<Rightarrow> rat option \<Rightarrow> int" where
  "effort_units len mastery =
     (let sessions = (case mastery of
              None \<Rightarrow> page_sessions len
            | Some m \<Rightarrow> weighted_sessions (page_sessions len) m)
      in max 1 (min sessions (MAX_SESSIONS_PER_ITEM + 2)))"

definition mastery_level :: "pyval \<Rightarrow> rat" where
  "mastery_level value =
     (let number = (case value of
          VStr s \<Rightarrow>
            (let text = casefold (strip s)
             in if text \<in> set [''low'', ''weak'', ''poor'', ''needs review''] then Inr 0
                else (case parse_float text of None \<Rightarrow> Inr (1/2) | Some x \<Rightarrow> Inl x))
        | v \<Rightarrow> (case py_float v of None \<Rightarrow> Inr (1/2) | Some x \<Rightarrow> Inl x))
      in case number of Inr d \<Rightarrow> d | Inl x \<Rightarrow> if 1 < x then fdiv x 100 else x)"

fun mastery_scan :: "string \<Rightarrow> (string, rat) dict \<Rightarrow> rat option" where
  "mastery_scan key [] = None"
| "mastery_scan key ((topic, value) # rest) =
     (if topic \<noteq> [] \<and> (contains topic key \<or> contains key topic) then Some value else mastery_scan key rest)"

definition mastery_for :: "string \<Rightarrow> (string, rat) dict \<Rightarrow> rat option" where
  "mastery_for title mastery_by_topic =
     (let key = casefold (strip title)
      in if key = [] then None
         else case map_of mastery_by_topic key of Some v \<Rightarrow> Some v | None \<Rightarrow> mastery_scan key mastery_by_topic)"

record candidate =
  c_id :: string
  c_course_index :: nat
  c_course :: string
  c_title :: string
  c_description :: string
  c_deadline :: "date option"
  c_reason :: string
  c_mastery :: "rat option"
  c_length :: "int option"
  c_effort :: int
  c_priority :: "rat option"   \<comment> \<open>set by \<open>plan\<close> before scheduling\<close>

definition urgency :: "date option \<Rightarrow> date \<Rightarrow> rat" where
  "urgency deadline today =
     (case deadline of
        Some d \<Rightarrow> fdiv 1 (fadd 1 (fdiv (of_int (max 0 (days_between today d))) 7))
      | None \<Rightarrow> flit (2/10))"

definition mastery_gap :: "rat option \<Rightarrow> rat" where
  "mastery_gap mastery = (case mastery of Some m \<Rightarrow> fsub 1 m | None \<Rightarrow> flit (4/10))"

definition reason_weight :: "string \<Rightarrow> rat" where
  "reason_weight reason =
     (if reason = ''assessment_prep'' then 1 else if reason = ''mastery_gap'' then flit (9/10)
      else if reason = ''remaining_task'' then flit (8/10) else 1/2)"

definition priority_score :: "candidate \<Rightarrow> date \<Rightarrow> rat" where
  "priority_score c today =
     fround 4 (fadd (fadd (fmul 3 (urgency (c_deadline c) today)) (fmul 2 (mastery_gap (c_mastery c))))
       (reason_weight (c_reason c)))"

record pace =
  pc_completed :: nat
  pc_remaining :: nat
  pc_overdue :: nat
  pc_ratio :: "rat option"
  pc_status :: string

definition is_overdue :: "date \<Rightarrow> pydict \<Rightarrow> bool" where
  "is_overdue today task = (case parse_date (vget task ''date'') of None \<Rightarrow> False | Some d \<Rightarrow> d < today)"

definition pace_evidence :: "plan_state \<Rightarrow> date \<Rightarrow> pace" where
  "pace_evidence st today =
     (let courses = state_courses st;
          completed = length (concat (map (\<lambda>c. plan_tasks c ''completed_tasks'') courses));
          tasks = concat (map (\<lambda>c. plan_tasks c ''remaining_tasks'') courses);
          remaining = length tasks;
          overdue = length (filter (is_overdue today) tasks);
          total = completed + remaining;
          ratio = (if total \<noteq> 0 then Some (fround 3 (fdiv_int (int completed) (int total))) else None)
      in \<lparr>pc_completed = completed, pc_remaining = remaining, pc_overdue = overdue, pc_ratio = ratio,
          pc_status = (if total = 0 then ''no_history''
            else if overdue \<noteq> 0 \<and> max 1 (remaining div 3) \<le> overdue then ''behind''
            else if (case ratio of Some r \<Rightarrow> 1/2 \<le> r | None \<Rightarrow> False) then ''on_track''
            else ''starting'')\<rparr>)"

definition pace_dict :: "pace \<Rightarrow> pydict" where
  "pace_dict p =
     [(''completed_tasks'', VInt (int (pc_completed p))), (''remaining_tasks'', VInt (int (pc_remaining p))),
      (''overdue_tasks'', VInt (int (pc_overdue p))), (''completion_ratio'', opt_float (pc_ratio p)),
      (''status'', VStr (pc_status p))]"


section \<open>Questions to the student\<close>

record tool_request =
  tr_action :: string
  tr_message :: string
  tr_requires_approval :: bool
  tr_payload :: pydict

definition ask_user :: "string \<Rightarrow> string \<Rightarrow> tool_request" where
  \<comment> \<open>the callers pass a question and a field, never options\<close>
  "ask_user question field =
     \<lparr>tr_action = ''ask_user'', tr_message = question, tr_requires_approval = False,
      tr_payload = (if field \<noteq> [] then [(''field'', VStr field)] else [])\<rparr>"

definition undated_deadlines :: "pydict \<Rightarrow> pydict list" where
  "undated_deadlines course =
     filter (\<lambda>d. truthy (vget d ''title'') \<and> parse_date (vget d ''date'') = None)
       (dicts_of (py_iter (vget course ''deadlines'')))"

definition missing_information :: "plan_state \<Rightarrow> tool_request list" where
  "missing_information st =
     (let courses = filter has_course_data (state_courses st)
      in (if parse_date (vget (semester_of st) ''start_date'') = None \<or> parse_date (vget (semester_of st) ''end_date'') = None
          then [ask_user ''What are the semester start and end dates?'' ''semester_dates''] else []) @
         (if courses = [] then [ask_user ''Which courses should I include in the study plan?'' ''courses''] else []) @
         concat (map (\<lambda>course. map (\<lambda>d.
             ask_user (''What date is '' @ py_str (vget d ''title'') @ '' for '' @ course_name_or course ''this course'' @ ''?'')
               ''deadline_date'') (undated_deadlines course)) courses))"

definition answer_dates :: "pydict \<Rightarrow> pydict" where
  "answer_dates answers =
     filter (\<lambda>(key, value). key \<in> set [''start_date'', ''end_date''] \<and> truthy value) (as_dict (vget answers ''semester_dates''))"

definition dict_update :: "pydict \<Rightarrow> pydict \<Rightarrow> pydict" where
  "dict_update d new = foldl (\<lambda>d (k, v). dict_set k v d) d new"

definition apply_answers :: "pydict \<Rightarrow> plan_state \<Rightarrow> plan_state" where
  "apply_answers answers st =
     (let data = dict_update (semester_of st) (answer_dates answers);
          data = foldl (\<lambda>data key. if truthy (vget answers key) then dict_set key (vget answers key) data else data)
                   data [''start_date'', ''end_date''];
          st = (if data \<noteq> [] then st\<lparr>ps_semester := VDict data\<rparr> else st)
      in case vget answers ''courses'' of
           VList xs \<Rightarrow> if xs \<noteq> [] then st\<lparr>ps_courses := VList xs\<rparr> else st
         | _ \<Rightarrow> st)"

section \<open>Candidates\<close>

record study_item =
  si_course :: string
  si_topic :: string
  si_document :: "string option"
  si_length :: "int option"
  si_mastery :: "rat option"
  si_effort :: int
  si_reason :: string

record assessment =
  as_course :: string
  as_title :: string
  as_type :: string
  as_date :: "string option"

record gathered =
  g_candidates :: "candidate list"
  g_study :: "study_item list"
  g_assessments :: "assessment list"

definition record_candidate :: "candidate \<Rightarrow> string \<Rightarrow> string option \<Rightarrow> bool \<Rightarrow> gathered \<Rightarrow> gathered" where
  \<comment> \<open>the id is assigned here\<close>
  "record_candidate c topic document study g =
     g\<lparr>g_study := (if study then g_study g @
          [\<lparr>si_course = c_course c, si_topic = topic, si_document = document, si_length = c_length c,
            si_mastery = c_mastery c, si_effort = c_effort c, si_reason = c_reason c\<rparr>] else g_study g),
       g_candidates := g_candidates g @ [c\<lparr>c_id := ''c'' @ nat_str (length (g_candidates g) + 1)\<rparr>]\<rparr>"

text \<open>What the loop over the courses computes once per course.\<close>

record course_context =
  cx_index :: nat
  cx_name :: string
  cx_done :: "pydict list"
  cx_nearest :: "date option"
  cx_mastery :: "(string, rat) dict"
  cx_lengths :: "(string, int option) dict"

definition nearest_date :: "deadline_item list \<Rightarrow> date option \<Rightarrow> date option" where
  "nearest_date deadlines end_date =
     (case List.map_filter dl_date deadlines of [] \<Rightarrow> end_date | d # ds \<Rightarrow> Some (foldl min d ds))"

definition mastery_by_topic :: "pydict \<Rightarrow> (string, rat) dict" where
  "mastery_by_topic course =
     foldl (\<lambda>m item. (let topic = strip (str_or_empty (vget item ''topic''))
          in if topic = [] then m else dict_set (casefold topic) (mastery_level (vget item ''estimated_mastery_level'')) m))
       [] (dicts_of (py_iter (vget course ''quiz_performance'')))"

definition course_materials :: "pydict \<Rightarrow> summary list" where
  "course_materials course =
     map (\<lambda>(i, material). material_summary i material)
       (filter (\<lambda>(i, material). truthy (vget material ''title'') \<or> truthy (vget material ''content''))
         (indexed_dicts 0 (py_iter (vget course ''materials''))))"

definition material_lengths :: "summary list \<Rightarrow> (string, int option) dict" where
  "material_lengths materials =
     foldl (\<lambda>d s. dict_set (casefold (''study '' @ sm_title s)) (sm_length s)
         (dict_set (casefold (sm_title s)) (sm_length s) d)) [] materials"

definition context_of :: "nat \<Rightarrow> pydict \<Rightarrow> date option \<Rightarrow> course_context" where
  "context_of index course end_date =
     \<lparr>cx_index = index, cx_name = course_title index course,
      cx_done = completed_items course @ plan_tasks course ''completed_tasks'',
      cx_nearest = nearest_date (deadline_items (vget course ''deadlines'')) end_date,
      cx_mastery = mastery_by_topic course,
      cx_lengths = material_lengths (course_materials course)\<rparr>"

record task_group =
  tg_title :: string
  tg_sessions :: nat
  tg_task :: pydict

definition group_task :: "pydict list \<Rightarrow> (string, task_group) dict \<Rightarrow> pydict \<Rightarrow> (string, task_group) dict" where
  "group_task already grouped task =
     (let title = base_title (str_or_empty (vget task ''title''))
      in if title = [] \<or> is_completed title already then grouped
         else let entry = dict_get grouped (casefold title) \<lparr>tg_title = title, tg_sessions = 0, tg_task = task\<rparr>
              in dict_set (casefold title) (entry\<lparr>tg_sessions := tg_sessions entry + 1\<rparr>) grouped)"

definition grouped_tasks :: "pydict list \<Rightarrow> pydict list \<Rightarrow> (string, task_group) dict" where
  "grouped_tasks already tasks = foldl (group_task already) [] tasks"

definition study_candidate ::
  "course_context \<Rightarrow> string \<Rightarrow> string \<Rightarrow> date option \<Rightarrow> string \<Rightarrow> rat option \<Rightarrow> int option \<Rightarrow> int \<Rightarrow> candidate"
where
  "study_candidate cx title description deadline reason mastery len effort =
     \<lparr>c_id = [], c_course_index = cx_index cx, c_course = cx_name cx, c_title = title,
      c_description = description, c_deadline = deadline, c_reason = reason, c_mastery = mastery,
      c_length = len, c_effort = effort, c_priority = None\<rparr>"

definition or_date :: "date option \<Rightarrow> date option \<Rightarrow> date option" where
  "or_date a b = (case a of Some d \<Rightarrow> Some d | None \<Rightarrow> b)"

definition from_group :: "course_context \<Rightarrow> gathered \<Rightarrow> task_group \<Rightarrow> gathered" where
  "from_group cx g entry =
     (let title = tg_title entry; mastery = mastery_for title (cx_mastery cx);
          len = dict_get (cx_lengths cx) (casefold title) None;
          noted = base_description (str_or_empty (vget (tg_task entry) ''description''))
      in record_candidate
           (study_candidate cx title (if noted = [] then ''Continue '' @ title @ ''.'' else noted)
             (or_date (parse_date (vget (tg_task entry) ''date'')) (cx_nearest cx)) ''remaining_task'' mastery len
             (max (int (tg_sessions entry)) (effort_units len mastery)))
           title None True g)"

definition from_deadline :: "course_context \<Rightarrow> gathered \<times> string list \<Rightarrow> deadline_item \<Rightarrow> gathered \<times> string list" where
  "from_deadline cx acc d =
     (case acc of (g, seen) \<Rightarrow>
        if dl_title d = [] then acc
        else
          (let g = g\<lparr>g_assessments := g_assessments g @
                 [\<lparr>as_course = cx_name cx, as_title = dl_title d, as_type = assessment_type d,
                   as_date = map_option iso_of_date (dl_date d)\<rparr>]\<rparr>;
               title = ''Prepare for '' @ dl_title d
           in if casefold title \<in> set seen then (g, seen)
              else
                (let mastery = mastery_for (dl_title d) (cx_mastery cx)
                 in (record_candidate
                      (study_candidate cx title (''Work toward the '' @ cx_name cx @ '' deadline.'')
                        (or_date (dl_date d) (cx_nearest cx)) ''assessment_prep'' mastery None
                        (max 2 (effort_units None mastery)))
                      (dl_title d) None False g,
                     casefold title # seen))))"

definition from_material :: "course_context \<Rightarrow> string list \<Rightarrow> gathered \<Rightarrow> summary \<Rightarrow> gathered" where
  "from_material cx seen g s =
     (let topic = sm_title s; title = ''Study '' @ topic
      in if is_completed topic (cx_done cx) \<or> casefold title \<in> set seen then g
         else
           (let mastery = mastery_for topic (cx_mastery cx); pages = sm_length s
            in record_candidate
                 (study_candidate cx title
                   (''Review the '' @ topic @ '' course material'' @
                     (case pages of Some n \<Rightarrow> if n \<noteq> 0 then '' ('' @ int_str n @ '' pages).'' else ''.'' | None \<Rightarrow> ''.''))
                   (cx_nearest cx) ''material_not_completed'' mastery pages (effort_units pages mastery))
                 topic (Some topic) True g))"

definition from_performance :: "course_context \<Rightarrow> string list \<Rightarrow> gathered \<Rightarrow> pydict \<Rightarrow> gathered" where
  "from_performance cx seen g performance =
     (let topic = strip (str_or_empty (vget performance ''topic'')); title = ''Review '' @ topic;
          mastery = mastery_level (vget performance ''estimated_mastery_level'')
      in if topic = [] \<or> MASTERY_TARGET \<le> mastery \<or> is_completed topic (cx_done cx) \<or> casefold title \<in> set seen then g
         else record_candidate
                (study_candidate cx title
                  (py_str (py_or (vget performance ''notes'') (VStr (''Revisit '' @ topic @ '' before the next assessment.''))))
                  (cx_nearest cx) ''mastery_gap'' (Some mastery) None (effort_units None (Some mastery)))
                topic None True g)"

definition gather_course :: "date option \<Rightarrow> gathered \<Rightarrow> nat \<times> pydict \<Rightarrow> gathered" where
  "gather_course end_date g indexed =
     (case indexed of (index, course) \<Rightarrow>
       (let cx = context_of index course end_date;
            grouped = grouped_tasks (cx_done cx) (plan_tasks course ''remaining_tasks'');
            g = foldl (from_group cx) g (map snd grouped);
            (g, seen) = foldl (from_deadline cx) (g, dict_keys grouped) (deadline_items (vget course ''deadlines''));
            g = foldl (from_material cx seen) g (course_materials course)
        in foldl (from_performance cx seen) g (dicts_of (py_iter (vget course ''quiz_performance'')))))"

definition collect_candidates :: "pydict list \<Rightarrow> date option \<Rightarrow> gathered" where
  "collect_candidates courses end_date =
     foldl (gather_course end_date) \<lparr>g_candidates = [], g_study = [], g_assessments = []\<rparr>
       (enumerate_from 0 courses)"


section \<open>Effort and priority\<close>

lemma effort_units_bounds: "1 \<le> effort_units len m \<and> effort_units len m \<le> 8"
  by (simp add: effort_units_def MAX_SESSIONS_PER_ITEM_def Let_def)

lemma clamp01_mono: "x \<le> y \<Longrightarrow> clamp01 x \<le> clamp01 y"
  by (auto simp: clamp01_def)

lemma page_sessions_range: "1 \<le> page_sessions len \<and> page_sessions len \<le> 6"
  by (simp add: page_sessions_def planning_limits Let_def)

lemma page_sessions_mono:
  assumes "a \<le> b"
  shows "page_sessions (Some a) \<le> page_sessions (Some b)"
proof -
  have "(- b) div PAGES_PER_SESSION \<le> (- a) div PAGES_PER_SESSION"
    using assms by (intro zdiv_mono1) (auto simp: planning_limits)
  then show ?thesis by (auto simp: page_sessions_def)
qed

lemma effort_clamp_mono: "(a::int) \<le> b \<Longrightarrow> max 1 (min a k) \<le> max 1 (min b k)"
  by auto

lemma mastery_factor_antimono:
  assumes "x \<le> y"
  shows "fsub (7/4) (fmul (flit (115/100)) (clamp01 y)) \<le> fsub (7/4) (fmul (flit (115/100)) (clamp01 x))"
proof -
  have "0 \<le> flit (115/100)" by (simp add: flit_def fl64_nonneg)
  then have "flit (115/100) * clamp01 x \<le> flit (115/100) * clamp01 y"
    by (intro mult_left_mono clamp01_mono assms)
  then have "fmul (flit (115/100)) (clamp01 x) \<le> fmul (flit (115/100)) (clamp01 y)"
    by (simp add: fmul_def fl64_mono)
  then show ?thesis by (simp add: fsub_def fl64_mono)
qed

lemma weighted_sessions_mastery:
  assumes "x \<le> y" and "0 \<le> n"
  shows "weighted_sessions n y \<le> weighted_sessions n x"
proof -
  have "(0::rat) \<le> of_int n" using assms(2) by simp
  then show ?thesis
    unfolding weighted_sessions_def fmul_def [of "of_int n"]
    by (intro round_half_even_mono fl64_mono mult_left_mono mastery_factor_antimono assms(1))
qed

lemma effort_units_mastery:
  assumes "x \<le> y"
  shows "effort_units len (Some y) \<le> effort_units len (Some x)"
  using weighted_sessions_mastery [OF assms, of "page_sessions len"] page_sessions_range [of len]
  by (auto simp: effort_units_def Let_def intro!: effort_clamp_mono)

lemma mastery_factor_nonneg: "0 \<le> fsub (7/4) (fmul (flit (115/100)) (clamp01 x))"
proof -
  have "clamp01 x \<le> 1" "0 \<le> clamp01 x" by (auto simp: clamp01_def)
  have "flit (115/100) \<le> flit (7/4)" by (simp add: flit_def fl64_mono)
  moreover have "flit (7/4) = 7/4" by code_simp
  moreover have "0 \<le> flit (115/100)" by (simp add: flit_def fl64_nonneg)
  ultimately have "flit (115/100) * clamp01 x \<le> 7/4 * 1"
    using \<open>clamp01 x \<le> 1\<close> \<open>0 \<le> clamp01 x\<close> by (intro mult_mono) auto
  then have "fmul (flit (115/100)) (clamp01 x) \<le> 7/4"
    using fl64_mono [of "flit (115/100) * clamp01 x" "7/4"] \<open>flit (7/4) = 7/4\<close> by (simp add: fmul_def flit_def)
  then show ?thesis by (simp add: fsub_def fl64_nonneg)
qed

lemma weighted_sessions_mono: "n \<le> k \<Longrightarrow> weighted_sessions n x \<le> weighted_sessions k x"
  unfolding weighted_sessions_def fmul_def [of "of_int n"] fmul_def [of "of_int k"]
  by (intro round_half_even_mono fl64_mono mult_right_mono mastery_factor_nonneg) simp

lemma effort_units_pages:
  assumes "a \<le> b"
  shows "effort_units (Some a) m \<le> effort_units (Some b) m"
  using page_sessions_mono [OF assms] weighted_sessions_mono [OF page_sessions_mono [OF assms]]
  unfolding effort_units_def Let_def by (cases m) (auto simp only: option.case intro!: effort_clamp_mono)

lemma urgency_mono:
  assumes "d \<le> e"
  shows "urgency (Some e) today \<le> urgency (Some d) today"
proof -
  have "(of_int (max 0 (days_between today d)) :: rat) \<le> of_int (max 0 (days_between today e))"
    using assms by (simp only: of_int_le_iff) (auto simp: days_between_def date_simps)
  then have "fdiv (of_int (max 0 (days_between today d))) 7 \<le> fdiv (of_int (max 0 (days_between today e))) 7"
    by (simp add: fdiv_def fl64_mono divide_right_mono)
  then have step: "fadd 1 (fdiv (of_int (max 0 (days_between today d))) 7) \<le> fadd 1 (fdiv (of_int (max 0 (days_between today e))) 7)"
    by (simp add: fadd_def fl64_mono)
  have "0 \<le> fdiv (of_int (max 0 (days_between today d))) 7"
    by (simp add: fdiv_def fl64_nonneg)
  then have "1 \<le> fadd 1 (fdiv (of_int (max 0 (days_between today d))) 7)"
    using fl64_ge_of_int [of 1] by (simp add: fadd_def)
  then show ?thesis using step
    by (simp add: urgency_def fdiv_def [of 1] fl64_mono frac_le)
qed

lemma priority_score_mono:
  assumes "urgency (c_deadline c) today \<le> urgency (c_deadline d) today"
    and "mastery_gap (c_mastery c) \<le> mastery_gap (c_mastery d)"
    and "reason_weight (c_reason c) \<le> reason_weight (c_reason d)"
  shows "priority_score c today \<le> priority_score d today"
  unfolding priority_score_def fadd_def fmul_def
  by (intro fround_mono fl64_mono add_mono mult_left_mono assms) auto

lemma mastery_gap_antimono: "x \<le> y \<Longrightarrow> mastery_gap (Some y) \<le> mastery_gap (Some x)"
  by (simp add: mastery_gap_def fsub_def fl64_mono)

section \<open>Well-formed candidates\<close>

definition candidate_ok :: "nat \<Rightarrow> candidate \<Rightarrow> bool" where
  "candidate_ok n c \<longleftrightarrow> c_course_index c < n \<and> 1 \<le> c_effort c \<and> c_priority c = None"

definition numbered_id :: "nat \<Rightarrow> string" where
  "numbered_id i = ''c'' @ nat_str i"

definition gathered_ok :: "nat \<Rightarrow> gathered \<Rightarrow> bool" where
  "gathered_ok n g \<longleftrightarrow> list_all (candidate_ok n) (g_candidates g)
     \<and> map c_id (g_candidates g) = map (\<lambda>i. numbered_id (i + 1)) [0..<length (g_candidates g)]"

lemma record_candidate_ok [intro]:
  "gathered_ok n g \<Longrightarrow> candidate_ok n c \<Longrightarrow> gathered_ok n (record_candidate c t d s g)"
  by (simp add: gathered_ok_def record_candidate_def candidate_ok_def numbered_id_def)

lemma study_candidate_ok [intro]:
  "cx_index cx < n \<Longrightarrow> 1 \<le> effort \<Longrightarrow> candidate_ok n (study_candidate cx t d dl r m len effort)"
  by (simp add: candidate_ok_def study_candidate_def)

lemma effort_units_pos [simp]: "1 \<le> effort_units len m"
  using effort_units_bounds by blast

lemma gathered_ok_more [simp]: "gathered_ok n (g\<lparr>g_assessments := a\<rparr>) = gathered_ok n g"
  by (simp add: gathered_ok_def)

lemma from_steps_ok:
  assumes "cx_index cx < n" and "gathered_ok n g"
  shows "gathered_ok n (from_group cx g entry)" "gathered_ok n (fst (from_deadline cx (g, seen) d))"
    "gathered_ok n (from_material cx seen g s)" "gathered_ok n (from_performance cx seen g p)"
proof -
  have e: "1 \<le> max (int (tg_sessions entry)) (effort_units l m)" "1 \<le> max 2 (effort_units l m)" for l m
    using effort_units_pos [of l m] by linarith+
  show "gathered_ok n (from_group cx g entry)"
    unfolding from_group_def Let_def
    by (intro record_candidate_ok study_candidate_ok e assms)
  show "gathered_ok n (fst (from_deadline cx (g, seen) d))"
    using assms by (auto simp: from_deadline_def Let_def intro!: record_candidate_ok study_candidate_ok e)
  show "gathered_ok n (from_material cx seen g s)"
    using assms by (auto simp: from_material_def Let_def intro!: record_candidate_ok study_candidate_ok)
  show "gathered_ok n (from_performance cx seen g p)"
    using assms by (auto simp: from_performance_def Let_def intro!: record_candidate_ok study_candidate_ok)
qed

lemma gather_course_ok:
  assumes "i < n" and "gathered_ok n g"
  shows "gathered_ok n (gather_course e g (i, course))"
proof -
  let ?cx = "context_of i course e"
  have cx: "cx_index ?cx < n" using assms(1) by (simp add: context_of_def)
  let ?grouped = "grouped_tasks (cx_done ?cx) (plan_tasks course ''remaining_tasks'')"
  have g1: "gathered_ok n (foldl (from_group ?cx) g (map snd ?grouped))"
    by (rule foldl_invariant [where P = "gathered_ok n"]) (use assms(2) from_steps_ok(1) [OF cx] in auto)
  have g2: "gathered_ok n (fst (foldl (from_deadline ?cx) (foldl (from_group ?cx) g (map snd ?grouped), dict_keys ?grouped)
      (deadline_items (vget course ''deadlines''))))"
  proof (rule foldl_invariant [where P = "\<lambda>a. gathered_ok n (fst a)"])
    show "gathered_ok n (fst (from_deadline ?cx a x))" if "gathered_ok n (fst a)" for a x
      using from_steps_ok(2) [OF cx that, of "snd a" x] by simp
  qed (use g1 in simp)
  have g3: "gathered_ok n (foldl (from_performance ?cx seen) (foldl (from_material ?cx seen) g' ms) ps)"
    if "gathered_ok n g'" for g' seen ms ps
  proof (rule foldl_invariant [where P = "gathered_ok n"])
    show "gathered_ok n (foldl (from_material ?cx seen) g' ms)"
      by (rule foldl_invariant [where P = "gathered_ok n"]) (use that from_steps_ok(3) [OF cx] in auto)
  qed (use from_steps_ok(4) [OF cx] in auto)
  show ?thesis
    using g2 g3 by (simp add: gather_course_def Let_def split_beta)
qed

lemma collect_candidates_ok: "gathered_ok (length courses) (collect_candidates courses e)"
  unfolding collect_candidates_def
proof (rule foldl_invariant [where P = "gathered_ok (length courses)"])
  fix g x assume "x \<in> set (enumerate_from 0 courses)" and g: "gathered_ok (length courses) g"
  then have "fst x < length courses" using set_enumerate_from [of "fst x" "snd x" 0 courses] by simp
  then show "gathered_ok (length courses) (gather_course e g x)"
    using gather_course_ok [OF _ g] by (cases x) auto
qed (simp add: gathered_ok_def)

lemma gathered_ok_distinct: "gathered_ok n g \<Longrightarrow> distinct (map c_id (g_candidates g))"
  by (simp add: gathered_ok_def distinct_map inj_on_def numbered_id_def)

section \<open>Questions\<close>

lemma missing_information_Nil:
  "missing_information st = [] \<longleftrightarrow>
     parse_date (vget (semester_of st) ''start_date'') \<noteq> None
   \<and> parse_date (vget (semester_of st) ''end_date'') \<noteq> None
   \<and> filter has_course_data (state_courses st) \<noteq> []
   \<and> (\<forall>course\<in>set (filter has_course_data (state_courses st)). undated_deadlines course = [])"
  by (auto simp: missing_information_def Let_def)


section \<open>A replan recognises its own titles\<close>

definition session_suffix :: "nat \<Rightarrow> nat \<Rightarrow> string" where
  "session_suffix i n = '' (session '' @ nat_str i @ '' of '' @ nat_str n @ '')''"

lemma rel_seq: "(p, q) \<in> rx_rel s (Seq a b) \<longleftrightarrow> (\<exists>m. (p, m) \<in> rx_rel s a \<and> (m, q) \<in> rx_rel s b)"
  by auto

lemma rel_eos: "(p, q) \<in> rx_rel s Eos \<longleftrightarrow> p = q \<and> at_end s q"
  by auto

lemma session_suffix_rel:
  "(p, q) \<in> rx_rel s session_suffix_rx \<longleftrightarrow>
     (\<exists>p1 p2 p3 p4 p5 p6.
        (p, p1) \<in> rx_rel s spaces \<and> (p1, p2) \<in> rx_rel s (lit ''(session '') \<and> (p2, p3) \<in> rx_rel s (many1 (Chr DigitC))
      \<and> (p3, p4) \<in> rx_rel s (lit '' of '') \<and> (p4, p5) \<in> rx_rel s (many1 (Chr DigitC)) \<and> (p5, p6) \<in> rx_rel s (lit '')'')
      \<and> (p6, q) \<in> rx_rel s spaces \<and> at_end s q)"
  by (simp only: session_suffix_rx_def seqs.simps list.simps if_False if_True rel_seq rel_eos simp_thms) blast

lemmas digits_run = rx_rel_run [where g = True and lo = 1 and P = DigitC, folded many1_def]
lemmas spaces_rel = rx_rel_run [where g = True and lo = 0 and P = SpaceC, folded many_def, folded spaces_def]

lemma nth_segment: "s = a @ b @ c \<Longrightarrow> length a \<le> k \<Longrightarrow> k < length a + length b \<Longrightarrow> s ! k \<in> set b"
  by (auto simp: nth_append less_diff_conv2)

lemma digits_segment:
  assumes "list_all is_digit b" and "b \<noteq> []"
  shows "(length a, length a + length b) \<in> rx_rel (a @ b @ c) (many1 (Chr DigitC))"
proof -
  have "is_digit ((a @ b @ c) ! k)" if "length a \<le> k" "k < length a + length b" for k
    using nth_segment [OF refl that] assms(1) by (auto simp: list_all_iff)
  moreover have "1 \<le> length b" using assms(2) by (cases b) auto
  ultimately show ?thesis by (auto simp: digits_run)
qed

lemma digits_before_unique:
  \<comment> \<open>a maximal run of digits ending at \<open>e\<close> is unique\<close>
  assumes "\<forall>k. a \<le> k \<and> k < e \<longrightarrow> is_digit (s ! k)" "0 < a \<and> \<not> is_digit (s ! (a - 1))" "a < e"
    and "\<forall>k. b \<le> k \<and> k < e \<longrightarrow> is_digit (s ! k)" "0 < b \<and> \<not> is_digit (s ! (b - 1))" "b < e"
  shows "a = b"
proof (rule ccontr)
  assume "a \<noteq> b"
  then consider "a \<le> b - 1 \<and> b - 1 < e" | "b \<le> a - 1 \<and> a - 1 < e" using assms(3,6) by linarith
  then show False using assms by cases blast+
qed

lemma lit_at: "(i, j) \<in> rx_rel s (lit w) \<Longrightarrow> w \<noteq> [] \<Longrightarrow> j = i + length w \<and> j \<le> length s \<and> (\<forall>k<length w. s ! (i + k) = w ! k)"
  unfolding rx_rel_lit by (metis (no_types, lifting) add_leD1 nth_drop nth_take)

lemma lit_here: "i + length w \<le> length s \<Longrightarrow> (\<forall>k<length w. s ! (i + k) = w ! k) \<Longrightarrow> (i, i + length w) \<in> rx_rel s (lit w)"
  unfolding rx_rel_lit by (auto intro!: nth_equalityI)

lemma session_suffix_at:
  fixes t I N
  defines "s \<equiv> t @ '' (session '' @ I @ '' of '' @ N @ '')''"
  assumes dI: "I \<noteq> []" "list_all is_digit I" and dN: "N \<noteq> []" "list_all is_digit N"
    and t: "t = [] \<or> \<not> is_space (last t)"
    and m: "p \<le> length s" "(p, q) \<in> rx_rel s session_suffix_rx"
  shows "length t \<le> p \<and> p < length s \<and> q = length s"
proof -
  let ?L = "length t" and ?e = "length s - 1"
  have len: "length s = ?L + 10 + length I + 4 + length N + 1" by (simp add: s_def)
  have nI: "is_digit (s ! k)" if "?L + 10 \<le> k" "k < ?L + 10 + length I" for k
    using nth_segment [of s "t @ '' (session ''" I "'' of '' @ N @ '')''" k] that dI(2) by (auto simp: s_def list_all_iff)
  have nN: "is_digit (s ! k)" if "?L + 14 + length I \<le> k" "k < ?e" for k
    using nth_segment [of s "t @ '' (session '' @ I @ '' of ''" N "'')''" k] that dN(2) len by (auto simp: s_def list_all_iff)
  have bI: "s ! (?L + 9) = CHR '' ''" "s ! (?L + 13 + length I) = CHR '' ''" "s ! ?e = CHR '')''"
    using len by (simp_all add: s_def nth_append)
  have nd: "\<not> is_digit (CHR '' '')" "\<not> is_digit (CHR '')'')" "\<not> is_space (CHR '')'')" by (simp_all add: is_digit_def is_space_def code_def)
  obtain p1 p2 p3 p4 p5 p6 where r:
    "(p, p1) \<in> rx_rel s spaces" "(p1, p2) \<in> rx_rel s (lit ''(session '')" "(p2, p3) \<in> rx_rel s (many1 (Chr DigitC))"
    "(p3, p4) \<in> rx_rel s (lit '' of '')" "(p4, p5) \<in> rx_rel s (many1 (Chr DigitC))" "(p5, p6) \<in> rx_rel s (lit '')'')"
    "(p6, q) \<in> rx_rel s spaces" "at_end s q"
    using m(2) unfolding session_suffix_rel by blast
  have l2: "p2 = p1 + 9" "p2 \<le> length s" "s ! (p1 + 8) = CHR '' ''" using lit_at [OF r(2)] by force+
  have l4: "p4 = p3 + 4" "p4 \<le> length s" "s ! (p3 + 3) = CHR '' ''" "s ! p3 = CHR '' ''" using lit_at [OF r(4)] by force+
  have l6: "p6 = p5 + 1" "p6 \<le> length s" "s ! p5 = CHR '')''" using lit_at [OF r(6)] by force+
  have q: "q = length s"
  proof (rule ccontr)
    assume "q \<noteq> length s"
    then have "q = ?e" "s ! q = newline" using r(8) by (auto simp: at_end_def)
    then show False using bI(3) by (simp add: newline_def)
  qed
  have p6: "p6 = length s"
  proof (rule ccontr)
    assume "p6 \<noteq> length s"
    then have "p6 \<le> ?e \<and> ?e < q" using l6 q by auto
    then have "is_space (s ! ?e)" using r(7) unfolding spaces_rel by auto
    then show False using bI(3) nd by simp
  qed
  then have p5: "p5 = ?e" using l6 by simp
  have p4: "p4 = ?L + 14 + length I"
  proof (rule digits_before_unique)
    show "\<forall>k. p4 \<le> k \<and> k < ?e \<longrightarrow> is_digit (s ! k)" "p4 < ?e" using r(5) p5 unfolding digits_run by auto
    show "0 < p4 \<and> \<not> is_digit (s ! (p4 - 1))" using l4 nd by (simp add: add.commute)
    show "0 < ?L + 14 + length I \<and> \<not> is_digit (s ! (?L + 14 + length I - 1))" using bI nd by (simp add: ac_simps)
    show "?L + 14 + length I < ?e" using len dN(1) by (cases N) auto
  qed (use nN in blast)
  then have p3: "p3 = ?L + 10 + length I" using l4 by simp
  have p2: "p2 = ?L + 10"
  proof (rule digits_before_unique)
    show "\<forall>k. p2 \<le> k \<and> k < p3 \<longrightarrow> is_digit (s ! k)" "p2 < p3" using r(3) unfolding digits_run by auto
    show "0 < p2 \<and> \<not> is_digit (s ! (p2 - 1))" using l2 nd by (simp add: add.commute)
    show "0 < ?L + 10 \<and> \<not> is_digit (s ! (?L + 10 - 1))" using bI nd by (simp add: ac_simps)
    show "?L + 10 < p3" using p3 dI(1) by (cases I) auto
    show "\<forall>k. ?L + 10 \<le> k \<and> k < p3 \<longrightarrow> is_digit (s ! k)" using nI p3 by simp
  qed
  have p1: "p1 = ?L + 1" using p2 l2 by simp
  have "?L \<le> p"
  proof (rule ccontr)
    assume "\<not> ?L \<le> p"
    then have "p \<le> ?L - 1 \<and> ?L - 1 < p1" "t \<noteq> []" using p1 by auto
    then have "is_space (s ! (?L - 1))" using r(1) unfolding spaces_rel by auto
    then show False using t \<open>t \<noteq> []\<close> by (simp add: s_def nth_append last_conv_nth)
  qed
  moreover have "p < length s" using r(1) p1 len unfolding spaces_rel by auto
  ultimately show ?thesis using q by blast
qed

lemma session_suffix_matches:
  fixes t I N
  defines "s \<equiv> t @ '' (session '' @ I @ '' of '' @ N @ '')''"
  assumes dI: "I \<noteq> []" "list_all is_digit I" and dN: "N \<noteq> []" "list_all is_digit N"
  shows "(length t, length s) \<in> rx_rel s session_suffix_rx"
  unfolding session_suffix_rel
proof (intro exI conjI)
  let ?L = "length t"
  have len: "length s = ?L + 10 + length I + 4 + length N + 1" by (simp add: s_def)
  show "(?L, ?L + 1) \<in> rx_rel s spaces"
    unfolding spaces_rel using len by (auto simp: s_def nth_append is_space_def code_def less_Suc_eq)
  show "(?L + 1, ?L + 1 + length ''(session '') \<in> rx_rel s (lit ''(session '')"
    by (rule lit_here) (auto simp: s_def nth_append nth_Cons split: nat.splits)
  show "(?L + 1 + length ''(session '', ?L + 10 + length I) \<in> rx_rel s (many1 (Chr DigitC))"
    using digits_segment [OF dI(2,1), of "t @ '' (session ''" "'' of '' @ N @ '')''"]
    by (simp add: s_def eval_nat_numeral)
  show "(?L + 10 + length I, ?L + 10 + length I + length '' of '') \<in> rx_rel s (lit '' of '')"
    by (rule lit_here) (auto simp: s_def nth_append nth_Cons split: nat.splits)
  show "(?L + 10 + length I + length '' of '', length s - 1) \<in> rx_rel s (many1 (Chr DigitC))"
    using digits_segment [OF dN(2,1), of "t @ '' (session '' @ I @ '' of ''" "'')''"]
    by (simp add: s_def eval_nat_numeral add.assoc)
  have "(length s - 1, length s - 1 + length '')'') \<in> rx_rel s (lit '')'')"
    by (rule lit_here) (auto simp: s_def nth_append)
  then show "(length s - 1, length s) \<in> rx_rel s (lit '')'')" using len by simp
  show "(length s, length s) \<in> rx_rel s spaces" unfolding spaces_rel by auto
qed (simp add: at_end_def)

lemma base_title_session:
  assumes "strip t = t"
  shows "base_title (t @ '' (session '' @ nat_str i @ '' of '' @ nat_str n @ '')'') = t"
proof -
  let ?s = "t @ '' (session '' @ nat_str i @ '' of '' @ nat_str n @ '')''"
  have dig: "list_all is_digit (nat_str k)" "nat_str k \<noteq> []" for k
    using nat_str_digits [of k] by (auto simp: list_all_iff)
  have t: "t = [] \<or> \<not> is_space (last t)" using strip_ends [of t] assms by auto
  have "rx_delete session_suffix_rx ?s = take (length t) ?s"
  proof (rule rx_delete_suffix)
    show "(length t, length ?s) \<in> rx_rel ?s session_suffix_rx"
      by (rule session_suffix_matches) (use dig in auto)
    show "length t \<le> p \<and> p < length ?s \<and> q = length ?s"
      if "p \<le> length ?s" "(p, q) \<in> rx_rel ?s session_suffix_rx" for p q
      by (rule session_suffix_at) (use dig t that in auto)
  qed simp
  then show ?thesis using assms by (simp add: base_title_def)
qed


section \<open>Properties\<close>

text \<open>A document asks for one to eight study sessions; a longer document never asks for
  fewer, and a better mastered one never for more.\<close>

theorem effort_units_sound:
  assumes "a \<le> b" and "x \<le> y"
  shows "1 \<le> effort_units (Some a) (Some y)
    \<and> effort_units (Some a) (Some y) \<le> effort_units (Some b) (Some x)
    \<and> effort_units (Some b) (Some x) \<le> 8"
  using effort_units_bounds effort_units_mastery [OF assms(2), of "Some a"] effort_units_pages [OF assms(1), of "Some x"]
  by (metis order_trans)

theorem effort_units_sound_witness:
  "1 \<le> effort_units (Some 24) (Some 1) \<and> effort_units (Some 24) (Some 1) \<le> effort_units (Some 60) (Some 0)
    \<and> effort_units (Some 60) (Some 0) \<le> 8 \<and> effort_units (Some 60) (Some 0) = 8"
proof -
  have "effort_units (Some 60) (Some 0) = 8" by code_simp
  then show ?thesis using effort_units_sound [of 24 60 0 1] by simp
qed

text \<open>Of two candidates of the same origin, the one with the nearer deadline and the
  weaker mastery never gets the lower priority, in the floating-point arithmetic of the code.\<close>

theorem priority_prefers_urgent_and_weak:
  assumes "c_deadline c = Some d" and "c_deadline c' = Some d'" and "d \<le> d'"
    and "c_mastery c = Some m" and "c_mastery c' = Some m'" and "m \<le> m'" and "c_reason c = c_reason c'"
  shows "priority_score c' today \<le> priority_score c today"
  by (rule priority_score_mono)
    (use assms urgency_mono [OF assms(3)] mastery_gap_antimono [OF assms(6)] in auto)

definition example_candidate :: "int \<Rightarrow> rat \<Rightarrow> candidate" where
  "example_candidate day m =
     \<lparr>c_id = ''c1'', c_course_index = 0, c_course = ''Algorithms'', c_title = ''Study heaps'', c_description = [],
      c_deadline = Some (Date day), c_reason = ''material_not_completed'', c_mastery = Some m, c_length = None,
      c_effort = 1, c_priority = None\<rparr>"

theorem priority_prefers_urgent_and_weak_witness:
  "priority_score (example_candidate 739700 (3/4)) (Date 739600) \<le> priority_score (example_candidate 739610 (1/4)) (Date 739600)"
  by (rule priority_prefers_urgent_and_weak
      [where d = "Date 739610" and d' = "Date 739700" and m = "1/4" and m' = "3/4"])
    (simp_all add: example_candidate_def date_simps)

text \<open>Whatever the courses hold, the candidates gathered have pairwise different ids,
  belong to one of the courses, need at least one session and have no priority yet.\<close>

theorem candidates_well_formed:
  "distinct (map c_id (g_candidates (collect_candidates courses end_date)))
    \<and> list_all (candidate_ok (length courses)) (g_candidates (collect_candidates courses end_date))"
  using collect_candidates_ok [of courses end_date] gathered_ok_distinct by (auto simp: gathered_ok_def)

text \<open>The title a scheduled session gets from a task is read back as that task's own title,
  so a replan groups its earlier sessions under the candidate they came from.\<close>

theorem session_title_roundtrip:
  assumes "strip t = t"
  shows "base_title (t @ '' (session '' @ nat_str i @ '' of '' @ nat_str n @ '')'') = t"
  by (rule base_title_session [OF assms])

theorem session_title_roundtrip_witness:
  "base_title (''Study heaps'' @ '' (session '' @ nat_str 2 @ '' of '' @ nat_str 13 @ '')'') = ''Study heaps''"
  by (rule session_title_roundtrip) code_simp

end
