(* ===== verification/Scheduler.thy ===== *)
theory Scheduler
  imports Planning "HOL-Library.Multiset"
begin

text \<open>
  The planning specialist of \<open>backend/agents.py\<close>, second part: placing study sessions on days.
  \<open>_next_open_day\<close> finds a day with room; the rule scheduler, the validation of the model's
  sessions, the top-up and the backfill all place their sessions through it. The daily load is a
  function from dates to counts (a dictionary read with default 0). Dates past the year 9999, where
  Python raises \<open>OverflowError\<close>, are outside the theorems.
\<close>

section \<open>The next open day\<close>

type_synonym load = "date \<Rightarrow> int"

function first_open :: "load \<Rightarrow> int \<Rightarrow> date \<Rightarrow> date \<Rightarrow> date option" where
  \<comment> \<open>\<open>while day <= limit: if load.get(day, 0) < capacity: return day; day += 1\<close>\<close>
  "first_open load capacity day limit =
     (if day \<le> limit then
        (if load day < capacity then Some day else first_open load capacity (add_days day 1) limit)
      else None)"
  by pat_completeness auto
termination
  by (relation "measure (\<lambda>(load, capacity, day, limit). nat (ordinal limit + 1 - ordinal day))")
    (auto simp: date_simps)

declare first_open.simps [simp del]

definition from_start :: "date option \<Rightarrow> date \<Rightarrow> date option" where
  \<comment> \<open>\<open>d if d and d >= start else None\<close>\<close>
  "from_start d start = (case d of Some x \<Rightarrow> if start \<le> x then Some x else None | None \<Rightarrow> None)"

definition next_open_day :: "load \<Rightarrow> date \<Rightarrow> date option \<Rightarrow> date option \<Rightarrow> int \<Rightarrow> date" where
  "next_open_day load start deadline end_date capacity =
     (let ceiling = from_start end_date start;
          limit = (case (from_start deadline start, ceiling) of
                     (Some l, Some c) \<Rightarrow> Some (min l c) | (l, _) \<Rightarrow> l);
          hard_stop = (case ceiling of Some c \<Rightarrow> c | None \<Rightarrow> add_days start 365);
          overflow_stop = add_days hard_stop 365
      in case opt_bind limit (first_open load capacity start) of
           Some day \<Rightarrow> day
         | None \<Rightarrow> (case first_open load capacity start hard_stop of
             Some day \<Rightarrow> day
           | None \<Rightarrow> (case first_open load capacity (add_days hard_stop 1) overflow_stop of
               Some day \<Rightarrow> day
             | None \<Rightarrow> add_days overflow_stop 1)))"

definition take_day :: "load \<Rightarrow> date \<Rightarrow> load" where
  "take_day load day = load(day := load day + 1)"

section \<open>Sessions\<close>

record session =
  s_candidate :: string
  s_day :: string
  s_session :: int
  s_of :: int
  s_focus :: string

definition by_id :: "candidate list \<Rightarrow> (string, candidate) dict" where
  "by_id candidates = foldl (\<lambda>d c. dict_set (c_id c) c d) [] candidates"

definition priority_or_0 :: "candidate \<Rightarrow> rat" where
  "priority_or_0 c = (case c_priority c of Some p \<Rightarrow> p | None \<Rightarrow> 0)"

section \<open>The rule scheduler\<close>

definition rule_key :: "date option \<Rightarrow> candidate \<Rightarrow> rat \<times> date \<times> string" where
  "rule_key end_date c =
     (- priority_or_0 c,
      (case c_deadline c of Some d \<Rightarrow> d | None \<Rightarrow> (case end_date of Some e \<Rightarrow> e | None \<Rightarrow> date_max)),
      casefold (c_title c))"

definition rule_span :: "date \<Rightarrow> date option \<Rightarrow> date option \<Rightarrow> int" where
  "rule_span start deadline end_date =
     (let window_end = (case from_start deadline start of Some d \<Rightarrow> Some d | None \<Rightarrow> end_date)
      in case from_start window_end start of Some w \<Rightarrow> max 0 (days_between start w) | None \<Rightarrow> 0)"

definition rule_target :: "date \<Rightarrow> int \<Rightarrow> int \<Rightarrow> int \<Rightarrow> date" where
  "rule_target start width parts index =
     (if 1 < parts then add_days start (round_half_even (fdiv_int (index * width) parts)) else start)"

definition rule_session :: "date \<Rightarrow> date option \<Rightarrow> int \<Rightarrow> candidate \<Rightarrow> load \<times> session list \<Rightarrow> nat \<Rightarrow> load \<times> session list" where
  "rule_session start end_date capacity c acc index =
     (case acc of (load, sessions) \<Rightarrow>
       (let total = max 1 (c_effort c);
            target = rule_target start (rule_span start (c_deadline c) end_date) total (int index);
            day = next_open_day load target (c_deadline c) end_date capacity
        in (take_day load day,
            sessions @ [\<lparr>s_candidate = c_id c, s_day = iso_of_date day, s_session = int index + 1, s_of = total, s_focus = []\<rparr>])))"

definition rule_candidate :: "date \<Rightarrow> date option \<Rightarrow> int \<Rightarrow> load \<times> session list \<Rightarrow> candidate \<Rightarrow> load \<times> session list" where
  "rule_candidate start end_date capacity acc c =
     foldl (rule_session start end_date capacity c) acc [0..<nat (max 1 (c_effort c))]"

definition rule_schedule :: "candidate list \<Rightarrow> date \<Rightarrow> date option \<Rightarrow> int \<Rightarrow> session list" where
  "rule_schedule candidates start end_date capacity =
     snd (foldl (rule_candidate start end_date capacity) (\<lambda>_. 0, []) (sort_key (rule_key end_date) candidates))"

section \<open>Checking the model's sessions\<close>

definition depth_step :: "(string, candidate) dict \<Rightarrow> (string, int \<times> int) dict \<Rightarrow> session \<Rightarrow> (string, int \<times> int) dict" where
  \<comment> \<open>how many sessions are placed for a candidate and the largest \<open>of\<close> stated\<close>
  "depth_step ids d s =
     (if map_of ids (s_candidate s) = None then d
      else case dict_get d (s_candidate s) (0, 0) of (placed, stated) \<Rightarrow>
             dict_set (s_candidate s) (placed + 1, max stated (s_of s)) d)"

definition declared_depth :: "session list \<Rightarrow> (string, candidate) dict \<Rightarrow> (string, int) dict" where
  "declared_depth sessions ids =
     map (\<lambda>(cid, placed, stated). (cid, max 1 (min (max stated placed) (MAX_SESSIONS_PER_ITEM + 2))))
       (foldl (depth_step ids) [] sessions)"

record check_state =
  k_load :: load
  k_seen :: "(string \<times> int) list"
  k_counts :: "(string, int) dict"
  k_out :: "session list"

definition outside :: "date \<Rightarrow> date \<Rightarrow> date option \<Rightarrow> bool" where
  "outside day start end_date \<longleftrightarrow> day < start \<or> (case end_date of Some e \<Rightarrow> e < day | None \<Rightarrow> False)"

definition settle_day :: "load \<Rightarrow> date \<Rightarrow> date \<Rightarrow> date option \<Rightarrow> date option \<Rightarrow> int \<Rightarrow> date" where
  \<comment> \<open>the day kept for a session asked for on \<open>day\<close>\<close>
  "settle_day load day start deadline end_date capacity =
     (let day = (if outside day start end_date then next_open_day load start deadline end_date capacity else day)
      in if capacity \<le> load day then next_open_day load day deadline end_date capacity else day)"

definition validate_step ::
  "(string, candidate) dict \<Rightarrow> (string, int) dict \<Rightarrow> date \<Rightarrow> date option \<Rightarrow> int \<Rightarrow> check_state \<Rightarrow> session \<Rightarrow> check_state"
where
  "validate_step ids declared start end_date capacity st s =
     (case map_of ids (s_candidate s) of
        None \<Rightarrow> st
      | Some c \<Rightarrow>
          (case parse_date (VStr (s_day s)) of
             None \<Rightarrow> st
           | Some asked \<Rightarrow>
               (let index = (if s_session s = 0 then 1 else s_session s);
                    key = (s_candidate s, index);
                    depth = dict_get declared (s_candidate s) 0
                in if key \<in> set (k_seen st) \<or> depth \<le> dict_get (k_counts st) (s_candidate s) 0 then st
                   else
                     (let day = settle_day (k_load st) asked start (c_deadline c) end_date capacity
                      in \<lparr>k_load = take_day (k_load st) day,
                          k_seen = key # k_seen st,
                          k_counts = dict_set (s_candidate s) (dict_get (k_counts st) (s_candidate s) 0 + 1) (k_counts st),
                          k_out = k_out st @ [\<lparr>s_candidate = s_candidate s, s_day = iso_of_date day, s_session = index,
                                              s_of = depth, s_focus = strip (s_focus s)\<rparr>]\<rparr>))))"

definition validate_sessions ::
  "session list \<Rightarrow> candidate list \<Rightarrow> date \<Rightarrow> date option \<Rightarrow> int \<Rightarrow> session list"
where
  "validate_sessions sessions candidates start end_date capacity =
     k_out (foldl (validate_step (by_id candidates) (declared_depth sessions (by_id candidates)) start end_date capacity)
       \<lparr>k_load = (\<lambda>_. 0), k_seen = [], k_counts = [], k_out = []\<rparr>
       (sort_key (\<lambda>s. (s_day s, s_candidate s)) sessions))"

section \<open>Topping up and filling back\<close>

definition load_of :: "session list \<Rightarrow> load" where
  \<comment> \<open>the load of sessions already placed, read back from their days\<close>
  "load_of sessions =
     foldl (\<lambda>load s. case parse_date (VStr (s_day s)) of Some day \<Rightarrow> take_day load day | None \<Rightarrow> load)
       (\<lambda>_. 0) sessions"

definition session_counts :: "session list \<Rightarrow> (string, int) dict" where
  "session_counts sessions =
     foldl (\<lambda>d s. dict_set (s_candidate s) (dict_get d (s_candidate s) 0 + 1) d) [] sessions"

definition latest_day :: "date \<Rightarrow> session list \<Rightarrow> string \<Rightarrow> date" where
  "latest_day start sessions cid =
     (case map (\<lambda>s. case parse_date (VStr (s_day s)) of Some d \<Rightarrow> d | None \<Rightarrow> start)
             (filter (\<lambda>s. s_candidate s = cid) sessions) of
        [] \<Rightarrow> start | d # ds \<Rightarrow> foldl max d ds)"

definition preferred_day :: "date \<Rightarrow> date option \<Rightarrow> session list \<Rightarrow> string \<Rightarrow> date" where
  "preferred_day start end_date sessions cid =
     (let preferred = max (add_days (latest_day start sessions cid) 1) start
      in case end_date of Some e \<Rightarrow> if e < preferred then start else preferred | None \<Rightarrow> preferred)"

fun top_up_loop ::
  "nat \<Rightarrow> int \<Rightarrow> candidate \<Rightarrow> date \<Rightarrow> date option \<Rightarrow> int \<Rightarrow> load \<times> session list \<Rightarrow> load \<times> session list"
where
  "top_up_loop 0 wanted c start end_date capacity acc = acc"
| "top_up_loop (Suc n) wanted c start end_date capacity (load, result) =
     (let day = next_open_day load (preferred_day start end_date result (c_id c)) (c_deadline c) end_date capacity
      in top_up_loop n wanted c start end_date capacity
           (take_day load day,
            result @ [\<lparr>s_candidate = c_id c, s_day = iso_of_date day, s_session = 0, s_of = wanted, s_focus = []\<rparr>]))"

definition top_up_step ::
  "(string, candidate) dict \<Rightarrow> (string, int) dict \<Rightarrow> date \<Rightarrow> date option \<Rightarrow> int \<Rightarrow>
     load \<times> session list \<Rightarrow> string \<times> int \<Rightarrow> load \<times> session list"
where
  "top_up_step ids declared start end_date capacity acc entry =
     (case map_of ids (fst entry) of
        None \<Rightarrow> acc
      | Some c \<Rightarrow>
          (let wanted = dict_get declared (fst entry) 0
           in top_up_loop (nat (max 0 (wanted - snd entry))) wanted c start end_date capacity acc))"

definition top_up ::
  "session list \<Rightarrow> candidate list \<Rightarrow> date \<Rightarrow> date option \<Rightarrow> int \<Rightarrow> session list \<times> nat"
where
  "top_up sessions candidates start end_date capacity =
     (let ids = by_id candidates;
          result = snd (foldl (top_up_step ids (declared_depth sessions ids) start end_date capacity)
            (load_of sessions, sessions) (sort (session_counts sessions)))
      in (result, length result - length sessions))"

definition backfill_key :: "candidate \<Rightarrow> rat \<times> string" where
  "backfill_key c = (- priority_or_0 c, casefold (c_title c))"

definition backfill_session :: "date \<Rightarrow> date option \<Rightarrow> int \<Rightarrow> candidate \<Rightarrow> load \<times> session list \<Rightarrow> session \<Rightarrow> load \<times> session list" where
  "backfill_session start end_date capacity c acc s =
     (case acc of (load, result) \<Rightarrow>
       (let from = (case parse_date (VStr (s_day s)) of Some d \<Rightarrow> d | None \<Rightarrow> start);
            day = next_open_day load from (c_deadline c) end_date capacity
        in (take_day load day, result @ [s\<lparr>s_day := iso_of_date day\<rparr>])))"

definition backfill_candidate :: "date \<Rightarrow> date option \<Rightarrow> int \<Rightarrow> load \<times> session list \<Rightarrow> candidate \<Rightarrow> load \<times> session list" where
  "backfill_candidate start end_date capacity acc c =
     foldl (backfill_session start end_date capacity c) acc (rule_schedule [c] start end_date capacity)"

definition missing_candidates :: "session list \<Rightarrow> candidate list \<Rightarrow> candidate list" where
  "missing_candidates sessions candidates =
     filter (\<lambda>c. c_id c \<notin> set (map s_candidate sessions)) candidates"

definition backfill ::
  "session list \<Rightarrow> candidate list \<Rightarrow> date \<Rightarrow> date option \<Rightarrow> int \<Rightarrow> session list \<times> nat"
where
  "backfill sessions candidates start end_date capacity =
     (let missing = missing_candidates sessions candidates
      in (snd (foldl (backfill_candidate start end_date capacity) (load_of sessions, sessions)
           (sort_key backfill_key missing)),
          length missing))"

section \<open>Numbering\<close>

fun number_all :: "(string, int) dict \<Rightarrow> (nat \<times> session) list \<Rightarrow> (nat, int) dict" where
  \<comment> \<open>the second loop: the position of each session among its candidate's, by list index\<close>
  "number_all position [] = []"
| "number_all position ((i, s) # rest) =
     (let k = dict_get position (s_candidate s) 0 + 1
      in (i, k) # number_all (dict_set (s_candidate s) k position) rest)"

definition day_order :: "nat \<times> session \<Rightarrow> string \<times> string" where
  "day_order entry = (s_day (snd entry), s_candidate (snd entry))"

definition renumber :: "session list \<Rightarrow> session list" where
  \<comment> \<open>the sessions are updated in place, so their list keeps its order\<close>
  "renumber sessions =
     (let totals = session_counts sessions;
          numbers = number_all [] (sort_key day_order (enumerate_from 0 sessions))
      in map (\<lambda>(i, s). s\<lparr>s_session := dict_get numbers i 0, s_of := dict_get totals (s_candidate s) 0\<rparr>)
           (enumerate_from 0 sessions))"

section \<open>Load and scope of a design\<close>

record plan_design =
  d_sessions :: "session list"
  d_excluded :: "(string \<times> string) list"   \<comment> \<open>candidate id and reason\<close>
  d_horizon :: string
  d_sessions_per_day :: int
  d_rationale :: string
  d_pace_note :: string

definition design_capacity :: "int \<Rightarrow> plan_design \<Rightarrow> candidate list \<Rightarrow> date \<Rightarrow> date option \<Rightarrow> int" where
  "design_capacity capacity design candidates start window_end =
     (let capacity = (if 0 < d_sessions_per_day design then d_sessions_per_day design else capacity);
          capacity = (case (parse_date (VStr (d_horizon design)), window_end) of
              (Some h, Some w) \<Rightarrow>
                if h \<le> w then
                  (let days = max 1 (days_between start w + 1);
                       total = sum_list (map (\<lambda>c. max 1 (c_effort c)) candidates)
                   in max capacity (- ((- total) div days)))
                else capacity
            | _ \<Rightarrow> capacity)
      in max 1 (min capacity MAX_SESSIONS_PER_DAY))"

definition dropped_candidates :: "(string, candidate) dict \<Rightarrow> (string \<times> string) list \<Rightarrow> (string, string) dict" where
  "dropped_candidates ids excluded =
     foldl (\<lambda>d (cid, reason). if map_of ids cid = None then d else dict_set cid reason d) [] excluded"

definition apply_scope :: "candidate list \<Rightarrow> (string \<times> string) list \<Rightarrow> candidate list \<times> pydict list" where
  "apply_scope candidates excluded =
     (let dropped = dropped_candidates (by_id candidates) excluded;
          in_scope = filter (\<lambda>c. map_of dropped (c_id c) = None) candidates
      in if in_scope = [] then (candidates, [])
         else (in_scope,
               map (\<lambda>(cid, reason). case map_of (by_id candidates) cid of
                   Some c \<Rightarrow> [(''title'', VStr (c_title c)), (''course'', VStr (c_course c)), (''reason'', VStr reason)]
                 | None \<Rightarrow> []) dropped))"


section \<open>Sessions of a plan\<close>

definition schedule_sessions ::
  "session list \<Rightarrow> candidate list \<Rightarrow> date \<Rightarrow> date option \<Rightarrow> int \<Rightarrow> bool \<times> session list \<times> nat \<times> nat"
where
  \<comment> \<open>whether the model's design was used, the sessions, the backfilled candidates, the topped-up sessions\<close>
  "schedule_sessions asked in_scope start window_end capacity =
     (let validated = validate_sessions asked in_scope start window_end capacity
      in if validated \<noteq> [] then
           (case top_up validated in_scope start window_end capacity of (topped, topped_up) \<Rightarrow>
             (case backfill topped in_scope start window_end capacity of (sessions, backfilled) \<Rightarrow>
               (True, renumber sessions, backfilled, topped_up)))
         else (False, renumber (rule_schedule in_scope start window_end capacity), 0, 0))"

section \<open>The open day that is found\<close>

lemma first_open_Some:
  "first_open load capacity day limit = Some d \<Longrightarrow>
     day \<le> d \<and> d \<le> limit \<and> load d < capacity \<and> (\<forall>x. day \<le> x \<and> x < d \<longrightarrow> capacity \<le> load x)"
proof (induction load capacity day limit rule: first_open.induct)
  case (1 load capacity day limit)
  show ?case
  proof (cases "load day < capacity")
    case True
    then show ?thesis using "1.prems" by (subst (asm) first_open.simps) (auto split: if_splits)
  next
    case False
    then have le: "day \<le> limit" and "first_open load capacity (add_days day 1) limit = Some d"
      using "1.prems" by (subst (asm) first_open.simps, simp split: if_splits)+
    note h = "1.IH" [OF le False this(2)]
    have "capacity \<le> load x" if "day \<le> x" "x < d" for x
    proof (cases "x = day")
      case False
      then have "add_days day 1 \<le> x" using that by (cases x, cases day) (auto simp: date_simps add_days_def)
      then show ?thesis using h that by blast
    qed (use \<open>\<not> load day < capacity\<close> in simp)
    then show ?thesis using h by (auto simp: date_simps)
  qed
qed

lemma first_open_None:
  "first_open load capacity day limit = None \<Longrightarrow> day \<le> x \<Longrightarrow> x \<le> limit \<Longrightarrow> capacity \<le> load x"
proof (induction load capacity day limit rule: first_open.induct)
  case (1 load capacity day limit)
  have le: "day \<le> limit" using "1.prems" by (auto simp: date_simps)
  have full: "\<not> load day < capacity" and next_None: "first_open load capacity (add_days day 1) limit = None"
    using "1.prems"(1) le by (subst (asm) first_open.simps, simp split: if_splits)+
  show ?case
  proof (cases "x = day")
    case False
    then have "add_days day 1 \<le> x" using "1.prems"(2) by (cases x, cases day) (auto simp: date_simps add_days_def)
    then show ?thesis using "1.IH" [OF le full next_None] "1.prems"(3) by blast
  qed (use full in simp)
qed

lemma from_start_Some: "from_start d start = Some x \<longleftrightarrow> d = Some x \<and> start \<le> x"
  by (auto simp: from_start_def split: option.splits)

lemma next_open_day_cases:
  fixes load start deadline end_date capacity
  defines "d \<equiv> next_open_day load start deadline end_date capacity"
  defines "hard_stop \<equiv> (case from_start end_date start of Some c \<Rightarrow> c | None \<Rightarrow> add_days start 365)"
  shows "start \<le> d"
    and "load d < capacity \<or> (\<forall>x. start \<le> x \<and> x \<le> add_days hard_stop 365 \<longrightarrow> capacity \<le> load x)"
    and "ordinal d \<le> ordinal hard_stop + 366 \<or> (\<exists>l. deadline = Some l \<and> end_date \<noteq> Some hard_stop \<and> d \<le> l)"
proof -
  let ?limit = "case (from_start deadline start, from_start end_date start) of
                     (Some l, Some c) \<Rightarrow> Some (min l c) | (l, _) \<Rightarrow> l"
  have hs: "start \<le> hard_stop"
    by (auto simp: hard_stop_def from_start_def date_simps split: option.splits)
  have d: "d = (case opt_bind ?limit (first_open load capacity start) of
           Some day \<Rightarrow> day
         | None \<Rightarrow> (case first_open load capacity start hard_stop of
             Some day \<Rightarrow> day
           | None \<Rightarrow> (case first_open load capacity (add_days hard_stop 1) (add_days hard_stop 365) of
               Some day \<Rightarrow> day
             | None \<Rightarrow> add_days (add_days hard_stop 365) 1)))"
    by (simp only: d_def next_open_day_def hard_stop_def Let_def)
  consider (limit) l where "?limit = Some l" "first_open load capacity start l = Some d"
    | (stop) "first_open load capacity start hard_stop = Some d"
    | (over) "first_open load capacity start hard_stop = None"
        "first_open load capacity (add_days hard_stop 1) (add_days hard_stop 365) = Some d"
    | (full) "first_open load capacity start hard_stop = None"
        "first_open load capacity (add_days hard_stop 1) (add_days hard_stop 365) = None"
        "d = add_days (add_days hard_stop 365) 1"
    using d by (cases ?limit; cases "opt_bind ?limit (first_open load capacity start)";
        cases "first_open load capacity start hard_stop";
        cases "first_open load capacity (add_days hard_stop 1) (add_days hard_stop 365)") auto
  note found = this
  show "start \<le> d"
    using found hs by cases (auto dest!: first_open_Some simp: date_simps)
  show "load d < capacity \<or> (\<forall>x. start \<le> x \<and> x \<le> add_days hard_stop 365 \<longrightarrow> capacity \<le> load x)"
    using found
  proof cases
    case full
    have "capacity \<le> load x" if "start \<le> x" "x \<le> add_days hard_stop 365" for x
    proof (cases "x \<le> hard_stop")
      case True
      then show ?thesis using first_open_None [OF full(1)] that by blast
    next
      case False
      then have "add_days hard_stop 1 \<le> x" by (auto simp: date_simps)
      then show ?thesis using first_open_None [OF full(2)] that by blast
    qed
    then show ?thesis by blast
  qed (auto dest!: first_open_Some)
  show "ordinal d \<le> ordinal hard_stop + 366 \<or> (\<exists>l. deadline = Some l \<and> end_date \<noteq> Some hard_stop \<and> d \<le> l)"
    using found
  proof cases
    case limit
    have "d \<le> l" using first_open_Some [OF limit(2)] by blast
    then show ?thesis
      using limit(1) by (cases "from_start deadline start"; cases "from_start end_date start")
        (auto simp: hard_stop_def from_start_Some from_start_def date_simps min_def split: if_splits option.splits)
  qed (auto dest!: first_open_Some simp: date_simps)
qed


text \<open>A free day before the deadline is preferred, and the earliest such day is taken.\<close>

lemma next_open_day_first:
  assumes "from_start deadline start = Some l"
    and lim: "limit = (case from_start end_date start of Some c \<Rightarrow> min l c | None \<Rightarrow> l)"
    and x: "start \<le> x" "x \<le> limit" "load x < capacity"
  shows "next_open_day load start deadline end_date capacity \<le> x
    \<and> load (next_open_day load start deadline end_date capacity) < capacity
    \<and> (\<forall>y. start \<le> y \<and> y < next_open_day load start deadline end_date capacity \<longrightarrow> capacity \<le> load y)"
proof -
  obtain d where d: "first_open load capacity start limit = Some d"
    using first_open_None [of load capacity start limit x] x by (cases "first_open load capacity start limit") auto
  then have "next_open_day load start deadline end_date capacity = d"
    using assms(1) lim by (cases "from_start end_date start") (simp_all add: next_open_day_def Let_def)
  moreover have "d \<le> x"
  proof (rule ccontr)
    assume "\<not> d \<le> x"
    then show False using first_open_Some [OF d] x by (meson not_le)
  qed
  ultimately show ?thesis using first_open_Some [OF d] by blast
qed

section \<open>Finding a day, as an interface\<close>

text \<open>
  The schedulers rely on three laws of the day they are given: it is not before the day they start
  from, it has room whenever one of the next 366 days has, and it stays within two years of the
  dates it was given.
\<close>

lemma sum_count_list_le: "finite D \<Longrightarrow> (\<Sum>d\<in>D. count_list ds d) \<le> length ds"
proof (induction ds)
  case (Cons x ds)
  have "(\<Sum>d\<in>D. count_list (x # ds) d) = (\<Sum>d\<in>D. (if x = d then 1 else 0) + count_list ds d)"
    by (rule sum.cong) auto
  also have "\<dots> = (\<Sum>d\<in>D. if x = d then 1 else 0) + (\<Sum>d\<in>D. count_list ds d)"
    by (rule sum.distrib)
  also have "\<dots> \<le> 1 + length ds"
  proof (rule add_mono)
    show "(\<Sum>d\<in>D. if x = d then 1 else 0) \<le> (1::nat)"
      by (subst sum.delta' [OF Cons.prems]) simp
    show "(\<Sum>d\<in>D. count_list ds d) \<le> length ds" by (rule Cons.IH [OF Cons.prems])
  qed
  finally show ?case by simp
qed simp

locale day_finder =
  fixes find_day :: "load \<Rightarrow> date \<Rightarrow> date option \<Rightarrow> date option \<Rightarrow> int \<Rightarrow> date"
  assumes find_ge: "start \<le> find_day load start deadline end_date capacity"
    and find_free: "start \<le> d \<Longrightarrow> d \<le> add_days start 365 \<Longrightarrow> load d < capacity \<Longrightarrow>
          load (find_day load start deadline end_date capacity) < capacity"
    and find_near: "ordinal start \<le> B \<Longrightarrow> (\<And>x. end_date = Some x \<Longrightarrow> ordinal x \<le> B) \<Longrightarrow>
          (\<And>x. deadline = Some x \<Longrightarrow> ordinal x \<le> B) \<Longrightarrow>
          ordinal (find_day load start deadline end_date capacity) \<le> B + 731"
begin

text \<open>While fewer than 366 days' worth of sessions are placed, there is always room.\<close>

lemma find_room:
  assumes load: "\<And>d. load d = int (count_list ds d)" and few: "int (length ds) < 366 * capacity"
  shows "load (find_day load start deadline end_date capacity) < capacity"
proof (rule ccontr)
  assume full: "\<not> load (find_day load start deadline end_date capacity) < capacity"
  let ?D = "(\<lambda>k. add_days start (int k)) ` {..365}"
  have cap: "capacity \<le> int (count_list ds d)" if "d \<in> ?D" for d
  proof -
    from that obtain k where "k \<in> {..(365::nat)}" "d = add_days start (int k)" by (rule imageE)
    then have "start \<le> d" "d \<le> add_days start 365" by (auto simp: date_simps)
    then have "\<not> load d < capacity" using find_free full by blast
    then show ?thesis using load [of d] by simp
  qed
  have card: "card ?D = 366"
    by (subst card_image) (auto simp: inj_on_def add_days_def)
  have "366 * capacity = (\<Sum>d\<in>?D. capacity)" using card by simp
  also have "\<dots> \<le> (\<Sum>d\<in>?D. int (count_list ds d))" by (rule sum_mono) (rule cap)
  also have "\<dots> = int (\<Sum>d\<in>?D. count_list ds d)" by simp
  also have "\<dots> \<le> int (length ds)" using sum_count_list_le [of ?D ds] by (simp only: of_nat_le_iff) simp
  finally show False using few by simp
qed

end

interpretation fd: day_finder next_open_day
proof unfold_locales
  fix load :: load and start deadline end_date capacity
  show "start \<le> next_open_day load start deadline end_date capacity"
    by (rule next_open_day_cases(1))
next
  fix start d :: date and load :: load and capacity deadline end_date
  assume d: "start \<le> d" "d \<le> add_days start 365" "load d < capacity"
  let ?hs = "case from_start end_date start of Some c \<Rightarrow> c | None \<Rightarrow> add_days start 365"
  have "start \<le> ?hs" by (auto simp: from_start_Some date_simps split: option.splits)
  then have "d \<le> add_days ?hs 365" using d(2) by (auto simp: date_simps)
  then show "load (next_open_day load start deadline end_date capacity) < capacity"
    using next_open_day_cases(2) [of load start deadline end_date capacity] d by (meson not_le)
next
  fix start :: date and B end_date deadline and load :: load and capacity
  assume B: "ordinal start \<le> B" "\<And>x. end_date = Some x \<Longrightarrow> ordinal x \<le> B" "\<And>x. deadline = Some x \<Longrightarrow> ordinal x \<le> B"
  have "ordinal (case from_start end_date start of Some c \<Rightarrow> c | None \<Rightarrow> add_days start 365) \<le> B + 365"
    using B(1,2) by (force simp: from_start_Some split: option.splits)
  then show "ordinal (next_open_day load start deadline end_date capacity) \<le> B + 731"
    using next_open_day_cases(3) [of load start deadline end_date capacity] B(3) by (force simp: date_simps)
qed

section \<open>Sessions placed through the finder\<close>

definition placed :: "int \<Rightarrow> date \<Rightarrow> int \<Rightarrow> load \<Rightarrow> session list \<Rightarrow> bool" where
  \<comment> \<open>the load counts the days of the sessions, all between \<open>lo\<close> and \<open>hi\<close>, and keeps the daily limit
     as long as there are no more sessions than 366 full days hold\<close>
  "placed capacity lo hi load sessions \<longleftrightarrow>
     (\<exists>ds. map s_day sessions = map iso_of_date ds \<and> (\<forall>d. load d = int (count_list ds d))
        \<and> (\<forall>d\<in>set ds. lo \<le> d \<and> ordinal d \<le> hi)
        \<and> (int (length ds) \<le> 366 * capacity \<longrightarrow> (\<forall>d. load d \<le> capacity)))"

lemma placed_empty [simp]: "1 \<le> capacity \<Longrightarrow> placed capacity lo hi (\<lambda>_. 0) []"
  by (simp add: placed_def)

lemma placed_weaken: "placed capacity lo hi load ss \<Longrightarrow> hi \<le> hi' \<Longrightarrow> placed capacity lo hi' load ss"
  by (force simp: placed_def)

lemma placed_free:
  assumes "placed capacity lo hi load ss" and "int (length ss) < 366 * capacity"
  shows "load (next_open_day load start deadline end_date capacity) < capacity"
proof -
  obtain ds where "map s_day ss = map iso_of_date ds" "\<forall>d. load d = int (count_list ds d)"
    using assms(1) by (auto simp: placed_def)
  then show ?thesis using fd.find_room [of load ds] assms(2) by (metis length_map)
qed

lemma placed_add:
  assumes p: "placed capacity lo hi load ss" and c: "1 \<le> capacity"
    and day: "lo \<le> day" "ordinal day \<le> hi"
    and free: "int (length ss) < 366 * capacity \<Longrightarrow> load day < capacity"
    and s: "s_day s = iso_of_date day"
  shows "placed capacity lo hi (take_day load day) (ss @ [s])"
proof -
  obtain ds where ds: "map s_day ss = map iso_of_date ds" "\<forall>d. load d = int (count_list ds d)"
    "\<forall>d\<in>set ds. lo \<le> d \<and> ordinal d \<le> hi"
    "int (length ds) \<le> 366 * capacity \<longrightarrow> (\<forall>d. load d \<le> capacity)"
    using p by (auto simp: placed_def)
  have len: "length ss = length ds" using ds(1) by (metis length_map)
  have "take_day load day d = int (count_list (ds @ [day]) d)" for d
    using ds(2) by (simp add: take_day_def)
  moreover have "take_day load day d \<le> capacity" if "int (length (ds @ [day])) \<le> 366 * capacity" for d
    using that ds(4) free len by (auto simp: take_day_def)
  moreover have "map s_day (ss @ [s]) = map iso_of_date (ds @ [day])" using ds(1) s by simp
  moreover have "\<forall>d\<in>set (ds @ [day]). lo \<le> d \<and> ordinal d \<le> hi" using ds(3) day by auto
  ultimately show ?thesis unfolding placed_def by blast
qed

text \<open>Placing on the next open day.\<close>

lemma placed_next:
  assumes p: "placed capacity lo (B + 731) load ss" and c: "1 \<le> capacity"
    and base: "lo \<le> start" "ordinal start \<le> B" "\<And>x. end_date = Some x \<Longrightarrow> ordinal x \<le> B"
    and dl: "\<And>x. deadline = Some x \<Longrightarrow> ordinal x \<le> B"
    and s: "s_day s = iso_of_date (next_open_day load start deadline end_date capacity)"
  shows "placed capacity lo (B + 731) (take_day load (next_open_day load start deadline end_date capacity)) (ss @ [s])"
proof (rule placed_add [OF p c _ _ _ s])
  show "lo \<le> next_open_day load start deadline end_date capacity"
    using fd.find_ge base(1) order_trans by blast
  show "ordinal (next_open_day load start deadline end_date capacity) \<le> B + 731"
    by (rule fd.find_near) (use base dl in auto)
  show "int (length ss) < 366 * capacity \<Longrightarrow> load (next_open_day load start deadline end_date capacity) < capacity"
    by (rule placed_free [OF p])
qed

text \<open>Reading the days back gives the same load.\<close>

lemma parse_date_iso: "in_calendar d \<Longrightarrow> parse_date (VStr (iso_of_date d)) = Some d"
  by (simp add: parse_date_def parse_iso_date)

lemma load_of_days:
  assumes "map s_day ss = map iso_of_date ds" and "\<forall>d\<in>set ds. in_calendar d"
  shows "load_of ss = (\<lambda>d. int (count_list ds d))"
proof -
  have "foldl (\<lambda>load s. case parse_date (VStr (s_day s)) of Some day \<Rightarrow> take_day load day | None \<Rightarrow> load) l ss
      = (\<lambda>d. l d + int (count_list ds d))" for l
    using assms
  proof (induction ss arbitrary: l ds)
    case (Cons s ss)
    then obtain x xs where ds: "ds = x # xs" "s_day s = iso_of_date x" "map s_day ss = map iso_of_date xs"
      by (cases ds) auto
    then have "foldl (\<lambda>load s. case parse_date (VStr (s_day s)) of Some day \<Rightarrow> take_day load day | None \<Rightarrow> load) (take_day l x) ss
        = (\<lambda>d. take_day l x d + int (count_list xs d))"
      using Cons by simp
    then show ?case using ds Cons.prems(2) by (auto simp: parse_date_iso take_day_def)
  qed simp
  then show ?thesis by (simp add: load_of_def)
qed

lemma placed_load_of:
  assumes "placed capacity lo hi load ss" and "1 \<le> ordinal lo" and "hi \<le> max_ordinal"
  shows "load_of ss = load"
proof -
  obtain ds where ds: "map s_day ss = map iso_of_date ds" "\<forall>d. load d = int (count_list ds d)"
    "\<forall>d\<in>set ds. lo \<le> d \<and> ordinal d \<le> hi"
    using assms(1) by (auto simp: placed_def)
  then have "\<forall>d\<in>set ds. in_calendar d" using assms(2,3) by (force simp: in_calendar_def date_simps)
  from load_of_days [OF ds(1) this] show ?thesis using ds(2) by auto
qed

text \<open>No day holds more sessions than the capacity.\<close>

lemma placed_daily_limit:
  assumes "placed capacity lo hi load ss" and "1 \<le> ordinal lo" and "hi \<le> max_ordinal"
    and "0 \<le> capacity" and "int (length ss) \<le> 366 * capacity"
  shows "int (count_list (map s_day ss) day) \<le> capacity"
proof -
  obtain ds where ds: "map s_day ss = map iso_of_date ds" "\<forall>d. load d = int (count_list ds d)"
    "\<forall>d\<in>set ds. lo \<le> d \<and> ordinal d \<le> hi" "int (length ds) \<le> 366 * capacity \<longrightarrow> (\<forall>d. load d \<le> capacity)"
    using assms(1) by (auto simp: placed_def)
  have cal: "in_calendar d" if "d \<in> set ds" for d
    using ds(3) that assms(2,3) by (force simp: in_calendar_def date_simps)
  show ?thesis
  proof (cases "day \<in> set (map iso_of_date ds)")
    case False
    then show ?thesis using ds(1) assms(4) by (simp add: count_list_0_iff)
  next
    case True
    then obtain d where d: "d \<in> set ds" "day = iso_of_date d" by auto
    have "filter (\<lambda>x. iso_of_date x = day) ds = filter (\<lambda>x. x = d) ds"
      by (rule filter_cong) (use d cal iso.show_inj in auto)
    then have "count_list (map iso_of_date ds) day = count_list ds d"
      using count_list_map_filter [of iso_of_date day ds] count_list_map_filter [of "\<lambda>x. x" d ds] by simp
    moreover have "length ss = length ds" using ds(1) by (metis length_map)
    ultimately show ?thesis using ds assms(5) by (metis)
  qed
qed

lemma placed_from: "placed capacity lo hi load ss \<Longrightarrow> s \<in> set ss \<Longrightarrow> \<exists>d. s_day s = iso_of_date d \<and> lo \<le> d \<and> ordinal d \<le> hi"
  unfolding placed_def by (metis (no_types, lifting) imageE image_eqI image_set)


section \<open>Every scheduler keeps the load\<close>

definition dates_within :: "int \<Rightarrow> date \<Rightarrow> date \<Rightarrow> candidate list \<Rightarrow> bool" where
  "dates_within B start e candidates \<longleftrightarrow>
     1 \<le> ordinal start \<and> ordinal start \<le> B \<and> ordinal e \<le> B \<and> B + 1462 \<le> max_ordinal
   \<and> list_all (\<lambda>c. case c_deadline c of Some x \<Rightarrow> ordinal x \<le> B | None \<Rightarrow> True) candidates"

lemma dates_withinD:
  assumes "dates_within B start e candidates"
  shows "1 \<le> ordinal start" "ordinal start \<le> B" "ordinal e \<le> B" "B + 1462 \<le> max_ordinal"
    and "c \<in> set candidates \<Longrightarrow> c_deadline c = Some x \<Longrightarrow> ordinal x \<le> B"
  using assms by (force simp: dates_within_def list_all_iff)+

lemma by_id_Some: "map_of (by_id candidates) k = Some c \<Longrightarrow> c \<in> set candidates \<and> c_id c = k"
proof -
  have "map_of (foldl (\<lambda>d c. dict_set (c_id c) c d) d cs) k = Some c \<Longrightarrow>
      map_of d k = Some c \<or> c \<in> set cs \<and> c_id c = k" for d cs
    by (induction cs arbitrary: d) (fastforce split: if_splits)+
  then show "map_of (by_id candidates) k = Some c \<Longrightarrow> c \<in> set candidates \<and> c_id c = k"
    by (fastforce simp: by_id_def)
qed

lemma by_id_None: "map_of (by_id candidates) k = None \<longleftrightarrow> k \<notin> c_id ` set candidates"
proof -
  have "map_of (foldl (\<lambda>d c. dict_set (c_id c) c d) d cs) k = None \<longleftrightarrow> map_of d k = None \<and> k \<notin> c_id ` set cs" for d cs
    by (induction cs arbitrary: d) auto
  from this [of "[]" candidates] show ?thesis unfolding by_id_def by simp
qed

lemma rule_span_bounds:
  assumes "dates_within B start e cs" and "c \<in> set cs"
  shows "0 \<le> rule_span start (c_deadline c) (Some e) \<and> ordinal start + rule_span start (c_deadline c) (Some e) \<le> B"
  using dates_withinD(1,2,3) [OF assms(1)] dates_withinD(5) [OF assms]
  by (cases "c_deadline c") (auto simp: rule_span_def from_start_def days_between_def date_simps Let_def split: option.splits)

lemma rule_target_bounds:
  assumes "0 \<le> width" and "width < 2 ^ 53" and "0 \<le> index" and "index < parts"
  shows "start \<le> rule_target start width parts index \<and> ordinal (rule_target start width parts index) \<le> ordinal start + width"
proof -
  have pos: "0 < (of_int parts :: rat)" using assms(3,4) by simp
  have "index * width \<le> parts * width" using assms by (intro mult_right_mono) auto
  then have "(of_int (index * width) :: rat) \<le> of_int (parts * width)" by (simp only: of_int_le_iff)
  then have "(of_int (index * width) :: rat) / of_int parts \<le> of_int width"
    using pos by (simp add: divide_le_eq mult.commute)
  then have "fdiv_int (index * width) parts \<le> of_int width"
    unfolding fdiv_int_def using assms(1,2) by (intro fl64_le_of_int) auto
  then have hi: "round_half_even (fdiv_int (index * width) parts) \<le> width"
    using round_half_even_mono [of "fdiv_int (index * width) parts" "of_int width"] by simp
  have "0 \<le> fdiv_int (index * width) parts"
    unfolding fdiv_int_def using assms by (intro fl64_nonneg) simp
  then have lo: "0 \<le> round_half_even (fdiv_int (index * width) parts)"
    using round_half_even_mono [of 0 "fdiv_int (index * width) parts"] round_half_even_of_int [of 0] by simp
  show ?thesis using lo hi assms(1) by (auto simp: rule_target_def date_simps)
qed

lemma placed_next_wide:
  assumes w: "dates_within B start e cs" and p: "placed capacity start (B + 1462) load ss" and "1 \<le> capacity"
    and "start \<le> day" and "ordinal day \<le> B + 731" and "c \<in> set cs"
    and "s_day s = iso_of_date (next_open_day load day (c_deadline c) (Some e) capacity)"
  shows "placed capacity start (B + 1462) (take_day load (next_open_day load day (c_deadline c) (Some e) capacity)) (ss @ [s])"
proof -
  have eq: "B + 731 + 731 = B + 1462" by simp
  have "placed capacity start (B + 731 + 731) (take_day load (next_open_day load day (c_deadline c) (Some e) capacity)) (ss @ [s])"
  proof (rule placed_next)
    show "placed capacity start (B + 731 + 731) load ss" unfolding eq by (rule p)
    show "ordinal x \<le> B + 731" if "Some e = Some x" for x using that dates_withinD(3) [OF w] by simp
    show "ordinal x \<le> B + 731" if "c_deadline c = Some x" for x using that dates_withinD(5) [OF w, of c] assms(6) by force
  qed (use assms in auto)
  then show ?thesis unfolding eq .
qed

lemma rule_session_placed:
  assumes w: "dates_within B start e cs" and c: "c \<in> set cs" and "1 \<le> capacity" and i: "i < nat (max 1 (c_effort c))"
    and p: "placed capacity start (B + 1462) (fst acc) (snd acc)"
  shows "placed capacity start (B + 1462) (fst (rule_session start (Some e) capacity c acc i)) (snd (rule_session start (Some e) capacity c acc i))"
proof -
  let ?w = "rule_span start (c_deadline c) (Some e)"
  let ?t = "rule_target start ?w (max 1 (c_effort c)) (int i)"
  have i': "int i < max 1 (c_effort c)" using i by simp
  have "?w < 2 ^ 53" using rule_span_bounds [OF w c] dates_withinD(1,4) [OF w] by (simp add: max_ordinal_def)
  then have "start \<le> ?t" "ordinal ?t \<le> B + 731"
    using rule_target_bounds [of ?w "int i" "max 1 (c_effort c)" start, OF _ _ _ i'] rule_span_bounds [OF w c] by auto
  then show ?thesis
    using placed_next_wide [OF w p \<open>1 \<le> capacity\<close> _ _ c] by (simp add: rule_session_def Let_def split_beta)
qed

lemma rule_candidate_placed:
  assumes "dates_within B start e cs" and "c \<in> set cs" and "1 \<le> capacity"
    and "placed capacity start (B + 1462) (fst acc) (snd acc)"
  shows "placed capacity start (B + 1462) (fst (rule_candidate start (Some e) capacity acc c)) (snd (rule_candidate start (Some e) capacity acc c))"
  unfolding rule_candidate_def
  by (rule foldl_invariant [where P = "\<lambda>a. placed capacity start (B + 1462) (fst a) (snd a)"])
    (use assms rule_session_placed in auto)

lemma rule_schedule_placed:
  assumes "dates_within B start e cs" and "1 \<le> capacity" and "set cs' \<subseteq> set cs"
  shows "\<exists>load. placed capacity start (B + 1462) load (rule_schedule cs' start (Some e) capacity)"
proof -
  have "placed capacity start (B + 1462)
      (fst (foldl (rule_candidate start (Some e) capacity) (\<lambda>_. 0, []) (sort_key (rule_key (Some e)) cs')))
      (snd (foldl (rule_candidate start (Some e) capacity) (\<lambda>_. 0, []) (sort_key (rule_key (Some e)) cs')))"
    by (rule foldl_invariant [where P = "\<lambda>a. placed capacity start (B + 1462) (fst a) (snd a)"])
      (use assms rule_candidate_placed in auto)
  then show ?thesis unfolding rule_schedule_def by blast
qed

lemma settle_day_placed:
  assumes w: "dates_within B start e cs" and p: "placed capacity start (B + 1462) load ss" and "1 \<le> capacity"
    and c: "c \<in> set cs" and s: "s_day s = iso_of_date (settle_day load day start (c_deadline c) (Some e) capacity)"
  shows "placed capacity start (B + 1462) (take_day load (settle_day load day start (c_deadline c) (Some e) capacity)) (ss @ [s])"
proof -
  let ?day = "if outside day start (Some e) then next_open_day load start (c_deadline c) (Some e) capacity else day"
  have "ordinal (next_open_day load start (c_deadline c) (Some e) capacity) \<le> B + 731"
    by (rule fd.find_near) (use dates_withinD [OF w] c in auto)
  then have d: "start \<le> ?day" "ordinal ?day \<le> B + 731"
    using fd.find_ge [of start load "c_deadline c" "Some e" capacity] dates_withinD(3) [OF w]
    by (auto simp: outside_def date_simps)
  show ?thesis
  proof (cases "capacity \<le> load ?day")
    case True
    then show ?thesis
      using placed_next_wide [OF w p \<open>1 \<le> capacity\<close> d c, of s] s by (simp add: settle_day_def Let_def)
  next
    case False
    then have "settle_day load day start (c_deadline c) (Some e) capacity = ?day" by (simp add: settle_day_def Let_def)
    then show ?thesis
      using placed_add [OF p \<open>1 \<le> capacity\<close>, of ?day s] d False s by auto
  qed
qed

lemma validate_sessions_placed:
  assumes w: "dates_within B start e cs" and "1 \<le> capacity"
  shows "\<exists>load. placed capacity start (B + 1462) load (validate_sessions asked cs start (Some e) capacity)"
proof -
  let ?f = "validate_step (by_id cs) (declared_depth asked (by_id cs)) start (Some e) capacity"
  let ?st = "foldl ?f \<lparr>k_load = (\<lambda>_. 0), k_seen = [], k_counts = [], k_out = []\<rparr> (sort_key (\<lambda>s. (s_day s, s_candidate s)) asked)"
  have "placed capacity start (B + 1462) (k_load ?st) (k_out ?st)"
  proof (rule foldl_invariant [where P = "\<lambda>st. placed capacity start (B + 1462) (k_load st) (k_out st)"])
    fix st :: check_state and s assume p: "placed capacity start (B + 1462) (k_load st) (k_out st)"
    show "placed capacity start (B + 1462) (k_load (?f st s)) (k_out (?f st s))"
    proof (cases "map_of (by_id cs) (s_candidate s)")
      case None
      then show ?thesis using p by (simp add: validate_step_def)
    next
      case (Some c)
      then have "c \<in> set cs" using by_id_Some by blast
      from settle_day_placed [OF w p assms(2) this] show ?thesis
        using p Some by (auto simp: validate_step_def Let_def split: option.splits)
    qed
  qed (use assms in simp)
  then show ?thesis unfolding validate_sessions_def by blast
qed

lemma preferred_day_bounds:
  assumes "dates_within B start e cs"
  shows "start \<le> preferred_day start (Some e) ss cid \<and> ordinal (preferred_day start (Some e) ss cid) \<le> B"
  using dates_withinD(2,3) [OF assms] by (auto simp: preferred_day_def Let_def date_simps max_def)

lemma top_up_loop_placed:
  assumes w: "dates_within B start e cs" and "1 \<le> capacity" and c: "c \<in> set cs"
    and "placed capacity start (B + 1462) (fst acc) (snd acc)"
  shows "placed capacity start (B + 1462) (fst (top_up_loop n wanted c start (Some e) capacity acc)) (snd (top_up_loop n wanted c start (Some e) capacity acc))"
  using assms(4)
proof (induction n arbitrary: acc)
  case (Suc n)
  let ?d = "preferred_day start (Some e) (snd acc) (c_id c)"
  have d: "start \<le> ?d" "ordinal ?d \<le> B + 731" using preferred_day_bounds [OF w, of "snd acc" "c_id c"] by auto
  show ?case
    using Suc.IH placed_next_wide [OF w Suc.prems assms(2) d c] by (cases acc) (simp add: Let_def)
qed simp

lemma top_up_placed:
  assumes w: "dates_within B start e cs" and "1 \<le> capacity"
    and p: "placed capacity start (B + 1462) load ss"
  shows "\<exists>load. placed capacity start (B + 1462) load (fst (top_up ss cs start (Some e) capacity))"
proof -
  let ?f = "top_up_step (by_id cs) (declared_depth ss (by_id cs)) start (Some e) capacity"
  have l: "load_of ss = load" by (rule placed_load_of [OF p]) (use dates_withinD [OF w] in auto)
  have "placed capacity start (B + 1462) (fst (foldl ?f (load, ss) (sort (session_counts ss)))) (snd (foldl ?f (load, ss) (sort (session_counts ss))))"
  proof (rule foldl_invariant [where P = "\<lambda>a. placed capacity start (B + 1462) (fst a) (snd a)"])
    fix a x assume "placed capacity start (B + 1462) (fst a) (snd a)"
    then show "placed capacity start (B + 1462) (fst (?f a x)) (snd (?f a x))"
      using top_up_loop_placed [OF w assms(2)] by_id_Some [of cs] by (auto simp: top_up_step_def Let_def split: option.splits)
  qed (use p in simp)
  then show ?thesis using l by (auto simp: top_up_def Let_def)
qed

lemma backfill_session_placed:
  assumes w: "dates_within B start e cs" and "1 \<le> capacity" and c: "c \<in> set cs"
    and day: "s_day s = iso_of_date d" "start \<le> d" "ordinal d \<le> B + 731"
    and p: "placed capacity start (B + 1462) (fst acc) (snd acc)"
  shows "placed capacity start (B + 1462) (fst (backfill_session start (Some e) capacity c acc s)) (snd (backfill_session start (Some e) capacity c acc s))"
proof -
  have "parse_date (VStr (s_day s)) = Some d"
    using day dates_withinD [OF w] by (simp add: parse_date_iso in_calendar_def date_simps)
  then show ?thesis
    using placed_next_wide [OF w p assms(2) day(2,3) c] by (simp add: backfill_session_def Let_def split_beta)
qed


definition near_days :: "date \<Rightarrow> int \<Rightarrow> session list \<Rightarrow> bool" where
  "near_days start hi ss \<longleftrightarrow> (\<forall>s\<in>set ss. \<exists>d. s_day s = iso_of_date d \<and> start \<le> d \<and> ordinal d \<le> hi)"

lemma rule_session_near:
  assumes w: "dates_within B start e cs" and c: "c \<in> set cs" and i: "i < nat (max 1 (c_effort c))"
    and p: "near_days start (B + 731) (snd acc)"
  shows "near_days start (B + 731) (snd (rule_session start (Some e) capacity c acc i))"
proof -
  let ?w = "rule_span start (c_deadline c) (Some e)"
  let ?t = "rule_target start ?w (max 1 (c_effort c)) (int i)"
  have i': "int i < max 1 (c_effort c)" using i by simp
  have "?w < 2 ^ 53" using rule_span_bounds [OF w c] dates_withinD(1,4) [OF w] by (simp add: max_ordinal_def)
  then have t: "start \<le> ?t" "ordinal ?t \<le> B"
    using rule_target_bounds [of ?w "int i" "max 1 (c_effort c)" start, OF _ _ _ i'] rule_span_bounds [OF w c] by auto
  have "start \<le> next_open_day (fst acc) ?t (c_deadline c) (Some e) capacity"
    using t(1) fd.find_ge order_trans by blast
  moreover have "ordinal (next_open_day (fst acc) ?t (c_deadline c) (Some e) capacity) \<le> B + 731"
    by (rule fd.find_near) (use t(2) dates_withinD(3) [OF w] dates_withinD(5) [OF w c] in auto)
  ultimately show ?thesis
    using p by (auto simp: near_days_def rule_session_def Let_def split_beta)
qed

lemma rule_schedule_near:
  assumes w: "dates_within B start e cs" and "set cs' \<subseteq> set cs"
  shows "near_days start (B + 731) (rule_schedule cs' start (Some e) capacity)"
  unfolding rule_schedule_def
proof (rule foldl_invariant [where P = "\<lambda>a. near_days start (B + 731) (snd a)"])
  fix a :: "load \<times> session list" and x assume "x \<in> set (sort_key (rule_key (Some e)) cs')" and a: "near_days start (B + 731) (snd a)"
  then have x: "x \<in> set cs" using assms(2) by auto
  show "near_days start (B + 731) (snd (rule_candidate start (Some e) capacity a x))"
    unfolding rule_candidate_def
    by (rule foldl_invariant [where P = "\<lambda>a. near_days start (B + 731) (snd a)"])
      (use a rule_session_near [OF w x] in auto)
qed (simp add: near_days_def)

lemma backfill_placed:
  assumes w: "dates_within B start e cs" and "1 \<le> capacity"
    and p: "placed capacity start (B + 1462) load ss"
  shows "\<exists>load. placed capacity start (B + 1462) load (fst (backfill ss cs start (Some e) capacity))"
proof -
  let ?f = "backfill_candidate start (Some e) capacity"
  let ?m = "sort_key backfill_key (missing_candidates ss cs)"
  have l: "load_of ss = load" by (rule placed_load_of [OF p]) (use dates_withinD [OF w] in auto)
  have "placed capacity start (B + 1462) (fst (foldl ?f (load, ss) ?m)) (snd (foldl ?f (load, ss) ?m))"
  proof (rule foldl_invariant [where P = "\<lambda>a. placed capacity start (B + 1462) (fst a) (snd a)"])
    fix a c assume "c \<in> set ?m" and a: "placed capacity start (B + 1462) (fst a) (snd a)"
    then have c: "c \<in> set cs" by (simp add: missing_candidates_def)
    show "placed capacity start (B + 1462) (fst (?f a c)) (snd (?f a c))"
      unfolding backfill_candidate_def
    proof (rule foldl_invariant [where P = "\<lambda>a. placed capacity start (B + 1462) (fst a) (snd a)"])
      fix b s assume "s \<in> set (rule_schedule [c] start (Some e) capacity)"
        and b: "placed capacity start (B + 1462) (fst b) (snd b)"
      then obtain d where "s_day s = iso_of_date d" "start \<le> d" "ordinal d \<le> B + 731"
        using rule_schedule_near [OF w, of "[c]" capacity] c by (auto simp: near_days_def)
      from backfill_session_placed [OF w assms(2) c this b]
      show "placed capacity start (B + 1462) (fst (backfill_session start (Some e) capacity c b s)) (snd (backfill_session start (Some e) capacity c b s))" .
    qed (use a in simp)
  qed (use p in simp)
  then show ?thesis using l by (auto simp: backfill_def Let_def)
qed

lemma length_renumber [simp]: "length (renumber ss) = length ss"
  by (simp add: renumber_def Let_def)

lemma map_snd_enumerate: "map (\<lambda>p. f (snd p)) (enumerate_from n xs) = map f xs"
  by (induction xs arbitrary: n) auto

lemma renumber_days [simp]: "map s_day (renumber ss) = map s_day ss" "map s_candidate (renumber ss) = map s_candidate ss"
  by (simp_all add: renumber_def Let_def split_beta comp_def map_snd_enumerate)

lemma placed_renumber: "placed capacity lo hi load ss \<Longrightarrow> placed capacity lo hi load (renumber ss)"
  by (simp add: placed_def)

text \<open>The whole placement keeps the daily load, whichever way it took.\<close>

lemma schedule_sessions_placed:
  assumes w: "dates_within B start e cs" and c: "1 \<le> capacity"
    and r: "schedule_sessions asked cs start (Some e) capacity = (from_model, ss, b, t)"
  shows "\<exists>load. placed capacity start (B + 1462) load ss"
proof (cases "validate_sessions asked cs start (Some e) capacity = []")
  case True
  then have "ss = renumber (rule_schedule cs start (Some e) capacity)"
    using r by (simp add: schedule_sessions_def Let_def)
  then show ?thesis using rule_schedule_placed [OF w c, of cs] placed_renumber by blast
next
  case False
  let ?v = "validate_sessions asked cs start (Some e) capacity"
  have "ss = renumber (fst (backfill (fst (top_up ?v cs start (Some e) capacity)) cs start (Some e) capacity))"
    using r False by (auto simp: schedule_sessions_def Let_def split_beta)
  moreover obtain l where "placed capacity start (B + 1462) l (fst (top_up ?v cs start (Some e) capacity))"
    using validate_sessions_placed [OF w c] top_up_placed [OF w c] by blast
  ultimately show ?thesis using backfill_placed [OF w c] placed_renumber by blast
qed


section \<open>Numbering\<close>

definition sessions_for :: "string \<Rightarrow> session list \<Rightarrow> session list" where
  "sessions_for cid ss = filter (\<lambda>s. s_candidate s = cid) ss"

lemma dict_get_set [simp]: "dict_get (dict_set k v d) k' w = (if k' = k then v else dict_get d k' w)"
  by (simp add: dict_get_def)

lemma dict_get_Nil [simp]: "dict_get [] k w = w"
  by (simp add: dict_get_def)

lemma session_counts_eq: "dict_get (session_counts ss) cid 0 = int (length (sessions_for cid ss))"
proof -
  have "dict_get (foldl (\<lambda>d s. dict_set (s_candidate s) (dict_get d (s_candidate s) 0 + 1) d) d ss) cid 0
      = dict_get d cid 0 + int (length (sessions_for cid ss))" for d :: "(string, int) dict"
    by (induction ss arbitrary: d) (auto simp: sessions_for_def)
  then show ?thesis by (simp add: session_counts_def)
qed

lemma number_all_fst: "map fst (number_all pos L) = map fst L"
  by (induction pos L rule: number_all.induct) (simp_all add: Let_def)

lemma number_all_upto:
  "map (\<lambda>(e, n). snd n) (filter (\<lambda>(e, n). s_candidate (snd e) = cid) (zip L (number_all pos L)))
     = [dict_get pos cid 0 + 1 .. dict_get pos cid 0 + int (length (filter (\<lambda>e. s_candidate (snd e) = cid) L))]"
proof (induction pos L rule: number_all.induct)
  case (2 pos i s rest)
  then show ?case
  proof (cases "s_candidate s = cid")
    case True
    let ?p = "dict_get pos cid 0" and ?n = "int (length (filter (\<lambda>e. s_candidate (snd e) = cid) rest))"
    have "[?p + 1 .. ?p + (?n + 1)] = (?p + 1) # [?p + 1 + 1 .. ?p + (?n + 1)]"
      by (rule upto_rec1) simp
    then show ?thesis using 2 True by (simp add: Let_def add_ac)
  next
    case False
    then show ?thesis using 2 by (simp add: Let_def)
  qed
qed simp

lemma number_all_get:
  assumes "distinct (map fst L)"
  shows "map (\<lambda>e. dict_get (number_all pos L) (fst e) 0) (filter (\<lambda>e. s_candidate (snd e) = cid) L)
    = [dict_get pos cid 0 + 1 .. dict_get pos cid 0 + int (length (filter (\<lambda>e. s_candidate (snd e) = cid) L))]"
proof -
  let ?N = "number_all pos L"
  have len: "length ?N = length L" using number_all_fst [of pos L] by (metis length_map)
  have d: "distinct (map fst ?N)" using assms by (simp add: number_all_fst)
  have get: "dict_get ?N (fst e) 0 = snd n" if mem: "(e, n) \<in> set (zip L ?N)" for e n
  proof -
    obtain k where k: "k < length L" "e = L ! k" "n = ?N ! k" using mem len by (auto simp: set_zip)
    then have "fst n = fst e" using number_all_fst [of pos L] len by (metis nth_map)
    moreover have "n \<in> set ?N" using k len by simp
    ultimately have "map_of ?N (fst e) = Some (snd n)" using d by (metis map_of_is_SomeI prod.collapse)
    then show ?thesis by (simp add: dict_get_def)
  qed
  have "filter (\<lambda>e. s_candidate (snd e) = cid) L = map fst (filter (\<lambda>(e, n). s_candidate (snd e) = cid) (zip L ?N))"
    using filter_map [of "\<lambda>e. s_candidate (snd e) = cid" fst "zip L ?N"] len by (simp add: comp_def case_prod_unfold)
  then have "map (\<lambda>e. dict_get ?N (fst e) 0) (filter (\<lambda>e. s_candidate (snd e) = cid) L)
      = map (\<lambda>(e, n). snd n) (filter (\<lambda>(e, n). s_candidate (snd e) = cid) (zip L ?N))"
    using get by auto
  then show ?thesis unfolding number_all_upto .
qed

lemma distinct_enumerate: "distinct (map fst (enumerate_from n xs))"
  by (simp add: enumerate_from_def)

lemma sorted_map_weaken:
  "sorted (map g xs) \<Longrightarrow> (\<And>x y. g x \<le> g y \<Longrightarrow> f x \<le> f y) \<Longrightarrow> sorted (map f xs)"
  by (induction xs) auto

text \<open>The numbers of one candidate's sessions are 1, 2, ... in the order of their days.\<close>

lemma renumber_numbers:
  fixes ss cid
  defines "L \<equiv> sort_key day_order (enumerate_from 0 ss)"
  defines "N \<equiv> number_all [] L"
  shows "map (\<lambda>e. dict_get N (fst e) 0) (filter (\<lambda>e. s_candidate (snd e) = cid) L) = [1 .. int (length (sessions_for cid ss))]"
    and "sorted (map (\<lambda>e. s_day (snd e)) (filter (\<lambda>e. s_candidate (snd e) = cid) L))"
    and "mset (map (\<lambda>e. dict_get N (fst e) 0) (filter (\<lambda>e. s_candidate (snd e) = cid) L))
      = mset (map s_session (sessions_for cid (renumber ss)))"
proof -
  have dist: "distinct (map fst L)"
    using distinct_enumerate [of 0 ss] unfolding L_def
    by (metis distinct_map mset_eq_imp_distinct_iff mset_map mset_sort)
  have len: "length (filter (\<lambda>e. s_candidate (snd e) = cid) L) = length (sessions_for cid ss)"
  proof -
    have "mset (map snd L) = mset ss" unfolding L_def by (metis map_snd_enumerate_from mset_map mset_sort)
    then have "size (filter_mset (\<lambda>s. s_candidate s = cid) (mset (map snd L))) = size (filter_mset (\<lambda>s. s_candidate s = cid) (mset ss))"
      by simp
    then have "length (filter (\<lambda>s. s_candidate s = cid) (map snd L)) = length (sessions_for cid ss)"
      by (metis mset_filter sessions_for_def size_mset)
    then show ?thesis by (simp add: filter_map comp_def)
  qed
  show "map (\<lambda>e. dict_get N (fst e) 0) (filter (\<lambda>e. s_candidate (snd e) = cid) L) = [1 .. int (length (sessions_for cid ss))]"
    using number_all_get [OF dist, of "[]" cid] len by (simp add: N_def)
  have "sorted (map day_order (filter (\<lambda>e. s_candidate (snd e) = cid) L))"
    unfolding L_def by (rule sorted_filter) simp
  then show "sorted (map (\<lambda>e. s_day (snd e)) (filter (\<lambda>e. s_candidate (snd e) = cid) L))"
    by (rule sorted_map_weaken) (auto simp: day_order_def less_eq_prod_def)
  have "map s_session (sessions_for cid (renumber ss))
      = map (\<lambda>e. dict_get N (fst e) 0) (filter (\<lambda>e. s_candidate (snd e) = cid) (enumerate_from 0 ss))"
    by (simp add: sessions_for_def renumber_def Let_def N_def L_def filter_map comp_def split_beta)
  moreover have "mset (filter (\<lambda>e. s_candidate (snd e) = cid) L) = mset (filter (\<lambda>e. s_candidate (snd e) = cid) (enumerate_from 0 ss))"
    by (simp add: L_def)
  ultimately show "mset (map (\<lambda>e. dict_get N (fst e) 0) (filter (\<lambda>e. s_candidate (snd e) = cid) L))
      = mset (map s_session (sessions_for cid (renumber ss)))"
    by (simp only: mset_map)
qed


section \<open>Which candidates the sessions are for\<close>

lemma sessions_for_count: "length (sessions_for cid ss) = count_list (map s_candidate ss) cid"
  by (simp add: sessions_for_def count_list_map_filter)

lemma count_list_replicate: "count_list (replicate n x) y = (if x = y then n else 0)"
  by (induction n) auto

lemma rule_candidate_ids:
  "map s_candidate (snd (rule_candidate start e capacity acc c))
     = map s_candidate (snd acc) @ replicate (nat (max 1 (c_effort c))) (c_id c)"
proof -
  have "map s_candidate (snd (foldl (rule_session start e capacity c) acc [0..<n])) = map s_candidate (snd acc) @ replicate n (c_id c)" for n
    by (induction n) (simp_all add: rule_session_def split_beta Let_def replicate_append_same)
  then show ?thesis by (simp add: rule_candidate_def)
qed

lemma rule_schedule_ids:
  "map s_candidate (rule_schedule cs start e capacity)
     = concat (map (\<lambda>c. replicate (nat (max 1 (c_effort c))) (c_id c)) (sort_key (rule_key e) cs))"
proof -
  have "map s_candidate (snd (foldl (rule_candidate start e capacity) acc xs))
      = map s_candidate (snd acc) @ concat (map (\<lambda>c. replicate (nat (max 1 (c_effort c))) (c_id c)) xs)" for acc xs
    by (induction xs arbitrary: acc) (simp_all add: rule_candidate_ids)
  then show ?thesis by (simp add: rule_schedule_def)
qed

lemma count_concat_replicate:
  assumes "distinct (map f xs)" and "x \<in> set xs"
  shows "count_list (concat (map (\<lambda>c. replicate (n c) (f c)) xs)) (f x) = n x"
proof -
  have "count_list (concat (map (\<lambda>c. replicate (n c) (f c)) ys)) k = 0" if "k \<notin> f ` set ys" for ys k
    using that by (auto simp: count_list_0_iff)
  then show ?thesis
    using assms by (induction xs) (auto simp: count_list_append count_list_replicate image_iff)
qed

lemma distinct_sort_map: "distinct (map f xs) \<Longrightarrow> distinct (map f (sort_key g xs))"
  by (metis distinct_map distinct_sort set_sort)

lemma rule_schedule_count:
  assumes "distinct (map c_id cs)" and "c \<in> set cs"
  shows "count_list (map s_candidate (rule_schedule cs start e capacity)) (c_id c) = nat (max 1 (c_effort c))"
  unfolding rule_schedule_ids
  by (rule count_concat_replicate [where f = c_id]) (use assms distinct_sort_map in auto)

lemma rule_schedule_set: "s_candidate ` set (rule_schedule cs start e capacity) = c_id ` set cs"
proof -
  have "set (map s_candidate (rule_schedule cs start e capacity)) = c_id ` set cs"
    unfolding rule_schedule_ids by (auto simp: max_def)
  then show ?thesis by simp
qed

lemma backfill_ids:
  "map s_candidate (fst (backfill ss cs start e capacity)) = map s_candidate ss @
     concat (map (\<lambda>c. replicate (nat (max 1 (c_effort c))) (c_id c)) (sort_key backfill_key (missing_candidates ss cs)))"
proof -
  have one: "map s_candidate (snd (foldl (backfill_session start e capacity c) acc xs)) = map s_candidate (snd acc) @ map s_candidate xs" for acc c xs
    by (induction xs arbitrary: acc) (simp_all add: backfill_session_def split_beta Let_def)
  have "map s_candidate (snd (foldl (backfill_candidate start e capacity) acc xs))
      = map s_candidate (snd acc) @ concat (map (\<lambda>c. replicate (nat (max 1 (c_effort c))) (c_id c)) xs)" for acc xs
    by (induction xs arbitrary: acc) (simp_all add: backfill_candidate_def one rule_schedule_ids)
  then show ?thesis by (simp add: backfill_def Let_def)
qed

lemma backfill_covers:
  assumes "s_candidate ` set ss \<subseteq> c_id ` set cs"
  shows "s_candidate ` set (fst (backfill ss cs start e capacity)) = c_id ` set cs"
proof -
  have "set (map s_candidate (fst (backfill ss cs start e capacity))) = c_id ` set cs"
    unfolding backfill_ids using assms by (auto simp: missing_candidates_def max_def)
  then show ?thesis by simp
qed

lemma top_up_loop_ids:
  "map s_candidate (snd (top_up_loop n wanted c start e capacity acc)) = map s_candidate (snd acc) @ replicate n (c_id c)"
  by (induction n wanted c start e capacity acc rule: top_up_loop.induct)
    (simp_all add: Let_def replicate_append_same flip: replicate_Suc)

lemma session_counts_keys: "fst ` set (session_counts ss) = s_candidate ` set ss"
proof -
  have "fst ` set (foldl (\<lambda>d s. dict_set (s_candidate s) (dict_get d (s_candidate s) 0 + 1) d) d ss)
      = fst ` set d \<union> s_candidate ` set ss" for d :: "(string, int) dict"
    by (induction ss arbitrary: d) (auto simp: fst_dict_set)
  then show ?thesis by (simp add: session_counts_def)
qed

definition top_up_need :: "(string, int) dict \<Rightarrow> string \<times> int \<Rightarrow> nat" where
  "top_up_need declared entry = nat (max 0 (dict_get declared (fst entry) 0 - snd entry))"

lemma top_up_ids:
  assumes "s_candidate ` set ss \<subseteq> c_id ` set cs"
  shows "map s_candidate (fst (top_up ss cs start e capacity)) = map s_candidate ss @
     concat (map (\<lambda>x. replicate (top_up_need (declared_depth ss (by_id cs)) x) (fst x)) (sort (session_counts ss)))"
proof -
  let ?D = "declared_depth ss (by_id cs)"
  have keys: "fst x \<in> c_id ` set cs" if "x \<in> set (session_counts ss)" for x
    using that assms session_counts_keys [of ss] by blast
  have step: "map s_candidate (snd (top_up_step (by_id cs) ?D start e capacity acc x))
      = map s_candidate (snd acc) @ replicate (top_up_need ?D x) (fst x)" if key: "fst x \<in> c_id ` set cs" for acc x
  proof -
    obtain c where c: "map_of (by_id cs) (fst x) = Some c" using key by_id_None [of cs "fst x"] by auto
    then have "c_id c = fst x" using by_id_Some by blast
    then show ?thesis using c by (simp add: top_up_step_def top_up_loop_ids top_up_need_def Let_def)
  qed
  have "map s_candidate (snd (foldl (top_up_step (by_id cs) ?D start e capacity) acc xs))
      = map s_candidate (snd acc) @ concat (map (\<lambda>x. replicate (top_up_need ?D x) (fst x)) xs)"
    if "fst ` set xs \<subseteq> c_id ` set cs" for acc xs
    using that by (induction xs arbitrary: acc) (simp_all add: step)
  moreover have "fst ` set (sort (session_counts ss)) \<subseteq> c_id ` set cs" using keys by auto
  ultimately show ?thesis by (simp add: top_up_def Let_def)
qed

lemma distinct_session_counts: "distinct (map fst (session_counts ss))"
proof -
  have "distinct (map fst (foldl (\<lambda>d s. dict_set (s_candidate s) (dict_get d (s_candidate s) 0 + 1) d) d ss))"
    if "distinct (map fst d)" for d :: "(string, int) dict"
    using that by (induction ss arbitrary: d) (auto simp: distinct_dict_set)
  then show ?thesis by (simp add: session_counts_def)
qed

lemma top_up_count:
  assumes "s_candidate ` set ss \<subseteq> c_id ` set cs" and "cid \<in> s_candidate ` set ss"
  shows "int (count_list (map s_candidate (fst (top_up ss cs start e capacity))) cid)
    = max (dict_get (declared_depth ss (by_id cs)) cid 0) (int (count_list (map s_candidate ss) cid))"
proof -
  let ?n = "int (count_list (map s_candidate ss) cid)"
  have "dict_get (session_counts ss) cid 0 = ?n"
    by (simp add: session_counts_eq sessions_for_count)
  moreover have "0 < ?n" using assms(2) count_list_0_iff [of "map s_candidate ss" cid] by fastforce
  ultimately have mem: "(cid, ?n) \<in> set (session_counts ss)"
    by (auto simp: dict_get_def split: option.splits dest: map_of_SomeD)
  then have "count_list (concat (map (\<lambda>x. replicate (top_up_need (declared_depth ss (by_id cs)) x) (fst x)) (sort (session_counts ss)))) cid
      = top_up_need (declared_depth ss (by_id cs)) (cid, ?n)"
    using count_concat_replicate [of fst "sort (session_counts ss)" "(cid, ?n)" "top_up_need (declared_depth ss (by_id cs))"]
      distinct_sort_map [OF distinct_session_counts [of ss], of "\<lambda>x. x"] by simp
  then show ?thesis by (simp add: top_up_ids [OF assms(1)] top_up_need_def count_list_append)
qed


section \<open>The depth the model asked for\<close>

lemma declared_depth_eq:
  assumes "cid \<in> c_id ` set cs"
  shows "dict_get (declared_depth ss (by_id cs)) cid 0 =
    (if cid \<in> s_candidate ` set ss
     then max 1 (min (max (foldl max 0 (map s_of (sessions_for cid ss))) (int (length (sessions_for cid ss)))) 8) else 0)"
proof -
  obtain cc where known: "map_of (by_id cs) cid = Some cc"
    using assms by_id_None [of cs cid] by (cases "map_of (by_id cs) cid") auto
  have fold: "map_of (foldl (depth_step (by_id cs)) d ss) cid =
      (if cid \<in> s_candidate ` set ss
       then Some (fst (dict_get d cid (0, 0)) + int (length (sessions_for cid ss)),
                  foldl max (snd (dict_get d cid (0, 0))) (map s_of (sessions_for cid ss)))
       else map_of d cid)" for d
  proof (induction ss arbitrary: d)
    case (Cons s ss)
    have none: "length (sessions_for cid ss) = 0 \<and> sessions_for cid ss = []" if "cid \<notin> s_candidate ` set ss"
      using that by (auto simp: sessions_for_def filter_empty_conv)
    show ?case
    proof (cases "s_candidate s = cid")
      case True
      then have "depth_step (by_id cs) d s = dict_set cid (fst (dict_get d cid (0, 0)) + 1, max (snd (dict_get d cid (0, 0))) (s_of s)) d"
        using known by (simp add: depth_step_def split_beta)
      then show ?thesis using Cons.IH True none by (auto simp: sessions_for_def)
    next
      case False
      then have "map_of (depth_step (by_id cs) d s) cid = map_of d cid"
        "dict_get (depth_step (by_id cs) d s) cid (0, 0) = dict_get d cid (0, 0)"
        by (auto simp: depth_step_def split_beta)
      then show ?thesis using Cons.IH False by (auto simp: sessions_for_def)
    qed
  qed (simp add: sessions_for_def)
  have "map_of (map (\<lambda>(cid, placed, stated). (cid, max 1 (min (max stated placed) (MAX_SESSIONS_PER_ITEM + 2)))) d) cid
      = map_option (\<lambda>(placed, stated). max 1 (min (max stated placed) (MAX_SESSIONS_PER_ITEM + 2))) (map_of d cid)"
    for d :: "(string, int \<times> int) dict"
    by (induction d) auto
  then show ?thesis
    by (simp add: declared_depth_def dict_get_def fold MAX_SESSIONS_PER_ITEM_def)
qed

lemma declared_depth_bounds:
  assumes "cid \<in> c_id ` set cs" and "cid \<in> s_candidate ` set ss"
  shows "1 \<le> dict_get (declared_depth ss (by_id cs)) cid 0 \<and> dict_get (declared_depth ss (by_id cs)) cid 0 \<le> 8"
  by (simp add: declared_depth_eq [OF assms(1)] assms(2))

definition validated_ok :: "candidate list \<Rightarrow> (string, int) dict \<Rightarrow> session list \<Rightarrow> check_state \<Rightarrow> bool" where
  "validated_ok cs declared asked st \<longleftrightarrow>
     list_all (\<lambda>s. s_candidate s \<in> c_id ` set cs \<and> s_candidate s \<in> s_candidate ` set asked
        \<and> s_of s = dict_get declared (s_candidate s) 0) (k_out st)
   \<and> (\<forall>cid. dict_get (k_counts st) cid 0 = int (count_list (map s_candidate (k_out st)) cid))
   \<and> (\<forall>cid. cid \<in> s_candidate ` set (k_out st) \<longrightarrow> int (count_list (map s_candidate (k_out st)) cid) \<le> dict_get declared cid 0)"

lemma validate_step_ok:
  assumes ok: "validated_ok cs declared asked st" and s: "s \<in> set asked"
  shows "validated_ok cs declared asked (validate_step (by_id cs) declared start e capacity st s)"
proof -
  let ?st' = "validate_step (by_id cs) declared start e capacity st s"
  consider (same) "?st' = st"
    | (new) r where "k_out ?st' = k_out st @ [r]" "s_candidate r = s_candidate s"
        "s_of r = dict_get declared (s_candidate s) 0" "s_candidate s \<in> c_id ` set cs"
        "k_counts ?st' = dict_set (s_candidate s) (dict_get (k_counts st) (s_candidate s) 0 + 1) (k_counts st)"
        "dict_get (k_counts st) (s_candidate s) 0 < dict_get declared (s_candidate s) 0"
  proof (cases "?st' = st")
    case False
    then obtain c where c: "map_of (by_id cs) (s_candidate s) = Some c"
      by (cases "map_of (by_id cs) (s_candidate s)") (auto simp: validate_step_def)
    then have "s_candidate s \<in> c_id ` set cs" using by_id_Some [OF c] by (metis imageI)
    then show ?thesis using False c new
      by (auto simp: validate_step_def Let_def split: option.splits if_splits)
  qed blast
  then show ?thesis
  proof cases
    case same
    then show ?thesis using ok by simp
  next
    case new
    have count: "dict_get (k_counts st) cid 0 = int (count_list (map s_candidate (k_out st)) cid)" for cid
      using ok by (simp add: validated_ok_def)
    show ?thesis
      using ok new s count by (auto simp: validated_ok_def)
  qed
qed

lemma foldl_max_const:
  fixes d :: int
  assumes "\<forall>x\<in>set xs. x = d" and "xs \<noteq> []"
  shows "foldl max a xs = max a d"
proof -
  have "foldl max (max a d) ys = max a d" if "\<forall>y\<in>set ys. y = d" for ys
    using that by (induction ys) auto
  then show ?thesis using assms by (cases xs) auto
qed

lemma validate_sessions_ok:
  fixes asked cs start e capacity
  defines "v \<equiv> validate_sessions asked cs start e capacity"
  shows "s_candidate ` set v \<subseteq> c_id ` set cs"
    and "cid \<in> s_candidate ` set v \<Longrightarrow> cid \<in> s_candidate ` set asked"
    and "cid \<in> s_candidate ` set v \<Longrightarrow> dict_get (declared_depth v (by_id cs)) cid 0 = dict_get (declared_depth asked (by_id cs)) cid 0"
    and "cid \<in> s_candidate ` set v \<Longrightarrow> int (count_list (map s_candidate v) cid) \<le> dict_get (declared_depth asked (by_id cs)) cid 0"
proof -
  let ?D = "declared_depth asked (by_id cs)"
  let ?st = "foldl (validate_step (by_id cs) ?D start e capacity) \<lparr>k_load = (\<lambda>_. 0), k_seen = [], k_counts = [], k_out = []\<rparr>
       (sort_key (\<lambda>s. (s_day s, s_candidate s)) asked)"
  have "validated_ok cs ?D asked ?st"
  proof (rule foldl_invariant [where P = "validated_ok cs ?D asked"])
    show "validated_ok cs ?D asked \<lparr>k_load = (\<lambda>_. 0), k_seen = [], k_counts = [], k_out = []\<rparr>"
      by (simp add: validated_ok_def)
  qed (use validate_step_ok in auto)
  then have ok: "\<And>s. s \<in> set v \<Longrightarrow> s_candidate s \<in> c_id ` set cs \<and> s_candidate s \<in> s_candidate ` set asked \<and> s_of s = dict_get ?D (s_candidate s) 0"
    "\<And>cid. cid \<in> s_candidate ` set v \<Longrightarrow> int (count_list (map s_candidate v) cid) \<le> dict_get ?D cid 0"
    by (auto simp: validated_ok_def v_def validate_sessions_def list_all_iff)
  show "s_candidate ` set v \<subseteq> c_id ` set cs" using ok by blast
  show "cid \<in> s_candidate ` set asked" if "cid \<in> s_candidate ` set v" using that ok by blast
  show "int (count_list (map s_candidate v) cid) \<le> dict_get ?D cid 0" if "cid \<in> s_candidate ` set v" using that ok by blast
  show "dict_get (declared_depth v (by_id cs)) cid 0 = dict_get ?D cid 0" if cid: "cid \<in> s_candidate ` set v"
  proof -
    let ?d = "dict_get ?D cid 0"
    have mem: "cid \<in> c_id ` set cs" "cid \<in> s_candidate ` set asked" using cid ok by blast+
    have d: "1 \<le> ?d" "?d \<le> 8" using declared_depth_bounds [OF mem] by auto
    have all: "\<forall>x\<in>set (map s_of (sessions_for cid v)). x = ?d" using ok by (auto simp: sessions_for_def)
    have ne: "sessions_for cid v \<noteq> []" using cid by (auto simp: sessions_for_def filter_empty_conv)
    have "foldl max 0 (map s_of (sessions_for cid v)) = max 0 ?d"
      by (rule foldl_max_const [OF all]) (use ne in simp)
    then have "foldl max 0 (map s_of (sessions_for cid v)) = ?d" using d by simp
    moreover have "int (length (sessions_for cid v)) \<le> ?d" using ok(2) [OF cid] by (simp add: sessions_for_count)
    ultimately show ?thesis using d by (simp add: declared_depth_eq [OF mem(1)] cid)
  qed
qed


definition planned_sessions :: "session list \<Rightarrow> candidate list \<Rightarrow> date \<Rightarrow> date option \<Rightarrow> int \<Rightarrow> session list" where
  "planned_sessions asked cs start window_end capacity = fst (snd (schedule_sessions asked cs start window_end capacity))"

lemma planned_sessions_cases:
  "planned_sessions asked cs start e capacity =
     (if validate_sessions asked cs start e capacity = [] then renumber (rule_schedule cs start e capacity)
      else renumber (fst (backfill (fst (top_up (validate_sessions asked cs start e capacity) cs start e capacity)) cs start e capacity)))"
  by (simp add: planned_sessions_def schedule_sessions_def Let_def split_beta)

lemma planned_covers: "s_candidate ` set (planned_sessions asked cs start e capacity) = c_id ` set cs"
proof -
  have ren: "s_candidate ` set (renumber ss) = s_candidate ` set ss" for ss
    unfolding set_map [symmetric] renumber_days ..
  have top: "s_candidate ` set (fst (top_up ss cs start e capacity)) \<subseteq> c_id ` set cs"
    if "s_candidate ` set ss \<subseteq> c_id ` set cs" for ss
  proof -
    have "set (concat (map (\<lambda>x. replicate (n x) (fst x)) xs)) \<subseteq> fst ` set xs" for n :: "string \<times> int \<Rightarrow> nat" and xs
      by (auto intro: rev_image_eqI)
    then have "set (map s_candidate (fst (top_up ss cs start e capacity))) \<subseteq> set (map s_candidate ss) \<union> fst ` set (sort (session_counts ss))"
      unfolding top_up_ids [OF that] set_append by blast
    then have "set (map s_candidate (fst (top_up ss cs start e capacity))) \<subseteq> c_id ` set cs"
      using that by (simp add: session_counts_keys)
    then show ?thesis by simp
  qed
  show ?thesis
  proof (cases "validate_sessions asked cs start e capacity = []")
    case True
    then show ?thesis unfolding planned_sessions_cases by (simp only: if_True ren rule_schedule_set simp_thms)
  next
    case False
    have "s_candidate ` set (fst (top_up (validate_sessions asked cs start e capacity) cs start e capacity)) \<subseteq> c_id ` set cs"
      by (rule top) (rule validate_sessions_ok(1))
    from backfill_covers [OF this] show ?thesis
      unfolding planned_sessions_cases using False by (simp only: if_False ren simp_thms)
  qed
qed

lemma renumber_in_order:
  "map s_session (sort_key s_session (sessions_for cid (renumber ss))) = [1 .. int (length (sessions_for cid ss))]
   \<and> sorted (map s_day (sort_key s_session (sessions_for cid (renumber ss))))"
proof -
  let ?L = "sort_key day_order (enumerate_from 0 ss)"
  let ?N = "number_all [] ?L"
  let ?r = "\<lambda>e. (snd e)\<lparr>s_session := dict_get ?N (fst e) 0, s_of := dict_get (session_counts ss) (s_candidate (snd e)) 0\<rparr>"
  let ?F = "filter (\<lambda>e. s_candidate (snd e) = cid) ?L"
  note num = renumber_numbers [where ss = ss and cid = cid]
  have "sessions_for cid (renumber ss) = map ?r (filter (\<lambda>e. s_candidate (snd e) = cid) (enumerate_from 0 ss))"
    by (simp add: sessions_for_def renumber_def Let_def filter_map comp_def case_prod_unfold)
  then have perm: "mset (sessions_for cid (renumber ss)) = mset (map ?r ?F)"
    by simp
  have keys: "map s_session (map ?r ?F) = [1 .. int (length (sessions_for cid ss))]"
    using num(1) by (simp add: comp_def)
  have "distinct (map s_session (map ?r ?F))" unfolding keys by simp
  then have "inj_on s_session (set (map ?r ?F))" unfolding distinct_map by blast
  then have inj: "inj_on s_session (set (sessions_for cid (renumber ss)))" unfolding mset_eq_setD [OF perm] .
  have "sorted (map s_session (map ?r ?F))" unfolding keys by simp
  from sort_key_inj_key_eq [OF perm inj this]
  have "sort_key s_session (sessions_for cid (renumber ss)) = map ?r ?F" .
  moreover have "sorted (map s_day (map ?r ?F))" using num(2) by (simp add: comp_def)
  ultimately show ?thesis using keys by simp
qed

lemma renumber_of: "s \<in> set (sessions_for cid (renumber ss)) \<Longrightarrow> s_of s = int (length (sessions_for cid ss))"
  by (auto simp: sessions_for_def renumber_def Let_def session_counts_eq)

section \<open>Properties\<close>

text \<open>C3 (safety): the daily limit. As long as a plan has at most 366 full days' worth of sessions, no
  day of it holds more sessions than the daily capacity, whichever sessions the model asked for, and
  nothing is placed before the first day of the plan.\<close>

theorem daily_limit_kept:
  assumes "dates_within B start e cs" and "1 \<le> capacity"
    and "int (length (planned_sessions asked cs start (Some e) capacity)) \<le> 366 * capacity"
  shows "(\<forall>day. int (count_list (map s_day (planned_sessions asked cs start (Some e) capacity)) day) \<le> capacity)
    \<and> list_all (\<lambda>s. iso_of_date start \<le> s_day s) (planned_sessions asked cs start (Some e) capacity)"
proof -
  obtain load where p: "placed capacity start (B + 1462) load (planned_sessions asked cs start (Some e) capacity)"
    using schedule_sessions_placed [OF assms(1,2), of asked] unfolding planned_sessions_def
    by (cases "schedule_sessions asked cs start (Some e) capacity") auto
  note w = dates_withinD [OF assms(1)]
  have "int (count_list (map s_day (planned_sessions asked cs start (Some e) capacity)) day) \<le> capacity" for day
    by (rule placed_daily_limit [OF p]) (use w assms in auto)
  moreover have "iso_of_date start \<le> s_day s" if mem: "s \<in> set (planned_sessions asked cs start (Some e) capacity)" for s
  proof -
    obtain d where d: "s_day s = iso_of_date d" "start \<le> d" "ordinal d \<le> B + 1462" using placed_from [OF p mem] by blast
    then have "in_calendar start" "in_calendar d" using w by (auto simp: in_calendar_def date_simps)
    then show ?thesis using d iso.show_le by simp
  qed
  ultimately show ?thesis by (auto simp: list_all_iff)
qed

text \<open>C13 (safety): nothing is lost. Every candidate in scope gets at least one session and every
  session belongs to a candidate in scope, whatever the model answered.\<close>

theorem every_candidate_scheduled:
  "s_candidate ` set (planned_sessions asked cs start e capacity) = c_id ` set cs"
  by (rule planned_covers)

text \<open>After renumbering, the sessions of a candidate are numbered 1 to n without gap or
  repetition, in the order of their days, and each says that there are n.\<close>

theorem sessions_numbered_in_order:
  "map s_session (sort_key s_session (sessions_for cid (renumber ss))) = [1 .. int (length (sessions_for cid ss))]
   \<and> sorted (map s_day (sort_key s_session (sessions_for cid (renumber ss))))
   \<and> map s_of (sessions_for cid (renumber ss)) = replicate (length (sessions_for cid ss)) (int (length (sessions_for cid ss)))"
proof -
  have "length (sessions_for cid (renumber ss)) = length (sessions_for cid ss)"
    by (simp add: sessions_for_count)
  then have "map s_of (sessions_for cid (renumber ss)) = replicate (length (sessions_for cid ss)) (int (length (sessions_for cid ss)))"
    by (intro replicate_eqI) (auto simp: renumber_of)
  then show ?thesis using renumber_in_order by blast
qed

text \<open>A candidate the model scheduled validly gets exactly the number of sessions the
  model stated or placed for it, whichever is larger, between one and eight.\<close>

theorem model_depth_respected:
  assumes "cid \<in> s_candidate ` set (validate_sessions asked cs start e capacity)"
  shows "int (count_list (map s_candidate (planned_sessions asked cs start e capacity)) cid)
    = max 1 (min (max (foldl max 0 (map s_of (sessions_for cid asked))) (int (length (sessions_for cid asked)))) 8)"
proof -
  let ?v = "validate_sessions asked cs start e capacity"
  let ?t = "fst (top_up ?v cs start e capacity)"
  note ok = validate_sessions_ok [where asked = asked and cs = cs and start = start and e = e and capacity = capacity]
  have cid: "cid \<in> c_id ` set cs" "cid \<in> s_candidate ` set asked" using assms ok(1,2) by auto
  have "int (count_list (map s_candidate ?t) cid) = dict_get (declared_depth asked (by_id cs)) cid 0"
    using top_up_count [OF ok(1) assms] ok(3,4) [OF assms] by simp
  moreover have "cid \<in> s_candidate ` set ?t"
  proof -
    have "set (map s_candidate ?v) \<subseteq> set (map s_candidate ?t)"
      unfolding top_up_ids [OF ok(1)] by simp
    then show ?thesis using assms by auto
  qed
  have "c_id c \<noteq> cid" if "c \<in> set (missing_candidates ?t cs)" for c
  proof -
    have "c_id c \<notin> s_candidate ` set ?t" using that by (simp add: missing_candidates_def)
    then show ?thesis using \<open>cid \<in> s_candidate ` set ?t\<close> by metis
  qed
  then have "count_list (concat (map (\<lambda>c. replicate (nat (max 1 (c_effort c))) (c_id c)) (sort_key backfill_key (missing_candidates ?t cs)))) cid = 0"
    by (auto simp: count_list_0_iff)
  then have "count_list (map s_candidate (fst (backfill ?t cs start e capacity))) cid = count_list (map s_candidate ?t) cid"
    by (simp add: backfill_ids)
  moreover have "?v \<noteq> []" using assms by auto
  ultimately show ?thesis
    by (simp add: planned_sessions_cases declared_depth_eq [OF cid(1)] cid(2))
qed

text \<open>When the model gives no usable session, the rule scheduler gives every candidate
  exactly the sessions its effort asks for.\<close>

theorem rules_respect_effort:
  assumes "validate_sessions asked cs start e capacity = []" and "distinct (map c_id cs)" and "c \<in> set cs"
  shows "int (count_list (map s_candidate (planned_sessions asked cs start e capacity)) (c_id c)) = max 1 (c_effort c)"
  using rule_schedule_count [OF assms(2,3)] assms(1) by (simp add: planned_sessions_cases)

text \<open>The day given to a session is the earliest one with room up to the deadline (or the
  end of the window when that comes first), whenever there is one.\<close>

theorem next_open_day_is_earliest:
  assumes "deadline = Some l" and "start \<le> l" and "limit = (case from_start end_date start of Some c \<Rightarrow> min l c | None \<Rightarrow> l)"
    and "start \<le> x" and "x \<le> limit" and "load x < capacity"
  shows "next_open_day load start deadline end_date capacity \<le> x
    \<and> load (next_open_day load start deadline end_date capacity) < capacity
    \<and> (\<forall>y. start \<le> y \<and> y < next_open_day load start deadline end_date capacity \<longrightarrow> capacity \<le> load y)"
  by (rule next_open_day_first) (use assms in \<open>auto simp: from_start_Some\<close>)

text \<open>The daily capacity of a plan is between one and eight, and when the work fits the
  window at eight sessions a day, the capacity chosen for a horizon is enough to fit it.\<close>

theorem design_capacity_fits:
  assumes "parse_date (VStr (d_horizon design)) = Some h" and "h \<le> w"
    and "sum_list (map (\<lambda>c. max 1 (c_effort c)) cs) \<le> 8 * max 1 (days_between start w + 1)"
  shows "1 \<le> design_capacity capacity design cs start (Some w)
    \<and> design_capacity capacity design cs start (Some w) \<le> 8
    \<and> sum_list (map (\<lambda>c. max 1 (c_effort c)) cs) \<le> design_capacity capacity design cs start (Some w) * max 1 (days_between start w + 1)"
proof -
  define n where "n = sum_list (map (\<lambda>c. max 1 (c_effort c)) cs)"
  define days where "days = max 1 (days_between start w + 1)"
  define k where "k = - ((- n) div days)"
  have pos: "0 < days" by (simp add: days_def)
  have "(- n) div days * days \<le> - n" 
    using div_mult_mod_eq [of "- n" days] pos_mod_sign [OF pos, of "- n"] by linarith
  then have enough: "n \<le> k * days" by (simp add: k_def)
  have "- (8 * days) \<le> - n" using assms(3) by (simp add: n_def days_def)
  then have "(- (8 * days)) div days \<le> (- n) div days" using pos by (intro zdiv_mono1) auto
  moreover have "(- (8 * days)) div days = - 8"
    using pos by (simp only: mult_minus_left [symmetric] nonzero_mult_div_cancel_right)
  ultimately have k8: "k \<le> 8" by (simp add: k_def)
  obtain cap where cap: "design_capacity capacity design cs start (Some w) = max 1 (min (max cap k) 8)"
    using assms(1,2) by (auto simp: design_capacity_def Let_def k_def n_def days_def MAX_SESSIONS_PER_DAY_def)
  then have "k \<le> design_capacity capacity design cs start (Some w)" using k8 by simp
  then have "k * days \<le> design_capacity capacity design cs start (Some w) * days" using pos by simp
  then show ?thesis using enough cap by (simp add: n_def days_def)
qed


section \<open>Examples\<close>

definition example_plan :: "session list" where
  "example_plan = planned_sessions [] [example_candidate 739620 (1/4)] (Date 739600) (Some (Date 739650)) 2"

theorem daily_limit_kept_witness:
  "\<forall>day. int (count_list (map s_day example_plan) day) \<le> 2"
proof -
  have w: "dates_within 739650 (Date 739600) (Date 739650) [example_candidate 739620 (1/4)]" by code_simp
  have l: "int (length (planned_sessions [] [example_candidate 739620 (1/4)] (Date 739600) (Some (Date 739650)) 2)) \<le> 366 * 2"
    by code_simp
  show ?thesis using daily_limit_kept [OF w _ l] by (simp add: example_plan_def)
qed

definition example_session :: "string \<Rightarrow> session" where
  "example_session day = \<lparr>s_candidate = ''c1'', s_day = day, s_session = 1, s_of = 2, s_focus = ''p. 1-10''\<rparr>"

theorem model_depth_respected_witness:
  "int (count_list (map s_candidate (planned_sessions [example_session ''2026-01-01''] [example_candidate 739620 (1/4)]
      (Date 739600) (Some (Date 739650)) 2)) ''c1'') = 2"
proof -
  have "''c1'' \<in> s_candidate ` set (validate_sessions [example_session ''2026-01-01''] [example_candidate 739620 (1/4)]
      (Date 739600) (Some (Date 739650)) 2)" by code_simp
  from model_depth_respected [OF this] show ?thesis
    by (simp add: example_session_def sessions_for_def)
qed

theorem rules_respect_effort_witness:
  "int (count_list (map s_candidate example_plan) ''c1'') = 1"
proof -
  have "validate_sessions [] [example_candidate 739620 (1/4)] (Date 739600) (Some (Date 739650)) 2 = []" by code_simp
  from rules_respect_effort [OF this, of "example_candidate 739620 (1/4)"] show ?thesis
    by (simp add: example_plan_def example_candidate_def)
qed

theorem next_open_day_is_earliest_witness:
  "next_open_day (take_day (\<lambda>_. 0) (Date 739600)) (Date 739600) (Some (Date 739610)) (Some (Date 739605)) 1 \<le> Date 739601"
  by (rule conjunct1 [OF next_open_day_is_earliest [where l = "Date 739610" and limit = "Date 739605"]])
    (simp_all add: take_day_def date_simps from_start_def min_def)

theorem design_capacity_fits_witness:
  "1 * 7 \<le> design_capacity 2 \<lparr>d_sessions = [], d_excluded = [], d_horizon = ''2026-01-07'', d_sessions_per_day = 0,
      d_rationale = [], d_pace_note = []\<rparr> [example_candidate 739620 (1/4)] (Date 739617) (Some (Date 739623)) * 7"
proof -
  have h: "parse_date (VStr (d_horizon \<lparr>d_sessions = [], d_excluded = [], d_horizon = ''2026-01-07'', d_sessions_per_day = 0,
      d_rationale = [], d_pace_note = []\<rparr>)) = Some (Date 739623)" by code_simp
  have w: "Date 739623 \<le> Date 739623" by simp
  have t: "sum_list (map (\<lambda>c. max 1 (c_effort c)) [example_candidate 739620 (1/4)]) \<le> 8 * max 1 (days_between (Date 739617) (Date 739623) + 1)"
    by code_simp
  show ?thesis using design_capacity_fits [OF h w t, of 2] by simp
qed

text \<open>A session can be placed after the end of the window although days inside it are free:
  the rule scheduler spreads a candidate up to its own deadline even when the window ends before it, and
  past the end of the window the search is no longer bounded by it.\<close>

theorem rule_schedule_leaves_window:
  "map s_day (rule_schedule [(example_candidate 739650 (1/4))\<lparr>c_effort := 2\<rparr>] (Date 739600) (Some (Date 739610)) 8)
     = [iso_of_date (Date 739600), iso_of_date (Date 739625)]
   \<and> Date 739610 < Date 739625
   \<and> next_open_day (\<lambda>_. 0) (Date 739625) (Some (Date 739650)) (Some (Date 739610)) 8 = Date 739625"
  by code_simp

end
