(* ===== verification/Guardrails.thy ===== *)
theory Guardrails
  imports PyRegex
begin

text \<open>
  \<open>backend/guardrails.py\<close>: the prompt-injection patterns, the quarantine of retrieved
  chunks and the validation of every assistant response. The patterns are the source's
  regular expressions (IGNORECASE and DOTALL). On ASCII text NFKC is the identity and the
  four zero-width code points \<open>_normalized\<close> removes do not occur, so \<open>normalized\<close> is
  \<open>str(text or "")\<close>, the text itself.
\<close>

section \<open>Messages and limits\<close>

definition PROMPT_INJECTION_MESSAGE :: string where
  "PROMPT_INJECTION_MESSAGE =
     ''I couldn't process that request because it contains instructions that may '' @
     ''attempt to override the assistant's safety rules.''"

definition RAG_QUARANTINE_MESSAGE :: string where
  "RAG_QUARANTINE_MESSAGE =
     ''I couldn't use the retrieved course material because it contains '' @
     ''instruction-like content that may be a prompt injection.''"

definition UNSAFE_OUTPUT_MESSAGE :: string where
  "UNSAFE_OUTPUT_MESSAGE =
     ''I couldn't provide that response because it did not pass the safety check.''"

definition MAX_PROMPT_CHARS :: int where
  "MAX_PROMPT_CHARS = 16000"

definition MAX_OUTPUT_CHARS :: int where
  "MAX_OUTPUT_CHARS = 20000"

section \<open>Patterns\<close>

definition injection_patterns :: "rx list" where
  "injection_patterns =
     [seqs [words_i [''ignore'', ''disregard'', ''forget'', ''override'', ''bypass''], gap 80,
            words_i [''previous'', ''prior'', ''above'', ''system'', ''developer'', ''original''], gap 40,
            plural_i [''instruction'', ''prompt'', ''message'', ''rule'']],
      seqs [words_i [''reveal'', ''show'', ''print'', ''repeat'', ''return'', ''expose''], gap 80,
            words_i [''system'', ''developer'', ''hidden'', ''initial''], gap 30,
            plural_i [''prompt'', ''message'', ''instruction'', ''secret'']],
      seqs [words_i [''follow'', ''obey''], gap 40,
            words_i [''these'', ''my'', ''the following'', ''new''], gap 20,
            plural_i [''instruction''], gap 20, words_i [''instead'']],
      seqs [words_i [''you are now'', ''act as''], gap 30,
            words_i [''system'', ''developer'', ''unrestricted'', ''jailbroken'']],
      alts [seqs [lit ''<'', spaces, opt (lit ''/''), spaces,
                  alts (map lit_i [''system'', ''assistant'', ''developer'']), spaces, lit ''>''],
            seqs [lit ''['', spaces, lit_i ''INST'', spaces, lit '']''],
            seqs [lit ''###'', spaces, alts (map lit_i [''system'', ''developer'', ''assistant''])]],
      seqs [words_i [''do not'', ''don't''], gap 40, words_i [''answer'', ''follow''], gap 40,
            seqs [WordB, alts [lit_i ''the user'', lit_i ''the question'',
                    Seq (lit_i ''system instruction'') (opt (lit_i ''s''))], WordB]]]"

definition unsafe_output_patterns :: "rx list" where
  "unsafe_output_patterns =
     [seqs [alts [Bos, lit [newline]], spaces, alts (map lit_i [''system'', ''developer'']),
            many1 (Chr SpaceC), alts (map lit_i [''prompt'', ''message'']), spaces, lit '':''],
      seqs [lit_i ''-----BEGIN '', opt (alts (map lit_i [''RSA '', ''EC '', ''OPENSSH ''])),
            lit_i ''PRIVATE KEY-----''],
      seqs [WordB, alts (map lit_i [''OPENAI'', ''OPENROUTER'', ''NAHAJ'']), lit_i ''_API_KEY'', spaces,
            alts [lit '':'', lit ''=''], spaces, many1 (Chr NotSpaceC)],
      seqs [WordB, lit_i ''sk-'', opt (lit_i ''proj-''), Rep (Chr KeyC) 16 None True, WordB],
      alts [seqs [lit ''<'', spaces, lit_i ''script'', WordB],
            seqs [lit_i ''javascript'', spaces, lit '':''],
            seqs [WordB, lit_i ''on'', many1 (Chr WordC), spaces, lit ''='']]]"

section \<open>Prompts\<close>

definition normalized :: "string \<Rightarrow> string" where
  "normalized s = s"

definition has_prompt_injection :: "string \<Rightarrow> bool" where
  "has_prompt_injection text =
     (let value = normalized text
      in MAX_PROMPT_CHARS < int (length value) \<or> list_ex (\<lambda>p. rx_search p value) injection_patterns)"

definition ensure_safe_prompt :: "string \<Rightarrow> string result" where
  "ensure_safe_prompt text =
     (let value = strip (normalized text)
      in if has_prompt_injection value then Inl PromptInjectionBlocked else Inr value)"

fun filter_retrieved_context :: "('c \<Rightarrow> string) \<Rightarrow> 'c list \<Rightarrow> 'c list \<times> nat" where
  \<comment> \<open>\<open>text_of chunk\<close> is \<open>chunk.get("text", "")\<close>\<close>
  "filter_retrieved_context text_of [] = ([], 0)"
| "filter_retrieved_context text_of (chunk # context) =
     (let (safe, blocked) = filter_retrieved_context text_of context
      in if has_prompt_injection (text_of chunk) then (safe, blocked + 1) else (chunk # safe, blocked))"

section \<open>Responses\<close>

definition printable :: "char \<Rightarrow> bool" where
  "printable c \<longleftrightarrow> code c = 10 \<or> code c = 9 \<or> 32 \<le> code c"

definition validate_final_response :: "string \<Rightarrow> string result" where
  "validate_final_response text =
     (let value = strip (filter printable (normalized text))
      in if value = [] then Inl (OutputValidationError ''The assistant response is empty.'')
         else if MAX_OUTPUT_CHARS < int (length value)
         then Inl (OutputValidationError ''The assistant response exceeds the configured limit.'')
         else if list_ex (\<lambda>p. rx_search p value) unsafe_output_patterns
         then Inl (OutputValidationError ''The assistant response contains restricted content.'')
         else Inr value)"

definition safe_final_response :: "string \<Rightarrow> string" where
  "safe_final_response text =
     (case validate_final_response text of Inl _ \<Rightarrow> UNSAFE_OUTPUT_MESSAGE | Inr v \<Rightarrow> v)"

definition safe_output :: "string \<Rightarrow> bool" where
  \<comment> \<open>what the validation promises of a released response\<close>
  "safe_output v \<longleftrightarrow> v \<noteq> [] \<and> int (length v) \<le> MAX_OUTPUT_CHARS \<and> list_all printable v \<and> strip v = v
     \<and> \<not> list_ex (\<lambda>p. rx_search p v) unsafe_output_patterns"

section \<open>Responses are safe\<close>

lemma validate_safe_output: "validate_final_response s = Inr v \<Longrightarrow> safe_output v"
  using set_strip [of "filter printable (normalized s)"]
  by (auto simp: validate_final_response_def safe_output_def Let_def list_all_iff split: if_splits)

lemma safe_output_validates: "safe_output v \<Longrightarrow> validate_final_response v = Inr v"
  by (simp add: safe_output_def validate_final_response_def normalized_def list_all_iff filter_id_conv [THEN iffD2])

lemma unsafe_message_safe: "safe_output UNSAFE_OUTPUT_MESSAGE"
proof -
  have "list_all (dead (remdups UNSAFE_OUTPUT_MESSAGE)) unsafe_output_patterns"
    by code_simp
  then have "\<not> list_ex (\<lambda>p. rx_search p UNSAFE_OUTPUT_MESSAGE) unsafe_output_patterns"
    by (rule dead_searches)
  moreover have "list_all printable UNSAFE_OUTPUT_MESSAGE" by code_simp
  moreover have "strip UNSAFE_OUTPUT_MESSAGE = UNSAFE_OUTPUT_MESSAGE" by code_simp
  moreover have "int (length UNSAFE_OUTPUT_MESSAGE) \<le> MAX_OUTPUT_CHARS" by code_simp
  ultimately show ?thesis by (simp add: safe_output_def UNSAFE_OUTPUT_MESSAGE_def)
qed

lemma safe_final_response_safe: "safe_output (safe_final_response s)"
  by (auto simp: safe_final_response_def unsafe_message_safe dest: validate_safe_output split: sum.splits)

section \<open>Prompts are checked\<close>

lemma ensure_safe_prompt_Inr:
  "ensure_safe_prompt s = Inr v \<longleftrightarrow> v = strip s \<and> \<not> has_prompt_injection v"
  by (auto simp: ensure_safe_prompt_def Let_def normalized_def)

lemma ensure_safe_prompt_idem: "ensure_safe_prompt s = Inr v \<Longrightarrow> ensure_safe_prompt v = Inr v"
  by (auto simp: ensure_safe_prompt_Inr)

lemma injection_patterns_anchor_free: "list_all anchor_free injection_patterns"
  by code_simp

lemma has_prompt_injection_matches:
  "has_prompt_injection s \<longleftrightarrow>
     MAX_PROMPT_CHARS < int (length s) \<or> (\<exists>p\<in>set injection_patterns. rx_matches p s)"
  by (simp add: has_prompt_injection_def normalized_def list_ex_iff rx_search_matches)

lemma has_prompt_injection_inside:
  assumes "has_prompt_injection s" and "quiet_left p" and "quiet_right q"
  shows "has_prompt_injection (p @ s @ q)"
proof (cases "MAX_PROMPT_CHARS < int (length s)")
  case True
  then show ?thesis by (simp add: has_prompt_injection_def normalized_def)
next
  case False
  then obtain r where r: "r \<in> set injection_patterns" "rx_search r s"
    using assms(1) by (auto simp: has_prompt_injection_def normalized_def list_ex_iff)
  then have "anchor_free r" using injection_patterns_anchor_free by (simp add: list_all_iff)
  then have "rx_search r (p @ s @ q)" using assms(2,3) r(2) by (intro rx_search_inside)
  then show ?thesis using r(1) by (auto simp: has_prompt_injection_def normalized_def list_ex_iff)
qed

lemma filter_retrieved_context_eq:
  "filter_retrieved_context f cs =
     (filter (\<lambda>c. \<not> has_prompt_injection (f c)) cs, length (filter (\<lambda>c. has_prompt_injection (f c)) cs))"
  by (induction f cs rule: filter_retrieved_context.induct) auto

section \<open>The guard as an interface\<close>

text \<open>
  What the agents rely on: a check that admits a prompt only in its safe form, and a filter
  whose output is always releasable. The agents' lemmas are proved inside the locale.
\<close>

locale guard =
  fixes admit :: "string \<Rightarrow> string result"
    and release :: "string \<Rightarrow> string"
    and harmless :: "string \<Rightarrow> bool"
    and releasable :: "string \<Rightarrow> bool"
  assumes admit_harmless: "admit s = Inr v \<Longrightarrow> harmless v"
    and admit_idem: "admit s = Inr v \<Longrightarrow> admit v = Inr v"
    and release_releasable: "releasable (release s)"
    and releasable_fixed: "releasable v \<Longrightarrow> release v = v"
begin

lemma release_idem: "release (release s) = release s"
  by (rule releasable_fixed) (rule release_releasable)

lemma admit_twice: "bind_res (admit s) admit = admit s"
  by (cases "admit s") (auto dest: admit_idem)

end

interpretation gr: guard ensure_safe_prompt safe_final_response "\<lambda>v. \<not> has_prompt_injection v" safe_output
proof unfold_locales
  fix s v
  show "ensure_safe_prompt s = Inr v \<Longrightarrow> \<not> has_prompt_injection v"
    and "ensure_safe_prompt s = Inr v \<Longrightarrow> ensure_safe_prompt v = Inr v"
    by (auto simp: ensure_safe_prompt_Inr)
  show "safe_output (safe_final_response s)" by (rule safe_final_response_safe)
  show "safe_output v \<Longrightarrow> safe_final_response v = v"
    by (simp add: safe_final_response_def safe_output_validates)
qed


section \<open>Properties\<close>


text \<open>C19 (safety): an instruction-hijacking phrase is still detected when it is embedded in other text
  that ends and begins at a word boundary: no surrounding text hides it, and such a prompt is refused.\<close>

theorem injection_not_hidden:
  assumes "has_prompt_injection s" and "quiet_left p" and "quiet_right q"
  shows "has_prompt_injection (p @ s @ q)"
  by (rule has_prompt_injection_inside [OF assms])

theorem injection_not_hidden_witness:
  "has_prompt_injection (''Hello. '' @ ''act as system'' @ ''. Thanks'')"
proof (rule injection_not_hidden)
  show "has_prompt_injection ''act as system''" by code_simp
  show "quiet_left ''Hello. ''" "quiet_right ''. Thanks''" by code_simp+
qed

end
