(* ===== verification/Model.thy ===== *)
theory Model
  imports Guardrails PyVal
begin

text \<open>
  The language model as the agents see it: a list of role and content pairs goes in, a completion
  comes out or an exception is raised. The model is a parameter of every agent. \<open>_model_text\<close> and
  \<open>_conversation\<close> of \<open>backend/agents.py\<close> read completions and earlier turns.
\<close>

type_synonym message = "string \<times> string"   \<comment> \<open>role and content\<close>

text \<open>A completion is a mapping, an object with a \<open>content\<close>, or the content itself.\<close>

datatype reply = Mapping_reply pydict | Object_reply pyval | Plain_reply pyval

type_synonym chat = "message list \<Rightarrow> reply result"

definition part_text :: "pyval \<Rightarrow> string" where
  "part_text item = (case item of VDict d \<Rightarrow> py_str (vget_default d ''text'' (VDict d)) | v \<Rightarrow> py_str v)"

definition model_text :: "reply \<Rightarrow> string" where
  "model_text response =
     (let content = (case response of Mapping_reply d \<Rightarrow> vget d ''content'' | Object_reply v \<Rightarrow> v | Plain_reply v \<Rightarrow> v)
      in case content of VList items \<Rightarrow> concat (map part_text items) | v \<Rightarrow> py_str v)"

definition conversation :: "pyval \<Rightarrow> pyval" where
  "conversation history =
     VList (map (\<lambda>turn. VDict
         [(''role'', VStr (py_str (py_or (vget turn ''role'') (VStr ''user'')))),
          (''content'', VStr (str_or_empty (vget turn ''content'')))])
       (filter (\<lambda>turn. strip (str_or_empty (vget turn ''content'')) \<noteq> []) (dicts_of (py_iter history))))"

definition system_user :: "string \<Rightarrow> string \<Rightarrow> message list" where
  "system_user instructions content = [(''system'', instructions), (''user'', content)]"

definition tagged :: "string \<Rightarrow> string \<Rightarrow> string" where
  \<comment> \<open>\<open>f"<tag>{s}</tag>"\<close>\<close>
  "tagged tag s = ''<'' @ tag @ ''>'' @ s @ ''</'' @ tag @ ''>''"

definition invoke_safely :: "chat \<Rightarrow> message list \<Rightarrow> string result" where
  \<comment> \<open>\<open>safe_final_response(_model_text(model.invoke(messages)))\<close>\<close>
  "invoke_safely model messages =
     bind_res (model messages) (\<lambda>response. Inr (safe_final_response (model_text response)))"

lemma invoke_safely_safe: "invoke_safely model messages = Inr v \<Longrightarrow> safe_output v"
  by (cases "model messages") (auto simp: invoke_safely_def safe_final_response_safe)

end
