(* ===== verification/PlanProperties.thy ===== *)
theory PlanProperties
  imports Plan
begin

text \<open>
  What a whole plan promises, from the state the planner reads to the result the other agents
  see: the daily limit, the totals, the reported horizon, the revision report and the condition
  under which a draft is produced at all. The lemmas these rest on are in \<open>Scheduler\<close> and
  \<open>Plan\<close>.
\<close>

text \<open>C12 (safety): the schedule a plan shows keeps the daily limit it reports. With a semester end date and
  dates at least four years before the year 9999, and at most 366 full days' worth of sessions, no day
  of the schedule has more sessions than \<open>sessions_per_day\<close>, and that is at most eight.\<close>

theorem plan_keeps_daily_limit:
  assumes "pw_end (window_of st today current) = Some e"
    and "dates_within B (pw_from (window_of st today current)) e (plan_candidates st (window_of st today current))"
    and "int (length (pr_schedule (fst (plan llm st today current request))))
      \<le> 366 * dr_sessions_per_day (pr_design (fst (plan llm st today current request)))"
  shows "(\<forall>day. int (count_list (map (\<lambda>v. py_str (vget v ''date'')) (pr_schedule (fst (plan llm st today current request)))) day)
      \<le> dr_sessions_per_day (pr_design (fst (plan llm st today current request))))
    \<and> dr_sessions_per_day (pr_design (fst (plan llm st today current request))) \<le> 8"
proof -
  let ?w = "window_of st today current"
  define p where "p = snd (plan_placement llm st ?w request)"
  define ss where "ss = d_sessions (fst (plan_placement llm st ?w request))"
  note d = placement_fields [of llm st ?w request, folded p_def ss_def]
  obtain e' where e': "pm_window_end p = Some e'" "ordinal e' \<le> ordinal e"
    using d(2) assms(1) by (cases "pm_horizon p") (auto simp: window_end_of_def date_simps min_def)
  have within: "dates_within B (pw_from ?w) e' (pm_in_scope p)"
    unfolding d(1) by (rule dates_within_subset [OF assms(2) apply_scope_subset e'(2)])
  have cap: "1 \<le> pm_capacity p \<and> pm_capacity p \<le> 8"
    unfolding d(4) by (rule design_capacity_bounds)
  note f = plan_fields(5) [where llm = llm and st = st and today = today and current = current and request = request, folded p_def]
  note rows = plan_rows [where llm = llm and st = st and today = today and current = current and request = request, folded p_def]
  obtain load where pl: "placed (pm_capacity p) (pw_from ?w) (B + 1462) load (pm_sessions p)"
    using schedule_sessions_placed [OF within, of "pm_capacity p" ss] cap
    unfolding d(3) planned_sessions_def e'(1)
    by (cases "schedule_sessions ss (pm_in_scope p) (pw_from ?w) (Some e') (pm_capacity p)") auto
  have "int (count_list (map s_day (pm_sessions p)) day) \<le> pm_capacity p" for day
    by (rule placed_daily_limit [OF pl]) (use dates_withinD [OF within] cap assms(3) f rows(3) in auto)
  then show ?thesis
    unfolding f using cap count_list_mset [OF rows(1)] by simp
qed

definition example_state :: plan_state where
  "example_state =
     \<lparr>ps_semester = VDict [(''start_date'', VStr ''2026-02-01''), (''end_date'', VStr ''2026-06-01'')],
      ps_courses = VList [VDict [(''course_name'', VStr ''Algorithms''),
        (''materials'', VList [VDict [(''title'', VStr ''Heaps''), (''page_count'', VInt 20)]])]]\<rparr>"

definition example_work :: candidate where
  "example_work =
     \<lparr>c_id = ''c1'', c_course_index = 0, c_course = ''Algorithms'', c_title = ''Study Heaps'',
      c_description = ''Review the Heaps course material (20 pages).'', c_deadline = Some (Date 739768),
      c_reason = ''material_not_completed'', c_mastery = None, c_length = Some 20, c_effort = 2,
      c_priority = None\<rparr>"

theorem plan_keeps_daily_limit_witness:
  "\<forall>day. int (count_list (map (\<lambda>v. py_str (vget v ''date''))
      (pr_schedule (fst (plan None example_state (VStr ''2026-02-03'') (Date 739600) [])))) day) \<le> 2"
proof -
  define w where "w = window_of example_state (VStr ''2026-02-03'') (Date 739600)"
  have w: "w = \<lparr>pw_today = Date 739650, pw_start = Date 739648, pw_end = Some (Date 739768), pw_from = Date 739650\<rparr>"
    unfolding w_def by code_simp
  have "g_candidates (collect_candidates (course_list example_state) (Some (Date 739768))) = [example_work]"
    by code_simp
  then have "plan_candidates example_state w = [score (Date 739650) example_work]"
    by (simp add: plan_candidates_def scored_def w)
  then obtain p where work: "plan_candidates example_state w = [example_work\<lparr>c_priority := p\<rparr>]"
    by (simp add: score_def)
  have e: "pw_end w = Some (Date 739768)" by (simp add: w)
  have within: "dates_within 739768 (pw_from w) (Date 739768) (plan_candidates example_state w)"
    unfolding work unfolding w by code_simp
  have d: "design_schedule None brief = empty_design" for brief
    by (simp add: design_schedule_def)
  have "length (pm_sessions (place_work empty_design (plan_candidates example_state w) w
      (capacity_of (semester_of example_state)))) = 2"
    unfolding work unfolding w by code_simp
  moreover have "pm_capacity (place_work empty_design (plan_candidates example_state w) w
      (capacity_of (semester_of example_state))) = 2"
    unfolding work unfolding w by code_simp
  ultimately show ?thesis
    using plan_keeps_daily_limit [OF e [unfolded w_def] within [unfolded w_def], of None "[]"]
    by (simp add: plan_rows(3) plan_fields(5) plan_placement_def Let_def d w_def)
qed

text \<open>The totals a plan reports agree: as many tasks over all courses and as many rows of
  the schedule as sessions placed, and one updated course per course read.\<close>

theorem plan_totals_agree:
  "pr_total_tasks (fst (plan llm st today current request)) = pr_total_sessions (fst (plan llm st today current request))
   \<and> length (pr_schedule (fst (plan llm st today current request))) = pr_total_sessions (fst (plan llm st today current request))
   \<and> length (pr_courses (fst (plan llm st today current request))) = length (course_list st)"
  using plan_rows(2,3) [of llm st today current request] plan_fields(3,4) [of llm st today current request] by simp

text \<open>\<open>horizon_met\<close> is truthful: a plan with a horizon reports it met exactly when every row of
  its schedule is dated on or before that day.\<close>

theorem horizon_met_truthful:
  assumes "dr_horizon (pr_design (fst (plan llm st today current request))) = Some h"
  shows "dr_horizon_met (pr_design (fst (plan llm st today current request)))
    = Some (list_all (\<lambda>v. py_str (vget v ''date'') \<le> iso_of_date h) (pr_schedule (fst (plan llm st today current request))))"
proof -
  let ?p = "snd (plan_placement llm st (window_of st today current) request)"
  have "set (map (\<lambda>v. py_str (vget v ''date'')) (pr_schedule (fst (plan llm st today current request)))) = set (map s_day (pm_sessions ?p))"
    by (rule mset_eq_setD) (rule plan_rows(1))
  then have "(\<forall>t\<in>set (map (\<lambda>v. py_str (vget v ''date'')) (pr_schedule (fst (plan llm st today current request)))). t \<le> iso_of_date h)
      \<longleftrightarrow> (\<forall>t\<in>set (map s_day (pm_sessions ?p)). t \<le> iso_of_date h)"
    by (simp only:)
  then show ?thesis
    using assms plan_fields(6,7) [of llm st today current request] by (simp add: list_all_iff)
qed

definition horizon_planner :: planner where
  "horizon_planner = Some (\<lambda>_. Inr (empty_design\<lparr>d_horizon := ''2026-02-20''\<rparr>))"

theorem horizon_met_truthful_witness:
  "dr_horizon_met (pr_design (fst (plan horizon_planner example_state (VStr ''2026-02-03'') (Date 739600) [])))
    = Some (list_all (\<lambda>v. py_str (vget v ''date'') \<le> iso_of_date (Date 739667))
        (pr_schedule (fst (plan horizon_planner example_state (VStr ''2026-02-03'') (Date 739600) []))))"
proof (rule horizon_met_truthful)
  let ?w = "window_of example_state (VStr ''2026-02-03'') (Date 739600)"
  have d: "design_schedule horizon_planner brief = empty_design\<lparr>d_horizon := ''2026-02-20''\<rparr>" for brief
    by (simp add: design_schedule_def horizon_planner_def)
  have "horizon_of (empty_design\<lparr>d_horizon := ''2026-02-20''\<rparr>) (pw_from ?w) = Some (Date 739667)"
    by code_simp
  then show "dr_horizon (pr_design (fst (plan horizon_planner example_state (VStr ''2026-02-03'') (Date 739600) [])))
      = Some (Date 739667)"
    by (simp add: plan_fields plan_placement_def place_work_def Let_def d)
qed

text \<open>The revision report partitions the tasks: the titles of the new plan are kept,
  rescheduled or added, and the titles of the old plan are kept, rescheduled or dropped.\<close>

theorem revision_partitions:
  "rv_kept (revise previous current) + rv_rescheduled (revise previous current) + rv_added (revise previous current)
     = length (index_tasks current)
   \<and> rv_kept (revise previous current) + rv_rescheduled (revise previous current) + rv_dropped (revise previous current)
     = length (index_tasks previous)"
  by (rule revise_counts)

text \<open>No plan is drafted while information is missing: \<open>prepare_plan\<close> returns a draft exactly when the
  state, with the answers applied, has both semester dates, a course, and a date for every titled deadline.\<close>

theorem draft_needs_dates:
  "(\<exists>r. fst (prepare_plan llm st today current answers request) = Draft r) =
     (\<exists>st'. st' = (if answers \<noteq> [] then apply_answers answers st else st)
       \<and> parse_date (vget (semester_of st') ''start_date'') \<noteq> None \<and> parse_date (vget (semester_of st') ''end_date'') \<noteq> None
       \<and> course_list st' \<noteq> [] \<and> list_all (\<lambda>course. undated_deadlines course = []) (course_list st'))"
  using missing_information_Nil [of "if answers \<noteq> [] then apply_answers answers st else st"]
  by (auto simp: prepare_plan_def Let_def course_list_def list_all_iff split: prod.splits)

end
