(* ===== verification/RagIngestion.thy ===== *)
theory RagIngestion
  imports Guardrails PyVal
begin

text \<open>
  \<open>backend/rag_ingestion.py\<close>: reading one course document, cutting it into sections and
  overlapping word windows, and replacing its rows in the course's Chroma collection.
  Chroma and the file readers (pypdf, zip and XML) are not under the repository: a collection
  is a parameter (\<open>chroma\<close>, with the documented behaviour of \<open>delete\<close> and \<open>upsert\<close> as the
  hypothesis \<open>chroma_laws\<close>), and so is the text extracted from a file.
\<close>

section \<open>Names and settings\<close>

record ingestor =
  chunk_size :: int
  chunk_overlap :: int

definition make_ingestor :: "int \<Rightarrow> int \<Rightarrow> ingestor result" where
  "make_ingestor sz overlap =
     (if sz < 1 then Inl (ValueError ''chunk_size must be positive'')
      else if overlap < 0 \<or> sz \<le> overlap
      then Inl (ValueError ''chunk_overlap must be between 0 and chunk_size - 1'')
      else Inr \<lparr>chunk_size = sz, chunk_overlap = overlap\<rparr>)"

definition default_ingestor :: ingestor where
  "default_ingestor = \<lparr>chunk_size = 400, chunk_overlap = 50\<rparr>"

definition name_char :: "char \<Rightarrow> bool" where
  \<comment> \<open>\<open>[A-Za-z0-9_-]\<close>\<close>
  "name_char c \<longleftrightarrow> is_word c \<or> c = CHR ''-''"

definition strip_chars :: "char list \<Rightarrow> string \<Rightarrow> string" where
  \<comment> \<open>\<open>s.strip(chars)\<close>\<close>
  "strip_chars cs s = rev (dropWhile (\<lambda>c. c \<in> set cs) (rev (dropWhile (\<lambda>c. c \<in> set cs) s)))"

definition collection_name :: "string \<Rightarrow> string" where
  "collection_name course_id =
     (let t = strip_chars ''-_'' (map (\<lambda>c. if name_char c then c else CHR ''-'') course_id)
      in ''course-'' @ (if t = [] then ''course'' else t))"

definition exam_collections :: "string list" where
  "exam_collections = [''exam'', ''exams'', ''old_exam'', ''old_exams'', ''past_exam'', ''past_exams'']"

definition is_exam :: "pydict \<Rightarrow> bool" where
  "is_exam document =
     (let c = replace_all '' '' ''_'' (replace_all ''-'' ''_''
                (casefold (strip (py_str (vget_default document ''collection'' (VStr [])))))) 
      in truthy (vget document ''is_exam'') \<or> c \<in> set exam_collections)"

section \<open>Reading a document\<close>

fun first_truthy :: "pydict \<Rightarrow> string list \<Rightarrow> pyval" where
  \<comment> \<open>\<open>d.get(k1) or d.get(k2) or ...\<close>\<close>
  "first_truthy d [] = VNone"
| "first_truthy d [k] = vget d k"
| "first_truthy d (k # ks) = py_or (vget d k) (first_truthy d ks)"

definition inline_text :: "pyval \<Rightarrow> string" where
  "inline_text v = (case v of VList xs \<Rightarrow> join [newline] (map py_str xs) | _ \<Rightarrow> py_str v)"

definition read_document :: "(string \<Rightarrow> string) \<Rightarrow> pydict \<Rightarrow> string" where
  \<comment> \<open>\<open>file_text path\<close> is the text of the file, empty where it is missing or unreadable\<close>
  "read_document file_text document =
     (let v = first_truthy document [''text'', ''content'', ''body'', ''raw_text'']
      in if truthy v then inline_text v
         else let path = first_truthy document [''path'', ''stored_path'', ''file_path'']
              in if truthy path then file_text (py_str path) else [])"

section \<open>Sections\<close>

definition heading_rx :: rx where
  \<comment> \<open>\<open>^(?:#{1,6}\s+|\d+(?:\.\d+)*[.)]?\s+)\<close>\<close>
  "heading_rx =
     Seq Bos (alts [Seq (Rep (Chr (One (CHR ''#''))) 1 (Some 6) True) (many1 (Chr SpaceC)),
       seqs [many1 (Chr DigitC), many (Seq (Chr (One (CHR ''.''))) (many1 (Chr DigitC))),
             opt (alts [lit ''.'', lit '')'']), many1 (Chr SpaceC)]])"

definition is_heading :: "string \<Rightarrow> bool" where
  "is_heading line =
     (if line = [] then False
      else if rx_at heading_rx line 0 \<noteq> None then True
      else length line \<le> 100 \<and> 1 \<le> length (words line) \<and> length (words line) \<le> 12 \<and> isupper line)"

record section_state =
  sec_title :: string
  sec_lines :: "string list"
  sec_done :: "(string \<times> string) list"

definition flush :: "section_state \<Rightarrow> section_state" where
  "flush st =
     (let body = strip (join [newline] (sec_lines st))
      in if body = [] then st else st\<lparr>sec_done := sec_done st @ [(sec_title st, body)]\<rparr>)"

definition section_line :: "section_state \<Rightarrow> string \<Rightarrow> section_state" where
  "section_line st line =
     (let stripped = strip line
      in if is_heading stripped then
           (let t = strip (rx_delete heading_rx stripped)
            in (flush st)\<lparr>sec_title := (if t = [] then stripped else t), sec_lines := []\<rparr>)
         else st\<lparr>sec_lines := sec_lines st @ [stripped]\<rparr>)"

definition sectionise :: "string \<Rightarrow> (string \<times> string) list" where
  "sectionise text =
     sec_done (flush (foldl section_line \<lparr>sec_title = ''General'', sec_lines = [], sec_done = []\<rparr>
       (splitlines text)))"

definition normalise_section :: "pyval \<Rightarrow> string \<times> string" where
  "normalise_section section =
     (case section of
        VDict d \<Rightarrow>
          (py_str (py_or (py_or (vget d ''title'') (vget d ''heading'')) (VStr ''General'')),
           str_or_empty (py_or (vget d ''text'') (vget d ''content'')))
      | v \<Rightarrow> (''General'', py_str v))"

definition normalise_sections :: "pyval list \<Rightarrow> (string \<times> string) list" where
  "normalise_sections sections =
     filter (\<lambda>(title, text). strip text \<noteq> [] \<or> title \<noteq> ''General'') (map normalise_section sections)"

section \<open>Chunks\<close>

function chunk_windows :: "nat \<Rightarrow> nat \<Rightarrow> string list \<Rightarrow> nat \<Rightarrow> string list" where
  \<comment> \<open>the loop over \<open>range(0, len(words), step)\<close> with its \<open>break\<close>\<close>
  "chunk_windows sz step ws start =
     (if start < length ws \<and> 0 < step then
        (let piece = strip (join '' '' (take sz (drop start ws)));
             rest = (if length ws \<le> start + sz then [] else chunk_windows sz step ws (start + step))
         in if 8 \<le> length (words piece) then piece # rest else rest)
      else [])"
  by pat_completeness auto
termination
  by (relation "measure (\<lambda>(sz, step, ws, start). length ws - start)") auto

declare chunk_windows.simps [simp del]

definition chunk_section :: "ingestor \<Rightarrow> string \<Rightarrow> string \<Rightarrow> string list" where
  "chunk_section ing title text =
     (let ws = words (join '' '' (words text));
          ws = (if title \<noteq> ''General'' then title # ws else ws)
      in if ws = [] then []
         else chunk_windows (nat (chunk_size ing)) (nat (chunk_size ing - chunk_overlap ing)) ws 0)"

section \<open>The collection\<close>

record row =
  row_id :: string
  row_doc :: string
  row_course :: string
  row_filename :: string
  row_section :: string
  row_collection :: string
  row_index :: nat
  row_text :: string

record 'c chroma =
  ch_new :: 'c
  ch_delete :: "string \<Rightarrow> 'c \<Rightarrow> 'c"       \<comment> \<open>\<open>delete(where={"document_id": d})\<close>\<close>
  ch_upsert :: "row list \<Rightarrow> 'c \<Rightarrow> 'c"
  ch_rows :: "'c \<Rightarrow> row set"

text \<open>
  The documented behaviour of Chroma: a new collection is empty, \<open>delete\<close> removes the rows
  whose metadata match, \<open>upsert\<close> replaces the rows with the given ids and adds the others.
\<close>

definition chroma_laws :: "'c chroma \<Rightarrow> bool" where
  "chroma_laws ch \<longleftrightarrow>
     ch_rows ch (ch_new ch) = {}
   \<and> (\<forall>d c. ch_rows ch (ch_delete ch d c) = {r \<in> ch_rows ch c. row_doc r \<noteq> d})
   \<and> (\<forall>rs c. distinct (map row_id rs) \<longrightarrow>
        ch_rows ch (ch_upsert ch rs c) = {r \<in> ch_rows ch c. row_id r \<notin> row_id ` set rs} \<union> set rs)"

record ingest_result =
  ir_collection :: "string option"
  ir_chunks :: nat
  ir_skipped :: bool

type_synonym 'c collections = "(string, 'c) dict"

definition document_id_of :: "pydict \<Rightarrow> string" where
  "document_id_of document =
     py_str (py_or (py_or (py_or (vget document ''id'') (vget document ''document_id''))
       (vget document ''filename'')) (VStr ''document''))"

definition chunk_id :: "string \<Rightarrow> nat \<Rightarrow> string" where
  "chunk_id document_id index = document_id @ '':'' @ nat_str index"

definition make_rows :: "pydict \<Rightarrow> (string \<times> string) list \<Rightarrow> row list" where
  "make_rows document chunks =
     map (\<lambda>(index, title, piece).
       \<lparr>row_id = chunk_id (document_id_of document) index, row_doc = document_id_of document,
        row_course = py_str (vget document ''course_id''),
        row_filename = py_str (py_or (vget document ''filename'') (VStr ''Course material'')),
        row_section = title,
        row_collection = py_str (py_or (vget document ''collection'') (VStr ''course_material'')),
        row_index = index, row_text = piece\<rparr>)
       (enumerate_from 0 chunks)"

definition document_chunks :: "ingestor \<Rightarrow> (string \<Rightarrow> string) \<Rightarrow> pydict \<Rightarrow> (string \<times> string) list" where
  "document_chunks ing file_text document =
     (let text = read_document file_text document;
          sections = (if truthy (vget document ''sections'')
                      then normalise_sections (py_iter (vget document ''sections''))
                      else sectionise text)
      in concat (map (\<lambda>(title, body). map (Pair title) (chunk_section ing title body)) sections))"

definition ingest_document ::
  "'c chroma \<Rightarrow> ingestor \<Rightarrow> (string \<Rightarrow> string) \<Rightarrow> pydict \<Rightarrow> 'c collections \<Rightarrow>
     (ingest_result \<times> 'c collections) result"
where
  "ingest_document ch ing file_text document store =
     (if is_exam document then Inr (\<lparr>ir_collection = None, ir_chunks = 0, ir_skipped = True\<rparr>, store)
      else if \<not> truthy (vget document ''course_id'')
      then Inl (ValueError ''course_id is required for ingestion'')
      else
        let name = collection_name (py_str (vget document ''course_id''));
            chunks = document_chunks ing file_text document;
            collection = dict_get store name (ch_new ch);
            emptied = ch_delete ch (document_id_of document) collection
        in if chunks = [] then
             Inr (\<lparr>ir_collection = Some name, ir_chunks = 0, ir_skipped = False\<rparr>, dict_set name emptied store)
           else
             Inr (\<lparr>ir_collection = Some name, ir_chunks = length chunks, ir_skipped = False\<rparr>,
                  dict_set name (ch_upsert ch (make_rows document chunks) emptied) store))"

definition remove_document :: "'c chroma \<Rightarrow> string \<Rightarrow> string \<Rightarrow> 'c collections \<Rightarrow> 'c collections" where
  "remove_document ch course_id document_id store =
     (case map_of store (collection_name course_id) of
        None \<Rightarrow> store
      | Some c \<Rightarrow> dict_set (collection_name course_id) (ch_delete ch document_id c) store)"

definition stored_rows :: "'c chroma \<Rightarrow> string \<Rightarrow> 'c collections \<Rightarrow> row set" where
  "stored_rows ch name store = (case map_of store name of None \<Rightarrow> {} | Some c \<Rightarrow> ch_rows ch c)"

section \<open>Windows cover the words\<close>

lemma words_join_take:
  "\<forall>w\<in>set ws. is_token w \<Longrightarrow> words (join '' '' (take n (drop s ws))) = take n (drop s ws)"
  by (rule words_join) (meson in_set_dropD in_set_takeD)

lemma is_token_ends: "is_token w \<Longrightarrow> \<not> is_space (hd w) \<and> \<not> is_space (last w)"
  by (cases w) (auto simp: is_token_def)

lemma last_join: "ws \<noteq> [] \<Longrightarrow> \<forall>w\<in>set ws. is_token w \<Longrightarrow> join sep ws \<noteq> [] \<and> last (join sep ws) = last (last ws)"
proof (induction sep ws rule: join.induct)
  case (3 sep x y ys)
  then have "join sep (y # ys) \<noteq> []" "last (join sep (y # ys)) = last (last (y # ys))" by auto
  then show ?case by simp
qed (auto simp: is_token_def)

lemma hd_join: "ws \<noteq> [] \<Longrightarrow> \<forall>w\<in>set ws. is_token w \<Longrightarrow> hd (join sep ws) = hd (hd ws)"
  by (induction sep ws rule: join.induct) (auto simp: is_token_def)

lemma strip_join: "\<forall>w\<in>set ws. is_token w \<Longrightarrow> strip (join '' '' ws) = join '' '' ws"
proof (cases "ws = []")
  case False
  assume t: "\<forall>w\<in>set ws. is_token w"
  have "\<not> is_space (hd (join '' '' ws))"
    using hd_join [OF False t] is_token_ends [of "hd ws"] t False by simp
  moreover have "\<not> is_space (last (join '' '' ws))"
    using last_join [OF False t] is_token_ends [of "last ws"] t False by simp
  ultimately show "strip (join '' '' ws) = join '' '' ws" by (intro strip_eqI) simp
qed simp

definition window :: "nat \<Rightarrow> string list \<Rightarrow> nat \<Rightarrow> string" where
  "window sz ws start = join '' '' (take sz (drop start ws))"

lemma words_window:
  "\<forall>w\<in>set ws. is_token w \<Longrightarrow> words (window sz ws start) = take sz (drop start ws)"
  by (simp add: window_def words_join_take)

lemma chunk_windows_step:
  assumes "\<forall>w\<in>set ws. is_token w"
  shows "chunk_windows sz step ws start =
    (if start < length ws \<and> 0 < step then
       (if 8 \<le> min (length ws - start) sz then [window sz ws start] else []) @
       (if length ws \<le> start + sz then [] else chunk_windows sz step ws (start + step))
     else [])"
proof -
  have tok: "\<forall>w\<in>set (take sz (drop start ws)). is_token w"
    using assms by (meson in_set_dropD in_set_takeD)
  have "strip (join '' '' (take sz (drop start ws))) = window sz ws start"
    using strip_join [OF tok] by (simp add: window_def)
  moreover have "length (words (window sz ws start)) = min (length ws - start) sz"
    using words_window [OF assms] by simp
  ultimately show ?thesis
    by (subst chunk_windows.simps) (simp add: Let_def)
qed

text \<open>Every chunk is the window of the words at its start, with at least eight words.\<close>

lemma chunk_windows_from:
  assumes "\<forall>w\<in>set ws. is_token w" and "c \<in> set (chunk_windows sz step ws start)"
  shows "\<exists>k\<ge>start. c = window sz ws k \<and> k < length ws \<and> 8 \<le> min (length ws - k) sz"
  using assms
proof (induction sz step ws start rule: chunk_windows.induct)
  case (1 sz step ws start)
  note tok = "1.prems"(1)
  have unf: "c \<in> set (if start < length ws \<and> 0 < step then
       (if 8 \<le> min (length ws - start) sz then [window sz ws start] else []) @
       (if length ws \<le> start + sz then [] else chunk_windows sz step ws (start + step))
     else [])"
    using "1.prems"(2) chunk_windows_step [OF tok, of sz step start] by simp
  then have g: "start < length ws" "0 < step"
    by (auto split: if_splits)
  show ?case
  proof (cases "c = window sz ws start \<and> 8 \<le> min (length ws - start) sz")
    case True
    then show ?thesis using g by blast
  next
    case False
    have later: "\<not> length ws \<le> start + sz" "c \<in> set (chunk_windows sz step ws (start + step))"
      using unf False by (auto split: if_splits)
    have "\<exists>k\<ge>start + step. c = window sz ws k \<and> k < length ws \<and> 8 \<le> min (length ws - k) sz"
      using "1.IH" g later tok by blast
    then obtain k where "start + step \<le> k" "c = window sz ws k" "k < length ws" "8 \<le> min (length ws - k) sz"
      by blast
    then show ?thesis by (intro exI [of _ k]) simp
  qed
qed

text \<open>When neighbouring windows share at least seven words, no word is lost.\<close>

lemma chunk_windows_cover:
  assumes "\<forall>w\<in>set ws. is_token w" and "0 < step" and "step + 7 \<le> sz"
    and "8 \<le> length ws - start" and "start \<le> i" and "i < length ws"
  shows "\<exists>k. window sz ws k \<in> set (chunk_windows sz step ws start) \<and> k \<le> i \<and> i < k + sz"
  using assms
proof (induction sz step ws start rule: chunk_windows.induct)
  case (1 sz step ws start)
  note unf = chunk_windows_step [OF "1.prems"(1), of sz step start]
  have here: "window sz ws start \<in> set (chunk_windows sz step ws start)"
    using "1.prems" unf by simp
  show ?case
  proof (cases "i < start + sz")
    case True
    then show ?thesis using here "1.prems" by blast
  next
    case False
    have "\<exists>k. window sz ws k \<in> set (chunk_windows sz step ws (start + step)) \<and> k \<le> i \<and> i < k + sz"
      by (rule "1.IH") (use "1.prems" False in auto)
    moreover have "set (chunk_windows sz step ws (start + step)) \<subseteq> set (chunk_windows sz step ws start)"
      using "1.prems" False unf by (simp add: subset_insertI)
    ultimately show ?thesis by blast
  qed
qed

lemma words_words: "words (join '' '' (words text)) = words text"
  by (rule words_join) (simp add: words_tokens)

lemma chunk_section_windows:
  assumes "c \<in> set (chunk_section ing ''General'' text)"
  shows "\<exists>k < length (words text). words c = take (nat (chunk_size ing)) (drop k (words text)) \<and> 8 \<le> length (words c)"
proof -
  have tok: "\<forall>w\<in>set (words text). is_token w" by (simp add: words_tokens)
  have "c \<in> set (chunk_windows (nat (chunk_size ing)) (nat (chunk_size ing - chunk_overlap ing)) (words text) 0)"
    using assms by (simp add: chunk_section_def words_words Let_def split: if_splits)
  from chunk_windows_from [OF tok this] show ?thesis
    using words_window [OF tok] by auto
qed

lemma chunk_section_cover:
  assumes "7 \<le> chunk_overlap ing" and "chunk_overlap ing < chunk_size ing"
    and "8 \<le> length (words text)" and "i < length (words text)"
  shows "\<exists>c\<in>set (chunk_section ing ''General'' text). \<exists>k\<le>i.
    i < k + nat (chunk_size ing) \<and> words c = take (nat (chunk_size ing)) (drop k (words text))"
proof -
  have tok: "\<forall>w\<in>set (words text). is_token w" by (simp add: words_tokens)
  have "chunk_section ing ''General'' text =
     chunk_windows (nat (chunk_size ing)) (nat (chunk_size ing - chunk_overlap ing)) (words text) 0"
    using assms(3) by (auto simp: chunk_section_def words_words Let_def)
  moreover have "\<exists>k. window (nat (chunk_size ing)) (words text) k
      \<in> set (chunk_windows (nat (chunk_size ing)) (nat (chunk_size ing - chunk_overlap ing)) (words text) 0)
      \<and> k \<le> i \<and> i < k + nat (chunk_size ing)"
    using chunk_windows_cover [OF tok, of "nat (chunk_size ing - chunk_overlap ing)" "nat (chunk_size ing)" 0 i] assms
    by auto
  ultimately show ?thesis using words_window [OF tok] by metis
qed


section \<open>Rows of the collection\<close>

lemma nat_str_no_colon: "CHR '':'' \<notin> set (nat_str n)"
proof (induction n rule: nat_str.induct)
  case (1 n)
  have d: "CHR '':'' \<noteq> digit_char d" if "d < 10" for d
  proof
    assume "CHR '':'' = digit_char d"
    then have "is_digit (CHR '':'')" using digit_char_props(1) [OF that] by simp
    then show False by (simp add: is_digit_def code_def)
  qed
  have m: "n mod 10 < 10" by simp
  show ?case
  proof (cases "n < 10")
    case True
    then show ?thesis using d [OF True] by (subst nat_str.simps) simp
  next
    case False
    then show ?thesis using d [OF m] "1.IH" by (subst nat_str.simps) simp
  qed
qed

lemma takeWhile_last_colon: "CHR '':'' \<notin> set s \<Longrightarrow> takeWhile (\<lambda>c. c \<noteq> CHR '':'') (rev (d @ '':'' @ s)) = rev s"
  by (induction s rule: rev_induct) (auto simp: takeWhile_append2 takeWhile_tail)

lemma colon_split_unique:
  assumes "d @ '':'' @ s = d' @ '':'' @ s'" and "CHR '':'' \<notin> set s" and "CHR '':'' \<notin> set s'"
  shows "d = d' \<and> s = s'"
proof -
  have "rev s = rev s'"
    using takeWhile_last_colon [OF assms(2), of d] takeWhile_last_colon [OF assms(3), of d']
    unfolding assms(1) by (rule trans [OF sym])
  then have "s = s'" by simp
  then show ?thesis using assms(1) by simp
qed

lemma chunk_id_inj: "chunk_id d i = chunk_id e j \<longleftrightarrow> d = e \<and> i = j"
  using colon_split_unique [of d "nat_str i" e "nat_str j"] nat_str_no_colon nat_str_inj
  by (auto simp: chunk_id_def)

definition rows_ok :: "row set \<Rightarrow> bool" where
  "rows_ok R \<longleftrightarrow> (\<forall>r\<in>R. row_id r = chunk_id (row_doc r) (row_index r)) \<and> inj_on row_id R"

lemma make_rows_fields:
  "r \<in> set (make_rows document chunks) \<Longrightarrow>
     row_doc r = document_id_of document \<and> row_id r = chunk_id (row_doc r) (row_index r)"
  by (auto simp: make_rows_def)

lemma map_row_id_make_rows:
  "map row_id (make_rows document chunks) = map (chunk_id (document_id_of document)) [0..<length chunks]"
  by (rule nth_equalityI) (simp_all add: make_rows_def enumerate_from_def case_prod_beta)

lemma distinct_make_rows [simp]: "distinct (map row_id (make_rows document chunks))"
  by (simp add: map_row_id_make_rows distinct_map inj_on_def chunk_id_inj)

lemma inj_make_rows: "inj_on row_id (set (make_rows document chunks))"
  using distinct_make_rows distinct_map by blast

text \<open>The rows of a course after ingesting a document: the other documents' rows and the new ones.\<close>

lemma ingested_rows:
  assumes laws: "chroma_laws ch"
    and run: "ingest_document ch ing file_text document store = Inr (res, store')"
    and keep: "ir_skipped res = False"
    and ok: "rows_ok (stored_rows ch (collection_name (py_str (vget document ''course_id''))) store)"
  shows "stored_rows ch (collection_name (py_str (vget document ''course_id''))) store' =
    {r \<in> stored_rows ch (collection_name (py_str (vget document ''course_id''))) store.
       row_doc r \<noteq> document_id_of document} \<union> set (make_rows document (document_chunks ing file_text document))"
proof -
  let ?n = "collection_name (py_str (vget document ''course_id''))"
  let ?d = "document_id_of document"
  let ?c = "dict_get store ?n (ch_new ch)"
  let ?rs = "make_rows document (document_chunks ing file_text document)"
  have start: "ch_rows ch ?c = stored_rows ch ?n store"
    using laws by (auto simp: stored_rows_def dict_get_def chroma_laws_def split: option.splits)
  have del: "ch_rows ch (ch_delete ch ?d ?c) = {r \<in> stored_rows ch ?n store. row_doc r \<noteq> ?d}"
    using laws start by (simp add: chroma_laws_def)
  have out: "stored_rows ch ?n store' = (if document_chunks ing file_text document = []
      then ch_rows ch (ch_delete ch ?d ?c) else ch_rows ch (ch_upsert ch ?rs (ch_delete ch ?d ?c)))"
    using run keep by (auto simp: ingest_document_def stored_rows_def Let_def split: if_splits)
  have ids: "row_id r \<notin> row_id ` set ?rs" if "r \<in> stored_rows ch ?n store" "row_doc r \<noteq> ?d" for r
  proof -
    have "row_id r = chunk_id (row_doc r) (row_index r)" using ok that by (simp add: rows_ok_def)
    then show ?thesis using that make_rows_fields [of _ document] by (auto simp: chunk_id_inj)
  qed
  have "ch_rows ch (ch_upsert ch ?rs (ch_delete ch ?d ?c)) =
      {r \<in> ch_rows ch (ch_delete ch ?d ?c). row_id r \<notin> row_id ` set ?rs} \<union> set ?rs"
    using laws by (simp add: chroma_laws_def)
  also have "\<dots> = {r \<in> stored_rows ch ?n store. row_doc r \<noteq> ?d} \<union> set ?rs"
    using del ids by auto
  finally show ?thesis using out del by (simp add: make_rows_def)
qed

lemma ingested_rows_ok:
  assumes "chroma_laws ch"
    and "ingest_document ch ing file_text document store = Inr (res, store')"
    and "ir_skipped res = False"
    and ok: "rows_ok (stored_rows ch (collection_name (py_str (vget document ''course_id''))) store)"
  shows "rows_ok (stored_rows ch (collection_name (py_str (vget document ''course_id''))) store')"
  unfolding ingested_rows [OF assms] rows_ok_def
proof
  let ?old = "{r \<in> stored_rows ch (collection_name (py_str (vget document ''course_id''))) store.
       row_doc r \<noteq> document_id_of document}"
  let ?new = "set (make_rows document (document_chunks ing file_text document))"
  show ids: "\<forall>r\<in>?old \<union> ?new. row_id r = chunk_id (row_doc r) (row_index r)"
    using ok make_rows_fields by (auto simp: rows_ok_def)
  have "inj_on row_id ?old" using ok by (auto simp: rows_ok_def inj_on_def)
  moreover have "row_id ` ?old \<inter> row_id ` ?new = {}"
    using ids make_rows_fields [of _ document] by (fastforce simp: chunk_id_inj)
  moreover have "?old - ?new = ?old" "?new - ?old = ?new"
    using make_rows_fields [of _ document] by auto
  ultimately show "inj_on row_id (?old \<union> ?new)"
    using inj_make_rows by (simp add: inj_on_Un)
qed

text \<open>A collection of rows held as a list: the instance the examples evaluate.\<close>

definition list_chroma :: "row list chroma" where
  "list_chroma =
     \<lparr>ch_new = [], ch_delete = (\<lambda>d c. filter (\<lambda>r. row_doc r \<noteq> d) c),
      ch_upsert = (\<lambda>rs c. filter (\<lambda>r. row_id r \<notin> row_id ` set rs) c @ rs), ch_rows = set\<rparr>"

lemma list_chroma_laws: "chroma_laws list_chroma"
  by (auto simp: chroma_laws_def list_chroma_def)


section \<open>Properties\<close>



text \<open>Every chunk of an untitled section has at least eight and at most
  \<open>chunk_size\<close> words, and they are consecutive words of the section.\<close>

theorem chunk_bounds:
  assumes "c \<in> set (chunk_section ing ''General'' text)"
  shows "8 \<le> length (words c) \<and> int (length (words c)) \<le> chunk_size ing
    \<and> sublist (words c) (words text)"
proof -
  obtain k where k: "words c = take (nat (chunk_size ing)) (drop k (words text))" "8 \<le> length (words c)"
    using chunk_section_windows [OF assms] by blast
  moreover have "sublist (take (nat (chunk_size ing)) (drop k (words text))) (words text)"
    by (metis append_take_drop_id sublist_appendI)
  ultimately show ?thesis by auto
qed

theorem chunk_bounds_witness:
  "8 \<le> length (words ''a b c d e f g h'') \<and> int (length (words ''a b c d e f g h'')) \<le> 400"
proof -
  have "''a b c d e f g h'' \<in> set (chunk_section default_ingestor ''General'' ''a b c d e f g h'')" by code_simp
  then show ?thesis using chunk_bounds [of "''a b c d e f g h''" default_ingestor] by (simp add: default_ingestor_def)
qed

text \<open>C7 (invariant): ingesting a document keeps every row of the course's other documents and
  replaces all of its own rows; row ids stay distinct, so no document can overwrite another's chunk.\<close>

theorem ingest_isolates_documents:
  assumes "chroma_laws ch"
    and "ingest_document ch ing file_text document store = Inr (res, store')"
    and "ir_skipped res = False"
    and "rows_ok (stored_rows ch (collection_name (py_str (vget document ''course_id''))) store)"
  shows "rows_ok (stored_rows ch (collection_name (py_str (vget document ''course_id''))) store')
    \<and> {r \<in> stored_rows ch (collection_name (py_str (vget document ''course_id''))) store'. row_doc r \<noteq> document_id_of document}
      = {r \<in> stored_rows ch (collection_name (py_str (vget document ''course_id''))) store. row_doc r \<noteq> document_id_of document}
    \<and> {r \<in> stored_rows ch (collection_name (py_str (vget document ''course_id''))) store'. row_doc r = document_id_of document}
      = set (make_rows document (document_chunks ing file_text document))"
  using ingested_rows_ok [OF assms] ingested_rows [OF assms] make_rows_fields [of _ document] by auto

definition example_document :: pydict where
  "example_document = [(''id'', VStr ''d1''), (''course_id'', VStr ''c 1''), (''text'', VStr ''one two three four five six seven eight'')]"

lemma example_ingest:
  "ingest_document list_chroma default_ingestor (\<lambda>_. []) example_document [] =
     Inr (\<lparr>ir_collection = Some ''course-c-1'', ir_chunks = 1, ir_skipped = False\<rparr>,
       [(''course-c-1'', make_rows example_document [(''General'', ''one two three four five six seven eight'')])])"
  by code_simp

lemma example_name: "collection_name (py_str (vget example_document ''course_id'')) = ''course-c-1''"
  by code_simp

theorem ingest_isolates_documents_witness:
  "rows_ok (stored_rows list_chroma ''course-c-1''
     [(''course-c-1'', make_rows example_document [(''General'', ''one two three four five six seven eight'')])])"
  using ingest_isolates_documents [OF list_chroma_laws example_ingest]
  by (simp add: example_name stored_rows_def rows_ok_def)

text \<open>Indexing the same document again leaves its collection as it was, with the
  same result, whatever the chunk count.\<close>

theorem reingest_idempotent:
  assumes "chroma_laws ch"
    and "ingest_document ch ing file_text document store = Inr (res, store')"
    and "ir_skipped res = False"
    and "rows_ok (stored_rows ch (collection_name (py_str (vget document ''course_id''))) store)"
  shows "\<exists>store''. ingest_document ch ing file_text document store' = Inr (res, store'')
    \<and> stored_rows ch (collection_name (py_str (vget document ''course_id''))) store''
      = stored_rows ch (collection_name (py_str (vget document ''course_id''))) store'"
proof -
  obtain store'' where again: "ingest_document ch ing file_text document store' = Inr (res, store'')"
    using assms(2,3) by (auto simp: ingest_document_def Let_def split: if_splits)
  show ?thesis
    using again ingested_rows [OF assms(1) again assms(3) ingested_rows_ok [OF assms]] ingested_rows [OF assms]
      make_rows_fields [of _ document] by auto
qed

theorem reingest_idempotent_witness:
  "\<exists>store''. ingest_document list_chroma default_ingestor (\<lambda>_. []) example_document
      [(''course-c-1'', make_rows example_document [(''General'', ''one two three four five six seven eight'')])]
    = Inr (\<lparr>ir_collection = Some ''course-c-1'', ir_chunks = 1, ir_skipped = False\<rparr>, store'')"
  using reingest_idempotent [OF list_chroma_laws example_ingest]
  by (fastforce simp: example_name stored_rows_def rows_ok_def)

end
