(* ===== verification/RagRetrieval.thy ===== *)
theory RagRetrieval
  imports RagIngestion
begin

text \<open>
  \<open>backend/rag_retrieval.py\<close>: hybrid retrieval from one course's collection. The records of
  the collection are narrowed to the chapters the query names, ranked by BM25 and by the vector
  distances Chroma returns, fused by reciprocal rank and cut to \<open>top_k\<close>. The collection and the
  natural logarithm (\<open>math.log\<close>) are parameters; the scores are binary64 numbers.
\<close>

section \<open>Tokens and BM25\<close>

definition token_rx :: rx where
  "token_rx = seqs [WordB, many1 (Chr WordC), WordB]"

definition tokens :: "string \<Rightarrow> string list" where
  "tokens text = map casefold (rx_findall token_rx text)"

definition doc_frequency :: "string list list \<Rightarrow> string \<Rightarrow> nat" where
  \<comment> \<open>\<open>Counter(term for terms in document_terms for term in set(terms))\<close>\<close>
  "doc_frequency document_terms term = length (filter (\<lambda>terms. term \<in> set terms) document_terms)"

definition average_length :: "string list list \<Rightarrow> rat" where
  "average_length document_terms =
     fdiv_int (int (sum_list (map length document_terms))) (max (int (length document_terms)) 1)"

definition bm25_idf :: "(rat \<Rightarrow> rat) \<Rightarrow> nat \<Rightarrow> nat \<Rightarrow> rat" where
  "bm25_idf loge n freq =
     loge (fadd 1 (fdiv (fadd (of_int (int n - int freq)) (1/2)) (fadd (of_nat freq) (1/2))))"

definition length_factor :: "rat \<Rightarrow> nat \<Rightarrow> rat" where
  "length_factor average len = fadd (fsub 1 (3/4)) (fdiv (fmul (3/4) (of_nat len)) (max average 1))"

definition bm25_term :: "(rat \<Rightarrow> rat) \<Rightarrow> string list list \<Rightarrow> string list \<Rightarrow> string \<Rightarrow> rat" where
  "bm25_term loge document_terms terms term =
     (let count = of_nat (count_list terms term);
          idf = bm25_idf loge (length document_terms) (doc_frequency document_terms term);
          lf = length_factor (average_length document_terms) (length terms)
      in fdiv (fmul (fmul idf count) (fadd (3/2) 1)) (fadd count (fmul (3/2) lf)))"

definition bm25_score :: "(rat \<Rightarrow> rat) \<Rightarrow> string list list \<Rightarrow> string list \<Rightarrow> string list \<Rightarrow> rat" where
  "bm25_score loge document_terms query_terms terms =
     foldl (\<lambda>score term. if term \<in> set terms then fadd score (bm25_term loge document_terms terms term) else score)
       0 query_terms"

definition bm25 :: "(rat \<Rightarrow> rat) \<Rightarrow> string \<Rightarrow> string list \<Rightarrow> rat list" where
  "bm25 loge query texts =
     (let document_terms = map tokens texts
      in map (bm25_score loge document_terms (tokens query)) document_terms)"

section \<open>Records\<close>

text \<open>What Chroma returns for a collection: ids, documents, metadatas, and the answer to a query
  (\<open>None\<close> where the query raises).\<close>

record stored_view =
  sv_ids :: "string list"
  sv_documents :: "pyval list"
  sv_metadatas :: "pydict list"
  sv_query :: "string \<Rightarrow> nat \<Rightarrow> (string \<times> pyval) list option"

type_synonym records = "(string, pydict) dict"

definition make_record :: "stored_view \<Rightarrow> nat \<Rightarrow> string \<Rightarrow> pydict" where
  "make_record view index cid =
     dict_set ''text'' (py_or (sv_documents view ! index) (VStr []))
       (dict_set ''id'' (VStr cid)
         (if index < length (sv_metadatas view) then sv_metadatas view ! index else []))"

definition stored_records :: "stored_view \<Rightarrow> records" where
  "stored_records view =
     foldl (\<lambda>records (index, cid).
         if index < length (sv_documents view) then dict_set cid (make_record view index cid) records
         else records)
       [] (enumerate_from 0 (sv_ids view))"

definition chapter_rx :: rx where
  "chapter_rx = seqs [WordB, lit_i ''chapter'', spaces, Group (many1 (Chr DigitC)), WordB]"

definition requested_chapters :: "string \<Rightarrow> string list" where
  "requested_chapters query = remdups (rx_findall chapter_rx query)"

definition chapter_match :: "string list \<Rightarrow> pydict \<Rightarrow> bool" where
  "chapter_match chapters record \<longleftrightarrow>
     list_ex (\<lambda>chapter. rx_search (seqs [WordB, lit_i ''chapter'', spaces, lit_i chapter, WordB])
       (py_str (vget_default record ''filename'' (VStr [])) @ '' '' @
        py_str (vget_default record ''section'' (VStr [])))) chapters"

definition chapter_filter :: "string \<Rightarrow> records \<Rightarrow> records" where
  "chapter_filter query records =
     (let chapters = requested_chapters query;
          matching = filter (\<lambda>(cid, record). chapter_match chapters record) records
      in if chapters \<noteq> [] \<and> matching \<noteq> [] then matching else records)"

section \<open>Fusion\<close>

fun vector_ranking :: "(string \<times> pyval) list \<Rightarrow> (string, rat) dict \<Rightarrow> (string, rat) dict \<times> bool" where
  \<comment> \<open>the scores read before a distance that is not a number, and whether all were read\<close>
  "vector_ranking [] scores = (scores, True)"
| "vector_ranking ((cid, distance) # rest) scores =
     (case py_float distance of
        None \<Rightarrow> (scores, False)
      | Some d \<Rightarrow> vector_ranking rest (dict_set cid (fsub 1 d) scores))"

definition vector_scores :: "stored_view \<Rightarrow> string \<Rightarrow> nat \<Rightarrow> (string, rat) dict \<times> string list" where
  "vector_scores view query n =
     (case sv_query view query n of
        None \<Rightarrow> ([], [])
      | Some result \<Rightarrow> (case vector_ranking result [] of (scores, ok) \<Rightarrow>
          (scores, if ok then map fst result else [])))"

definition bm25_order :: "rat list \<Rightarrow> nat list" where
  "bm25_order scores = sort_key (\<lambda>i. (- (scores ! i), i)) [0..<length scores]"

definition add_ranks :: "string list \<Rightarrow> (string, rat) dict \<Rightarrow> (string, rat) dict" where
  \<comment> \<open>\<open>rrf_scores[chunk_id] += 1 / (60 + rank)\<close> for the ids that are records\<close>
  "add_ranks ranking scores =
     foldl (\<lambda>scores (rank, cid).
         (case map_of scores cid of
            None \<Rightarrow> scores
          | Some x \<Rightarrow> dict_set cid (fadd x (fdiv_int 1 (60 + int rank))) scores))
       scores (enumerate_from 1 ranking)"

definition rrf_scores :: "string list \<Rightarrow> rat list \<Rightarrow> string list \<Rightarrow> (string, rat) dict" where
  "rrf_scores record_ids scores vector_order =
     add_ranks vector_order
       (add_ranks (map (\<lambda>i. record_ids ! i) (bm25_order scores)) (map (\<lambda>r. (r, 0)) record_ids))"

type_synonym ranking = "string \<Rightarrow> rat \<times> rat \<times> rat"   \<comment> \<open>rrf, bm25 and cosine of a record\<close>

definition ranking_of :: "(rat \<Rightarrow> rat) \<Rightarrow> stored_view \<Rightarrow> string \<Rightarrow> records \<Rightarrow> ranking" where
  "ranking_of loge view query records =
     (let ids = dict_keys records;
          scores = bm25 loge query (map (\<lambda>r. py_str (vget (snd r) ''text'')) records);
          (vectors, vector_order) = vector_scores view query (length ids);
          fused = rrf_scores ids scores vector_order;
          keyword = zip ids scores
      in (\<lambda>cid. (dict_get fused cid 0, dict_get keyword cid 0, dict_get vectors cid 0)))"

definition rank_key :: "ranking \<Rightarrow> string \<Rightarrow> rat \<times> rat \<times> rat" where
  "rank_key f cid = (case f cid of (rrf, keyword, cosine) \<Rightarrow> (- rrf, - keyword, - cosine))"

definition select_ids :: "ranking \<Rightarrow> nat \<Rightarrow> string list \<Rightarrow> string list" where
  "select_ids f top_k ids = take top_k (sort_key (rank_key f) ids)"

definition scored_record :: "ranking \<Rightarrow> records \<Rightarrow> string \<Rightarrow> pydict" where
  "scored_record f records cid =
     (case f cid of (rrf, keyword, cosine) \<Rightarrow>
        dict_set ''rrf_score'' (VFloat rrf) (dict_set ''cosine_score'' (VFloat cosine)
          (dict_set ''bm25_score'' (VFloat keyword) (dict_get records cid []))))"

definition retrieve :: "(rat \<Rightarrow> rat) \<Rightarrow> (string \<Rightarrow> stored_view option) \<Rightarrow> string \<Rightarrow> pyval \<Rightarrow> int \<Rightarrow> pydict list" where
  \<comment> \<open>\<open>collections name\<close> is \<open>None\<close> where Chroma has no such collection\<close>
  "retrieve loge collections query course_id top_k =
     (if top_k \<le> 0 \<or> \<not> truthy course_id then []
      else case collections (collection_name (py_str course_id)) of
        None \<Rightarrow> []
      | Some view \<Rightarrow>
          (let records = chapter_filter query (stored_records view);
               f = ranking_of loge view query records
           in map (scored_record f records) (select_ids f (nat top_k) (dict_keys records))))"

section \<open>What is selected\<close>

lemma distinct_stored_records: "distinct (dict_keys (stored_records view))"
proof -
  have "distinct (map fst (foldl (\<lambda>records (index, cid).
         if index < length (sv_documents view) then dict_set cid (make_record view index cid) records
         else records) acc xs))" if "distinct (map fst acc)" for acc :: records and xs
    using that by (induction xs arbitrary: acc) (auto simp: distinct_dict_set)
  then show ?thesis by (simp add: stored_records_def dict_keys_def)
qed

lemma chapter_filter_subset: "set (chapter_filter query records) \<subseteq> set records"
  by (auto simp: chapter_filter_def Let_def)

lemma distinct_chapter_filter:
  "distinct (dict_keys records) \<Longrightarrow> distinct (dict_keys (chapter_filter query records))"
  by (auto simp: chapter_filter_def Let_def dict_keys_def distinct_map intro: inj_on_subset)

lemma chapter_filter_matches:
  assumes "r \<in> set records" and "chapter_match (requested_chapters query) (snd r)"
    and "c \<in> set (chapter_filter query records)"
  shows "chapter_match (requested_chapters query) (snd c)"
proof -
  have "filter (\<lambda>(cid, record). chapter_match (requested_chapters query) record) records \<noteq> []"
    using assms(1,2) by (cases r) (auto simp: filter_empty_conv intro!: bexI [of _ r])
  moreover have "requested_chapters query \<noteq> []"
    using assms(2) by (auto simp: chapter_match_def)
  ultimately show ?thesis using assms(3) by (auto simp: chapter_filter_def Let_def)
qed

lemma dict_get_in: "distinct (dict_keys d) \<Longrightarrow> (k, v) \<in> set d \<Longrightarrow> dict_get d k w = v"
  by (simp add: dict_get_def dict_keys_def)

lemma dict_get_key: "k \<in> set (dict_keys d) \<Longrightarrow> (k, dict_get d k w) \<in> set d"
  by (auto simp: dict_get_def dict_keys_def dest: map_of_SomeD split: option.splits simp: map_of_eq_None_iff)

lemma select_ids_props:
  "length (select_ids f k ids) \<le> k" "set (select_ids f k ids) \<subseteq> set ids"
  "distinct ids \<Longrightarrow> distinct (select_ids f k ids)"
  by (simp_all add: select_ids_def set_take_sort_key)

lemma vget_scored_record:
  "k \<notin> {''rrf_score'', ''cosine_score'', ''bm25_score''} \<Longrightarrow>
     vget (scored_record f records c) k = vget (dict_get records c []) k"
  by (simp add: scored_record_def vget_dict_set split: prod.splits)


text \<open>BM25 scores are not negative, since the idf logarithm is taken of at least one.\<close>

lemma doc_frequency_le: "doc_frequency ds t \<le> length ds"
  by (simp add: doc_frequency_def)

lemma bm25_idf_nonneg:
  assumes "\<forall>x\<ge>1. 0 \<le> loge x" and "freq \<le> n"
  shows "0 \<le> bm25_idf loge n freq"
proof -
  have "0 \<le> fdiv (fadd (of_int (int n - int freq)) (1/2)) (fadd (of_nat freq) (1/2))"
    using assms(2) by (auto simp: fdiv_def fadd_def intro!: fl64_nonneg divide_nonneg_nonneg add_nonneg_nonneg)
  then have "1 \<le> fadd 1 (fdiv (fadd (of_int (int n - int freq)) (1/2)) (fadd (of_nat freq) (1/2)))"
    using fl64_ge_of_int [of 1] by (simp add: fadd_def)
  then show ?thesis using assms(1) by (simp add: bm25_idf_def)
qed

lemma length_factor_nonneg: "0 \<le> length_factor average len"
  unfolding length_factor_def fadd_def fsub_def fdiv_def fmul_def
  by (intro fl64_nonneg add_nonneg_nonneg divide_nonneg_nonneg mult_nonneg_nonneg) auto

lemma bm25_term_nonneg:
  assumes "\<forall>x\<ge>1. 0 \<le> loge x"
  shows "0 \<le> bm25_term loge ds terms term"
  using bm25_idf_nonneg [OF assms doc_frequency_le] length_factor_nonneg
  unfolding bm25_term_def fadd_def fdiv_def fmul_def Let_def
  by (intro fl64_nonneg add_nonneg_nonneg divide_nonneg_nonneg mult_nonneg_nonneg) auto

lemma bm25_score_nonneg:
  assumes "\<forall>x\<ge>1. 0 \<le> loge x"
  shows "0 \<le> bm25_score loge ds q terms"
proof -
  have "0 \<le> foldl (\<lambda>score term. if term \<in> set terms then fadd score (bm25_term loge ds terms term) else score) a q"
    if "0 \<le> a" for a
    using that
  proof (induction q arbitrary: a)
    case (Cons t q)
    have "0 \<le> fadd a (bm25_term loge ds terms t)"
      using Cons.prems bm25_term_nonneg [OF assms] by (simp add: fadd_def fl64_nonneg)
    then show ?case using Cons by simp
  qed simp
  then show ?thesis by (simp add: bm25_score_def)
qed

section \<open>Properties\<close>


definition example_view :: stored_view where
  "example_view =
     \<lparr>sv_ids = [''d:0'', ''d:1''], sv_documents = [VStr ''heap'', VStr ''tree''],
      sv_metadatas = [[(''section'', VStr ''Chapter 1'')], [(''section'', VStr ''Chapter 2'')]],
      sv_query = (\<lambda>q n. None)\<rparr>"


text \<open>When the query names chapters and some stored record belongs to one of them, every
  chunk returned belongs to a chapter the query names.\<close>

theorem retrieve_respects_chapters:
  assumes "collections (collection_name (py_str course_id)) = Some view"
    and "r \<in> set (stored_records view)" and "chapter_match (requested_chapters query) (snd r)"
    and "c \<in> set (retrieve loge collections query course_id top_k)"
  shows "chapter_match (requested_chapters query) c"
proof -
  let ?recs = "chapter_filter query (stored_records view)"
  obtain cid where cid: "cid \<in> set (dict_keys ?recs)" "c = scored_record (ranking_of loge view query ?recs) ?recs cid"
    using assms(1,4) select_ids_props(2) [of "ranking_of loge view query ?recs" "nat top_k" "dict_keys ?recs"]
    by (auto simp: retrieve_def Let_def split: if_splits)
  have "chapter_match (requested_chapters query) (dict_get ?recs cid [])"
    using chapter_filter_matches [OF assms(2,3) dict_get_key [OF cid(1)]] by simp
  moreover have "vget_default c k v = vget_default (dict_get ?recs cid []) k v" if "k = ''filename'' \<or> k = ''section''" for k v
    using that cid(2) by (auto simp: scored_record_def vget_default_def split: prod.splits)
  ultimately show ?thesis by (simp add: chapter_match_def)
qed

theorem retrieve_respects_chapters_witness:
  "list_all (chapter_match (requested_chapters ''tree chapter 2''))
     (retrieve (\<lambda>x. x) (\<lambda>_. Some example_view) ''tree chapter 2'' (VInt 7) 3)"
proof -
  have mem: "(''d:1'', [(''section'', VStr ''Chapter 2''), (''id'', VStr ''d:1''), (''text'', VStr ''tree'')])
      \<in> set (stored_records example_view)" by code_simp
  have hit: "chapter_match (requested_chapters ''tree chapter 2'')
      (snd (''d:1'', [(''section'', VStr ''Chapter 2''), (''id'', VStr ''d:1''), (''text'', VStr ''tree'')]))" by code_simp
  show ?thesis
    unfolding list_all_iff
    using retrieve_respects_chapters [of "\<lambda>_. Some example_view" "VInt 7" example_view, OF _ mem hit] by blast
qed

text \<open>Keyword scores are never negative (given a logarithm that is not negative from 1
  on), so a record that shares no term with the query never outranks by keyword one that does.\<close>

theorem bm25_scores_nonneg:
  assumes "\<forall>x\<ge>1. 0 \<le> loge x" and "s \<in> set (bm25 loge query texts)"
  shows "0 \<le> s"
  using assms(2) bm25_score_nonneg [OF assms(1)] by (auto simp: bm25_def Let_def)

theorem bm25_scores_nonneg_witness:
  "list_all (\<lambda>s. 0 \<le> s) (bm25 (\<lambda>x. x - 1) ''tree'' [''a tree'', ''heap''])"
  using bm25_scores_nonneg [of "\<lambda>x. x - 1"] by (auto simp: list_all_iff)

end
