(* ===== verification/WorkflowText.thy ===== *)
theory WorkflowText
  imports Quiz Agents
begin

text \<open>
  The static helpers of \<open>LangGraphSupervisor\<close> (\<open>backend/workflow.py\<close>): reading messages and the
  shared state, recognising approvals, picking a course, turning the day pairs of a plan into
  calendar events and the questions of a quiz into the form the API stores. Messages and
  chunks are dictionaries, as the API sends them.
\<close>

section \<open>Events\<close>

record sup_event =
  se_kind :: string
  se_data :: pydict

definition event_of :: "string \<Rightarrow> pydict \<Rightarrow> sup_event" where
  "event_of kind d = \<lparr>se_kind = kind, se_data = d\<rparr>"

definition text_event :: "string \<Rightarrow> sup_event" where
  "text_event text = event_of ''text_delta'' [(''text'', VStr text)]"

definition validated_event :: "sup_event \<Rightarrow> sup_event" where
  "validated_event e =
     (if se_kind e = ''text_delta''
      then e\<lparr>se_data := dict_set ''text'' (VStr (safe_final_response (str_or_empty (vget (se_data e) ''text'')))) (se_data e)\<rparr>
      else e)"

section \<open>Messages\<close>

definition content_text :: "pyval \<Rightarrow> pyval" where
  \<comment> \<open>a list of content parts is joined with spaces\<close>
  "content_text content =
     (case content of VList items \<Rightarrow> VStr (join '' '' (map part_text items)) | v \<Rightarrow> v)"

fun first_user :: "pydict list \<Rightarrow> string" where
  \<comment> \<open>the loop of \<open>_latest_user\<close> over the reversed messages\<close>
  "first_user [] = []"
| "first_user (message # rest) =
     (let content = content_text (vget_default message ''content'' (VStr []))
      in if py_str (vget_default message ''role'' (VStr ''user'')) \<noteq> ''user'' then first_user rest
         else if truthy content then strip (py_str content)
         else first_user rest)"

definition latest_user :: "pydict list \<Rightarrow> string" where
  "latest_user messages = first_user (rev messages)"

definition last_n :: "nat \<Rightarrow> 'a list \<Rightarrow> 'a list" where
  \<comment> \<open>\<open>xs[-n:]\<close>\<close>
  "last_n n xs = drop (length xs - n) xs"

definition turn_of :: "pydict \<Rightarrow> pydict option" where
  "turn_of message =
     (let text = strip (py_str (content_text (vget_default message ''content'' (VStr []))))
      in if text = [] then None
         else Some [(''role'', VStr (py_str (py_or (vget message ''role'') (VStr ''user'')))),
                    (''content'', VStr (take 300 text))])"

definition recent_turns :: "pydict list \<Rightarrow> pyval" where
  \<comment> \<open>the default limit of six turns before the last message\<close>
  "recent_turns messages = VList (map VDict (List.map_filter turn_of (last_n 6 (butlast messages))))"

section \<open>Approval\<close>

definition starts_with_any :: "string list \<Rightarrow> string \<Rightarrow> bool" where
  "starts_with_any ps s = list_ex (\<lambda>p. startswith p s) ps"

definition affirmative :: "string \<Rightarrow> bool" where
  "affirmative text =
     (let value = casefold (strip text)
      in value \<in> set [''yes'', ''y'', ''yeah'', ''yep'', ''sure'', ''ok'', ''okay'', ''approve'', ''approved'', ''confirm'',
           ''confirmed'', ''go ahead'', ''add them'', ''add it'', ''add to calendar'']
         \<or> starts_with_any [''yes '', ''approve '', ''confirm ''] value)"

definition negative :: "string \<Rightarrow> bool" where
  "negative text =
     (let value = casefold (strip text)
      in value \<in> set [''no'', ''n'', ''nope'', ''not now'', ''cancel'', ''decline'', ''declined'']
         \<or> starts_with_any [''no '', ''don't '', ''do not '', ''cancel ''] value)"

definition digits_rx :: "nat \<Rightarrow> rx" where
  "digits_rx n = Rep (Chr DigitC) n (Some n) True"

definition iso_day_rx :: rx where
  "iso_day_rx = seqs [WordB, digits_rx 4, lit ''-'', digits_rx 2, lit ''-'', digits_rx 2, WordB]"

definition plan_answers :: "string \<Rightarrow> pydict" where
  "plan_answers text =
     (case rx_findall iso_day_rx text of
        a # b # _ \<Rightarrow> [(''semester_dates'', VDict [(''start_date'', VStr a), (''end_date'', VStr b)])]
      | _ \<Rightarrow> [])"

definition count_rx :: rx where
  "count_rx =
     seqs [WordB, Group (Rep (Chr DigitC) 1 (Some 2) True), spaces,
           Alt (Seq (lit_i ''question'') (opt (lit_i ''s''))) (lit_i ''q''), WordB]"

definition requested_count :: "string \<Rightarrow> int" where
  "requested_count query =
     (case rx_find count_rx query of
        None \<Rightarrow> 3
      | Some (i, j, c) \<Rightarrow> max 1 (min (int (digits_val (cap_text query c))) 20))"

section \<open>Courses of the shared state\<close>

definition course_dicts :: "pydict \<Rightarrow> pydict list" where
  "course_dicts state = dicts_of (py_iter (vget state ''courses''))"

definition state_dict :: "pyval \<Rightarrow> pydict" where
  \<comment> \<open>the API passes a dictionary or nothing\<close>
  "state_dict value = as_dict value"

definition first_course_id :: "pydict \<Rightarrow> string option" where
  "first_course_id state =
     map_option (\<lambda>course. py_str (vget course ''id'')) (find (\<lambda>course. truthy (vget course ''id'')) (course_dicts state))"

definition none_if_empty :: "string \<Rightarrow> string option" where
  "none_if_empty s = (if s = [] then None else Some s)"

definition course_name :: "pydict \<Rightarrow> string option \<Rightarrow> string option" where
  "course_name state course_id =
     (case find (\<lambda>course. case course_id of
           Some c \<Rightarrow> c = [] \<or> py_str (vget course ''id'') = c | None \<Rightarrow> True) (course_dicts state) of
        None \<Rightarrow> None
      | Some course \<Rightarrow> none_if_empty (course_label course))"

record library_course =
  lc_id :: string
  lc_name :: string
  lc_code :: string
  lc_materials :: "pydict list"

definition library_of :: "pydict \<Rightarrow> library_course list" where
  "library_of state =
     map (\<lambda>course. \<lparr>lc_id = py_str (vget course ''id''), lc_name = course_label course,
           lc_code = strip (str_or_empty (vget course ''code'')), lc_materials = dicts_of (py_iter (vget course ''materials''))\<rparr>)
       (filter (\<lambda>course. truthy (vget course ''id'')) (course_dicts state))"

definition material_title :: "pydict \<Rightarrow> string" where
  "material_title material = strip (str_or_empty (vget material ''title''))"

definition long_word_rx :: rx where
  "long_word_rx = Rep (Chr WordC) 4 None True"

definition material_score :: "string \<Rightarrow> pydict \<Rightarrow> nat" where
  "material_score text material =
     (let title = casefold (material_title material)
      in if title = [] then 0
         else (if contains title text then 5 else 0)
              + length (filter (\<lambda>w. contains w text) (remdups (rx_findall long_word_rx title))))"

definition course_score :: "string \<Rightarrow> library_course \<Rightarrow> nat" where
  "course_score text course =
     sum_list (map (\<lambda>l. if l \<noteq> [] \<and> contains (casefold l) text then 10 else 0) [lc_name course, lc_code course])
     + sum_list (map (material_score text) (lc_materials course))"

definition course_key :: "string \<Rightarrow> library_course \<Rightarrow> nat \<times> nat" where
  "course_key text course = (course_score text course, length (lc_materials course))"

definition resolve_course_id :: "string \<Rightarrow> pydict \<Rightarrow> pyval \<Rightarrow> string option" where
  "resolve_course_id query state explicit =
     (case library_of state of
        [] \<Rightarrow> if truthy explicit then Some (py_str explicit) else None
      | c # cs \<Rightarrow>
          if truthy explicit \<and> list_ex (\<lambda>course. lc_id course = py_str explicit) (c # cs) then Some (py_str explicit)
          else (let text = casefold query; best = max_by (course_key text) c cs
                in Some (lc_id (if course_score text best = 0
                     then (case find (\<lambda>course. lc_materials course \<noteq> []) (c # cs) of Some d \<Rightarrow> d | None \<Rightarrow> c)
                     else best))))"

section \<open>Quiz results\<close>

definition option_id :: "nat \<Rightarrow> string" where
  "option_id index = (if index < 4 then letters ! index else nat_str (index + 1))"

definition option_entry :: "nat \<Rightarrow> pyval \<Rightarrow> pydict" where
  "option_entry index option =
     (case option of
        VDict d \<Rightarrow> [(''option_id'', VStr (py_str (py_or (vget d ''option_id'') (VStr (option_id index))))),
                    (''text'', VStr (str_or_empty (vget d ''text'')))]
      | v \<Rightarrow> [(''option_id'', VStr (option_id index)), (''text'', VStr (py_str v))])"

definition answer_for :: "pydict \<Rightarrow> pydict \<Rightarrow> pydict" where
  \<comment> \<open>\<open>answer_key.get(str(question.get("id")), {})\<close>; a later entry with the same id wins\<close>
  "answer_for quiz question =
     (case find (\<lambda>item. py_str (vget item ''id'') = py_str (vget question ''id''))
             (rev (dicts_of (py_iter (vget quiz ''answer_key'')))) of
        Some item \<Rightarrow> item | None \<Rightarrow> [])"

definition normalised_question :: "pydict \<Rightarrow> pydict \<Rightarrow> pydict" where
  "normalised_question quiz question =
     (let answer = answer_for quiz question
      in [(''prompt'', vget_default question ''prompt'' (VStr [])), (''topic'', vget question ''topic''),
          (''explanation'', vget_default answer ''explanation'' (VStr [])),
          (''correct_option_id'', VStr (upper_str (py_str (vget_default answer ''correct_option_id'' (VStr ''A''))))),
          (''options'', VList (map (\<lambda>(i, option). VDict (option_entry i option))
             (enumerate_from 0 (py_iter (vget question ''options'')))))])"

definition normalised_questions :: "pydict \<Rightarrow> pydict list" where
  "normalised_questions quiz = map (normalised_question quiz) (dicts_of (py_iter (vget quiz ''questions'')))"

definition set_of_titles :: "pydict list \<Rightarrow> string list" where
  \<comment> \<open>\<open>sorted({title ...} - {""})\<close>\<close>
  "set_of_titles documents = filter (\<lambda>t. t \<noteq> []) (sorted_set (map material_title documents))"

definition material_problem :: "pydict \<Rightarrow> pydict \<Rightarrow> bool \<Rightarrow> string" where
  "material_problem state outcome retrieved =
     (let documents = concat (map lc_materials (library_of state));
          unready = set_of_titles (filter (\<lambda>m. casefold (py_str (py_or (vget m ''status'') (VStr ''ready''))) \<noteq> ''ready'') documents)
      in if documents = [] then
           ''I could not find any course material to build a quiz from. '' @
           ''Upload your slides for the course and I will create one.''
         else if unready \<noteq> [] then
           ''Your course material is still being prepared ('' @ join '', '' (take 3 unready) @
           ''). Ask me again shortly and I will build the quiz.''
         else if \<not> retrieved then
           ''I have your course material on file ('' @ join '', '' (take 3 (set_of_titles documents)) @
           '') but could not read its search index, so I cannot build a quiz from it yet. '' @
           ''Re-uploading the file will rebuild the index.''
         else py_str (py_or (vget outcome ''message'')
           (VStr ''I could not read your course material well enough to build a quiz.'')))"

section \<open>Calendar events\<close>

definition course_ids :: "pydict \<Rightarrow> (string, pyval) dict" where
  "course_ids state =
     foldl (\<lambda>ids course. dict_set (py_str (py_or (vget course ''course_name'') (vget course ''name''))) (vget course ''id'') ids)
       [] (filter (\<lambda>course. truthy (vget course ''id'')) (course_dicts state))"

definition id_text :: "pyval \<Rightarrow> string option" where
  \<comment> \<open>\<open>str(v) if v else None\<close>\<close>
  "id_text v = (if truthy v then Some (py_str v) else None)"

definition known_tasks :: "pydict \<Rightarrow> (string option \<times> pydict) list" where
  \<comment> \<open>the tasks of the current plans that have an id, a title and a date, with their course\<close>
  "known_tasks state =
     concat (map (\<lambda>course. map (\<lambda>task. (id_text (vget course ''id''), task))
         (filter (\<lambda>task. truthy (vget task ''id'') \<and> truthy (vget task ''title'') \<and> truthy (vget task ''date''))
           (plan_tasks course ''tasks''))) (course_dicts state))"

definition existing_ids :: "pydict \<Rightarrow> (string option \<times> string \<times> string, string) dict" where
  "existing_ids state =
     foldl (\<lambda>ids (course, task). dict_set (course, py_str (vget task ''title''), py_str (vget task ''date''))
         (py_str (vget task ''id'')) ids) [] (known_tasks state)"

definition existing_titles :: "pydict \<Rightarrow> (string option \<times> string, string) dict" where
  "existing_titles state =
     foldl (\<lambda>ids (course, task). dict_set (course, py_str (vget task ''title'')) (py_str (vget task ''id'')) ids)
       [] (known_tasks state)"

definition slot_hour :: "nat \<Rightarrow> int" where
  "slot_hour used = min (9 + 2 * int used) 21"

definition task_event ::
  "pydict \<Rightarrow> pydict \<Rightarrow> date \<Rightarrow> nat \<Rightarrow> sup_event"
where
  "task_event state item day used =
     (let event = as_dict (vget item ''event'');
          course_id = py_or (vget event ''course_id'') (dict_get (course_ids state) (str_or_empty (vget event ''course'')) VNone);
          title = py_str (py_or (vget event ''title'') (VStr ''Study task''));
          task_id = (case map_of (existing_ids state) (id_text course_id, title, py_str (vget item ''day'')) of
                Some i \<Rightarrow> if i \<noteq> [] then Some i else map_of (existing_titles state) (id_text course_id, title)
              | None \<Rightarrow> map_of (existing_titles state) (id_text course_id, title))
      in event_of ''task_upsert''
           [(''id'', opt_str task_id), (''course_id'', course_id), (''title'', VStr title),
            (''notes'', VStr (str_or_empty (vget event ''description''))),
            (''start_at'', VStr (iso_of_hour day (slot_hour used))), (''end_at'', VStr (iso_of_hour day (slot_hour used + 1))),
            (''status'', VStr ''todo''), (''origin'', VStr ''supervisor'')])"

fun calendar_loop :: "pydict \<Rightarrow> (date \<Rightarrow> nat) \<Rightarrow> pydict list \<Rightarrow> sup_event list" where
  "calendar_loop state used [] = []"
| "calendar_loop state used (item # rest) =
     (case parse_iso_date_part (py_str (vget item ''day'')) of
        None \<Rightarrow> calendar_loop state used rest
      | Some day \<Rightarrow> task_event state item day (used day) # calendar_loop state (used(day := used day + 1)) rest)"

definition calendar_events :: "pyval \<Rightarrow> pydict \<Rightarrow> sup_event list" where
  "calendar_events pairs state = calendar_loop state (\<lambda>_. 0) (dicts_of (py_iter pairs))"

definition past :: "datetime \<Rightarrow> pyval \<Rightarrow> bool" where
  \<comment> \<open>\<open>now\<close> is \<open>datetime.now(timezone.utc)\<close>\<close>
  "past now value =
     (truthy value \<and> (case parse_iso_z (py_str value) of None \<Rightarrow> False | Some dt \<Rightarrow> instant_of dt < instant_of now))"

definition signature :: "pydict \<Rightarrow> (string \<times> string) list" where
  "signature plan =
     sort (map (\<lambda>item. (str_or_empty (vget (as_dict (vget item ''event'')) ''title''), str_or_empty (vget item ''day'')))
       (dicts_of (py_iter (vget plan ''event_day_pairs''))))"

definition same_draft :: "pydict \<Rightarrow> pydict \<Rightarrow> bool" where
  "same_draft previous current \<longleftrightarrow> signature previous \<noteq> [] \<and> signature previous = signature current"

end
