(* ===== verification/Workflow.thy ===== *)
theory Workflow
  imports WorkflowText Plan
begin

text \<open>
  \<open>LangGraphSupervisor\<close> of \<open>backend/workflow.py\<close>: the nodes of the graph, its edges, the pause at
  the approval node and \<open>handle\<close>, which runs a request or resumes a paused one. LangGraph is
  modelled by its documented behaviour: nodes run along the edges from the start, each returns an
  update of the state, \<open>interrupt\<close> stops the run and keeps the state under the thread id, and
  \<open>Command(resume=...)\<close> continues from it with the given value. A run in which a node raises
  emits nothing and leaves the paused threads alone. The models, the retriever, the present
  day and the clock are the fields of \<open>services\<close>.
\<close>

section \<open>State\<close>

record request =
  rq_type :: string
  rq_id :: string
  rq_messages :: "pydict list"
  rq_context :: pydict
  rq_document :: pydict
  rq_snapshot :: pydict

text \<open>What \<open>Command(resume=...)\<close> hands to the approval node.\<close>

record resume =
  ra_text :: string
  ra_shared :: pydict

record wstate =
  w_request :: request
  w_shared :: pydict
  w_checked :: bool
  w_understood :: bool
  w_task :: string
  w_route :: string
  w_pending :: "pydict option"
  w_answer :: "resume option"
  w_events :: "sup_event list"

record services =
  svc_communicator :: "(message list \<Rightarrow> communication_decision result) option"
  svc_router :: "(message list \<Rightarrow> supervisor_decision result) option"
  svc_retriever :: retriever
  svc_rag_model :: chat
  svc_scope :: "(message list \<Rightarrow> quiz_scope result) option"
  svc_questions :: "question_model option"
  svc_planner :: planner
  svc_chat :: "chat option"
  svc_today :: date
  svc_now :: datetime

definition plan_view :: "pydict \<Rightarrow> plan_state" where
  \<comment> \<open>the keys of the shared state the specialists read\<close>
  "plan_view shared = \<lparr>ps_semester = vget shared ''semester'', ps_courses = vget shared ''courses''\<rparr>"

definition write_back :: "plan_state \<Rightarrow> pydict \<Rightarrow> pydict" where
  \<comment> \<open>what the planner assigned to the shared dictionary it was given\<close>
  "write_back st shared =
     (let shared = (if ps_semester st = vget shared ''semester'' then shared else dict_set ''semester'' (ps_semester st) shared)
      in if ps_courses st = vget shared ''courses'' then shared else dict_set ''courses'' (ps_courses st) shared)"

definition finish :: "sup_event list \<Rightarrow> wstate \<Rightarrow> wstate" where
  \<comment> \<open>the update of a node that ends the run: its events, nothing pending, no answer\<close>
  "finish events st = st\<lparr>w_events := events, w_pending := None, w_answer := None\<rparr>"

definition task_text :: "wstate \<Rightarrow> string" where
  "task_text st = (if w_task st \<noteq> [] then w_task st else latest_user (rq_messages (w_request st)))"

section \<open>Communication and routing\<close>

definition communication_node :: "services \<Rightarrow> wstate \<Rightarrow> wstate result" where
  "communication_node svc st =
     (if w_checked st then Inr (st\<lparr>w_understood := True\<rparr>)
      else if rq_type (w_request st) \<noteq> ''chat'' then Inr (st\<lparr>w_checked := True, w_understood := True\<rparr>)
      else
        (let messages = rq_messages (w_request st); query = latest_user messages
         in bind_res (communicate (svc_communicator svc) query [] (recent_turns messages)) (\<lambda>d.
              if cd_understood d
              then Inr (st\<lparr>w_checked := True, w_understood := True, w_task := (if cd_task d \<noteq> [] then cd_task d else query)\<rparr>)
              else if strip (cd_response d) = []
              then Inl (RuntimeError ''The communication model returned an empty response.'')
              else Inr (finish [text_event (strip (cd_response d))] (st\<lparr>w_understood := False, w_task := []\<rparr>)))))"

definition route_of :: "string \<Rightarrow> string" where
  \<comment> \<open>\<open>selected.removesuffix("_agent").lower()\<close>\<close>
  "route_of selected =
     (if selected = ''RAG_agent'' then ''rag'' else if selected = ''planning_agent'' then ''planning'' else ''quiz'')"

definition supervisor_node :: "services \<Rightarrow> wstate \<Rightarrow> wstate result" where
  "supervisor_node svc st =
     (let request = w_request st;
          request_type = (if rq_type request \<noteq> [] then rq_type request else ''chat'')
      in if request_type = ''progress_check'' then Inr (st\<lparr>w_route := ''progress''\<rparr>)
         else if request_type \<in> set [''document_ingest'', ''document_remove''] then Inr (st\<lparr>w_route := ''document''\<rparr>)
         else
           (let original = latest_user (rq_messages request); query = (if w_task st \<noteq> [] then w_task st else original)
            in case svc_router svc of
                 None \<Rightarrow> Inl (RuntimeError ''OpenRouter LLM is required for coordinator routing.'')
               | Some router \<Rightarrow>
                   bind_res (supervise router query original (recent_turns (rq_messages request))) (\<lambda>d.
                     if sd_agent d \<in> set user_agents then Inr (st\<lparr>w_route := route_of (sd_agent d)\<rparr>)
                     else Inl (RuntimeError (''The coordinator returned an invalid agent: '' @ repr_str (sd_agent d))))))"

section \<open>Course material\<close>

definition citation_of :: "pydict \<Rightarrow> sup_event" where
  "citation_of chunk =
     event_of ''citation''
       [(''document_id'', vget chunk ''document_id''), (''label'', vget_default chunk ''filename'' (VStr ''Course material'')),
        (''page'', vget chunk ''page''), (''slide'', vget chunk ''slide''),
        (''excerpt'', VStr (take 500 (py_str (vget_default chunk ''text'' (VStr [])))))]"

definition exn_text :: "exn \<Rightarrow> string" where
  \<comment> \<open>\<open>str(exc)\<close>\<close>
  "exn_text e =
     (case e of
        PromptInjectionBlocked \<Rightarrow> PROMPT_INJECTION_MESSAGE
      | OutputValidationError s \<Rightarrow> s | RuntimeError s \<Rightarrow> s | ValueError s \<Rightarrow> s | TypeError s \<Rightarrow> s
      | SupervisorUnavailable s \<Rightarrow> s | OtherError s \<Rightarrow> s)"

definition rag_node :: "services \<Rightarrow> wstate \<Rightarrow> wstate result" where
  "rag_node svc st =
     (let context = rq_context (w_request st); query = task_text st;
          course_id = py_or (vget context ''course_id'') (opt_str (first_course_id (w_shared st)))
      in if \<not> truthy course_id then Inr (finish [text_event ''Select a course so I can search its material.''] st)
         else
           (let attempt = bind_res (rag_retrieve (svc_retriever svc) query course_id 3) (\<lambda>chunks.
                  map_sum id (\<lambda>answer. (answer, chunks)) (rag_generate (svc_rag_model svc) query chunks));
                (answer, chunks) = (case attempt of
                    Inl e \<Rightarrow> (''I could not search the course material: '' @ exn_text e, [])
                  | Inr p \<Rightarrow> p)
            in Inr (finish (text_event answer # map citation_of chunks) st)))"

section \<open>Planning\<close>

definition tool_request_dict :: "tool_request \<Rightarrow> pydict" where
  \<comment> \<open>\<open>model_dump()\<close>\<close>
  "tool_request_dict t =
     [(''action'', VStr (tr_action t)), (''message'', VStr (tr_message t)),
      (''requires_approval'', VBool (tr_requires_approval t)), (''payload'', VDict (tr_payload t))]"

definition prepared_dict :: "prepared \<Rightarrow> pydict" where
  "prepared_dict r =
     (case r of
        Needs_input overview questions \<Rightarrow>
          [(''status'', VStr ''needs_user_input''), (''overview'', VList (map VDict overview)),
           (''questions'', VList (map (\<lambda>q. VDict (tool_request_dict q)) questions))]
      | Draft result \<Rightarrow> plan_dict result @ [(''status'', VStr ''draft'')])"

definition draft_instruction :: "pydict \<Rightarrow> string" where
  "draft_instruction outcome =
     (if truthy (vget outcome ''unchanged'') then
        ''The requested change produced the same plan. Say plainly that it could not be applied, '' @
        ''name the constraint that prevented it using design and summary, such as the finish date, '' @
        ''the daily session limit, or a deadline, and offer a concrete alternative such as dropping '' @
        ''material or allowing more sessions per day. Do not present this as a new plan.''
      else if py_str (vget (as_dict (vget outcome ''design'')) ''horizon_met'') = ''False'' then
        ''Summarize the draft plan with its dates. Say clearly that it does not fit the finish date '' @
        ''the student asked for, give the date it actually ends, and ask whether to approve it or '' @
        ''change the scope. ''
      else
        ''Summarize the draft plan with its dates and ask for explicit approval before adding it to '' @
        ''the calendar.'')"

definition pause_with :: "pydict \<Rightarrow> wstate \<Rightarrow> wstate" where
  "pause_with pending st = st\<lparr>w_events := [], w_pending := Some pending, w_answer := None\<rparr>"

definition planning_response :: "services \<Rightarrow> wstate \<Rightarrow> pydict \<Rightarrow> string \<Rightarrow> string result" where
  "planning_response svc st outcome instruction = respond_plan (svc_chat svc) (task_text st) outcome instruction"

definition plan_result_update :: "services \<Rightarrow> pydict \<Rightarrow> wstate \<Rightarrow> wstate result" where
  \<comment> \<open>\<open>_plan_result\<close>\<close>
  "plan_result_update svc outcome st =
     (if vget outcome ''status'' = VStr ''needs_user_input'' then
        map_sum id (\<lambda>message. pause_with
            [(''action'', VStr ''plan_input''), (''next'', VStr ''planning''), (''message'', VStr message),
             (''questions'', VList (map VDict (dicts_of (py_iter (vget outcome ''questions'')))))] st)
          (planning_response svc st outcome ''Ask only for the missing information listed in the result.'')
      else if vget outcome ''status'' = VStr ''draft'' then
        map_sum id (\<lambda>message. pause_with
            [(''action'', VStr ''calendar_approval''), (''next'', VStr ''planning''), (''message'', VStr message),
             (''plan'', VDict outcome)] st)
          (planning_response svc st outcome (draft_instruction outcome))
      else map_sum id (\<lambda>message. finish [text_event message] st)
             (planning_response svc st outcome ''Explain the planning result clearly.''))"

definition calendar_result :: "pydict \<Rightarrow> wstate \<Rightarrow> wstate" where
  \<comment> \<open>\<open>_calendar_result\<close>: the planner has no calendar writer, so \<open>add_to_calendar\<close> returns the pairs\<close>
  "calendar_result draft st =
     (let events = calendar_events (vget draft ''event_day_pairs'') (w_shared st)
      in finish (events @ [text_event (''Added '' @ nat_str (length events) @ '' plan items to your calendar.'')]) st)"

definition prepare ::
  "services \<Rightarrow> pydict \<Rightarrow> pydict \<Rightarrow> string \<Rightarrow> pydict \<times> pydict"
where
  \<comment> \<open>\<open>prepare_plan\<close> on a shared dictionary: its result and the dictionary afterwards\<close>
  "prepare svc shared answers request =
     (let (r, st) = prepare_plan (svc_planner svc) (plan_view shared) VNone (svc_today svc) answers request
      in (prepared_dict r, write_back st shared))"

definition pending_action :: "wstate \<Rightarrow> string" where
  "pending_action st = (case w_pending st of None \<Rightarrow> [] | Some p \<Rightarrow> str_or_empty (vget p ''action''))"

definition fresh_plan :: "services \<Rightarrow> wstate \<Rightarrow> wstate result" where
  \<comment> \<open>the planner works on the state's own dictionary, so its changes stay\<close>
  "fresh_plan svc st =
     (let (outcome, shared) = prepare svc (w_shared st) [] (task_text st)
      in plan_result_update svc outcome (st\<lparr>w_shared := shared\<rparr>))"

definition planning_node :: "services \<Rightarrow> wstate \<Rightarrow> wstate result" where
  "planning_node svc st =
     (case w_answer st of
        None \<Rightarrow> fresh_plan svc st
      | Some answer \<Rightarrow>
          (let pending = (case w_pending st of None \<Rightarrow> [] | Some p \<Rightarrow> p); action = pending_action st;
               working = st\<lparr>w_shared := ra_shared answer\<rparr>; text = ra_text answer
           in if action = [] then fresh_plan svc st
              else if action = ''calendar_approval'' then
                (let draft = as_dict (vget pending ''plan'')
                 in if affirmative text then Inr (calendar_result draft working)
                    else if negative text then Inr (finish [text_event ''Okay, I kept the plan as a draft.''] working)
                    else (let revised = fst (prepare svc (ra_shared answer) [] text);
                              revised = (if same_draft draft revised then dict_set ''unchanged'' (VBool True) revised else revised)
                          in plan_result_update svc revised working))
              else if action = ''plan_input'' then
                plan_result_update svc (fst (prepare svc (ra_shared answer) (plan_answers text) text)) working
              else plan_result_update svc (fst (prepare svc (ra_shared answer) [] (task_text st))) st))"

section \<open>Quizzes\<close>

record quiz_payload =
  qp_query :: string
  qp_course_id :: pyval
  qp_course :: pyval
  qp_count :: int
  qp_topics :: "string list"

definition course_material ::
  "services \<Rightarrow> string \<Rightarrow> string option \<Rightarrow> pydict \<Rightarrow> int \<Rightarrow> string option \<times> pydict list"
where
  \<comment> \<open>\<open>_course_material\<close>: the first course in order whose chunks have text; a failing retrieval is skipped\<close>
  "course_material svc query course_id state top_k =
     (let order = (case course_id of None \<Rightarrow> [] | Some c \<Rightarrow> [c]) @
            filter (\<lambda>c. Some c \<noteq> course_id) (map lc_id (library_of state));
          usable = (\<lambda>c. case rag_retrieve (svc_retriever svc) query (VStr c) top_k of
              Inl e \<Rightarrow> [] | Inr chunks \<Rightarrow> filter (\<lambda>chunk. strip (str_or_empty (vget chunk ''text'')) \<noteq> []) chunks)
      in case find (\<lambda>c. c \<noteq> [] \<and> usable c \<noteq> []) order of
           Some c \<Rightarrow> (Some c, usable c)
         | None \<Rightarrow> (course_id, []))"

definition material_entry :: "string option \<Rightarrow> pydict \<Rightarrow> pydict" where
  "material_entry name chunk =
     [(''title'', py_or (py_or (vget chunk ''section'') (vget chunk ''filename'')) (VStr ''Course material'')),
      (''course'', opt_str name), (''content'', vget_default chunk ''text'' (VStr []))]"

definition quiz_material :: "services \<Rightarrow> quiz_payload \<Rightarrow> wstate \<Rightarrow> string option \<times> string option \<times> pydict list" where
  "quiz_material svc p st =
     (let topics = join '' '' (qp_topics p);
          query = (if qp_query p \<noteq> [] then qp_query p else if topics \<noteq> [] then topics else ''key course concepts'');
          wanted = resolve_course_id query (w_shared st) (py_or (qp_course_id p) (vget (rq_context (w_request st)) ''course_id''));
          (course_id, chunks) = course_material svc query wanted (w_shared st) (max 3 (qp_count p * 2));
          name = none_if_empty (strip (str_or_empty (py_or (qp_course p) (opt_str (course_name (w_shared st) course_id)))))
      in (course_id, name, map (material_entry name) (filter (\<lambda>chunk. truthy (vget chunk ''text'')) chunks)))"

definition quiz_message :: "services \<Rightarrow> pydict \<Rightarrow> wstate \<Rightarrow> string option \<Rightarrow> nat \<Rightarrow> string" where
  "quiz_message svc z st name n =
     or_else (describe_quiz (svc_chat svc) (task_text st) z name) (''Created a quiz with '' @ nat_str n @ '' questions.'')"

definition first_truthy_id :: "string option \<Rightarrow> pyval \<Rightarrow> pydict \<Rightarrow> pyval" where
  \<comment> \<open>\<open>course_id or context.get("course_id") or self._first_course_id(...)\<close>\<close>
  "first_truthy_id course_id from_context shared =
     py_or (py_or (opt_str course_id) from_context) (opt_str (first_course_id shared))"

definition quiz_result :: "services \<Rightarrow> pydict \<Rightarrow> wstate \<Rightarrow> string option \<Rightarrow> string option \<Rightarrow> wstate" where
  "quiz_result svc z st course_id name =
     (let cid = first_truthy_id course_id (vget (rq_context (w_request st)) ''course_id'') (w_shared st);
          name = (case name of
              Some n \<Rightarrow> if n \<noteq> [] then Some n else course_name (w_shared st) (id_text cid)
            | None \<Rightarrow> course_name (w_shared st) (id_text cid));
          questions = normalised_questions z;
          created = event_of ''quiz_create''
            [(''title'', VStr ((case name of Some n \<Rightarrow> n @ '' '' | None \<Rightarrow> []) @ ''practice quiz'')), (''course_id'', cid),
             (''source_collections'', VList [VStr ''slides'']), (''questions'', VList (map VDict questions))]
      in finish
           ([created, text_event (quiz_message svc z st name (length questions))] @
            (if truthy (vget z ''short_of_request'') then
               [text_event (''Your course material only supported '' @ nat_str (length questions) @ '' of the '' @
                  py_str (vget z ''requested_count'') @ '' questions you asked for.'')]
             else [])) st)"

definition needs_material_dict :: pydict where
  "needs_material_dict =
     [(''status'', VStr ''needs_material''),
      (''message'', VStr ''Add course material with text or sections before generating a quiz.''),
      (''parts'', VList []), (''questions'', VList [])]"

definition make_quiz :: "services \<Rightarrow> quiz_payload \<Rightarrow> wstate \<Rightarrow> wstate result" where
  \<comment> \<open>\<open>_generate_quiz\<close>\<close>
  "make_quiz svc p st =
     (let (course_id, name, material) = quiz_material svc p st
      in map_sum id (\<lambda>outcome. case outcome of
             Needs_material \<Rightarrow> finish [text_event (material_problem (w_shared st) needs_material_dict (material \<noteq> []))] st
           | Ready z \<Rightarrow> quiz_result svc (quiz_dict z) st course_id name)
           (generate_quiz (svc_questions svc) (Some (plan_view (w_shared st)))
              (if material \<noteq> [] then VList (map VDict material) else VNone) name (VInt (qp_count p)) (texts (qp_topics p))))"

definition quiz_scope_of :: "services \<Rightarrow> string \<Rightarrow> wstate \<Rightarrow> quiz_scope option" where
  \<comment> \<open>\<open>_quiz_scope\<close>; \<open>None\<close> is the empty dictionary\<close>
  "quiz_scope_of svc query st =
     (case scope (svc_scope svc) query (recent_turns (rq_messages (w_request st)))
             (filter (\<lambda>n. n \<noteq> []) (map lc_name (library_of (w_shared st)))) of
        Inl e \<Rightarrow> None | Inr s \<Rightarrow> Some s)"

definition quiz_node :: "services \<Rightarrow> wstate \<Rightarrow> wstate result" where
  "quiz_node svc st =
     (let query = task_text st; context = rq_context (w_request st); found = quiz_scope_of svc query st;
          scoped_course = (case found of Some s \<Rightarrow> VStr (sc_course s) | None \<Rightarrow> VNone);
          scoped_count = (case found of Some s \<Rightarrow> sc_count s | None \<Rightarrow> 0)
      in make_quiz svc
           \<lparr>qp_query = query, qp_course_id = vget context ''course_id'', qp_course = py_or scoped_course (vget context ''course''),
            qp_count = (if scoped_count \<noteq> 0 then scoped_count else requested_count query),
            qp_topics = (case found of Some s \<Rightarrow> sc_topics s | None \<Rightarrow> [])\<rparr> st)"

section \<open>Progress and documents\<close>

definition progress_node :: "services \<Rightarrow> wstate \<Rightarrow> wstate result" where
  "progress_node svc st =
     (let tasks = dicts_of (py_iter (vget (rq_snapshot (w_request st)) ''tasks''));
          completed = length (filter (\<lambda>t. vget t ''status'' = VStr ''done'') tasks);
          overdue = filter (\<lambda>t. vget t ''status'' = VStr ''todo'' \<and> past (svc_now svc) (vget t ''end_at'')) tasks
      in map_sum id (\<lambda>message.
           finish (text_event message #
             (if overdue \<noteq> [] then
                [event_of ''notification_create''
                   [(''title'', VStr ''Overdue study tasks''), (''message'', VStr message), (''severity'', VStr ''warning''),
                    (''dedupe_key'', VStr (''overdue-'' @ iso_of_date (svc_today svc)))]]
              else [])) st)
         (review (svc_chat svc)
           [(''total_tasks'', VInt (int (length tasks))), (''completed_tasks'', VInt (int completed)),
            (''incomplete_tasks'', VInt (int (length tasks) - int completed)), (''tasks'', VList (map VDict tasks))]))"

definition document_node :: "wstate \<Rightarrow> wstate" where
  "document_node st =
     (let document = rq_document (w_request st);
          name = py_str (vget_default document ''filename'' (VStr ''the document''))
      in if rq_type (w_request st) = ''document_ingest''
         then finish [text_event (''Recorded '' @ name @ '' in the course library.''),
                event_of ''document_status'' [(''document_id'', vget document ''id''), (''status'', VStr ''ready'')]] st
         else finish [text_event (''Removed '' @ name @ '' from the course library.'')] st)"

section \<open>The graph\<close>

datatype node = Communication | Supervisor | Rag | Planning | Quiz | Approval | Progress | Document | End

definition run_node :: "services \<Rightarrow> node \<Rightarrow> wstate \<Rightarrow> wstate result" where
  "run_node svc n st =
     (case n of
        Communication \<Rightarrow> communication_node svc st
      | Supervisor \<Rightarrow> supervisor_node svc st
      | Rag \<Rightarrow> rag_node svc st
      | Planning \<Rightarrow> planning_node svc st
      | Quiz \<Rightarrow> quiz_node svc st
      | Progress \<Rightarrow> progress_node svc st
      | Document \<Rightarrow> Inr (document_node st)
      | _ \<Rightarrow> Inr st)"

definition routed :: "wstate \<Rightarrow> node" where
  "routed st =
     (if w_route st = ''planning'' then Planning else if w_route st = ''quiz'' then Quiz
      else if w_route st = ''progress'' then Progress else if w_route st = ''document'' then Document else Rag)"

definition edge :: "node \<Rightarrow> wstate \<Rightarrow> node" where
  \<comment> \<open>\<open>_build_graph\<close>: where the run goes after a node\<close>
  "edge n st =
     (case n of
        Communication \<Rightarrow> if w_understood st then Supervisor else End
      | Supervisor \<Rightarrow> routed st
      | Planning \<Rightarrow> if w_pending st \<noteq> None then Approval else End
      | Quiz \<Rightarrow> if w_pending st \<noteq> None then Approval else End
      | Approval \<Rightarrow>
          (case w_pending st of None \<Rightarrow> End
           | Some p \<Rightarrow> if vget p ''next'' = VStr ''planning'' then Planning
                       else if vget p ''next'' = VStr ''quiz'' then Quiz else End)
      | _ \<Rightarrow> End)"

fun rank :: "node \<Rightarrow> nat" where
  "rank Communication = 3"
| "rank Supervisor = 2"
| "rank End = 0"
| "rank Approval = 0"
| "rank n = 1"

lemma edge_rank: "n \<noteq> Approval \<Longrightarrow> n \<noteq> End \<Longrightarrow> rank (edge n st) < rank n"
  by (cases n) (auto simp: edge_def routed_def)

function run_graph :: "services \<Rightarrow> node \<Rightarrow> wstate \<Rightarrow> (wstate \<times> bool) result" where
  \<comment> \<open>the state where the run ended, and whether it stopped at the interrupt of the approval node\<close>
  "run_graph svc n st =
     (if n = End then Inr (st, False)
      else if n = Approval then Inr (st, True)
      else (case run_node svc n st of Inl e \<Rightarrow> Inl e | Inr st' \<Rightarrow> run_graph svc (edge n st') st'))"
  by pat_completeness auto

termination
  by (relation "measure (\<lambda>(svc, n, st). rank n)") (auto simp: edge_rank)

declare run_graph.simps [simp del]

section \<open>Handling a request\<close>

record paused =
  pa_graph :: string      \<comment> \<open>\<open>graph_thread_id\<close>\<close>
  pa_pending :: pydict

record gateway =
  gw_paused :: "(string, paused) dict"
  gw_saved :: "(string, wstate) dict"   \<comment> \<open>the checkpoints of interrupted runs, by graph thread id\<close>

definition fresh_state :: "request \<Rightarrow> pydict \<Rightarrow> bool \<Rightarrow> string \<Rightarrow> wstate" where
  "fresh_state request shared understood task =
     \<lparr>w_request = request\<lparr>rq_context := dict_set ''shared_state'' (VDict shared) (rq_context request)\<rparr>, w_shared = shared,
      w_checked = understood, w_understood = understood, w_task = task, w_route = ''rag'', w_pending = None,
      w_answer = None, w_events = []\<rparr>"

definition thread_of :: "request \<Rightarrow> string" where
  "thread_of request = py_str (py_or (vget (rq_context request) ''thread_id'') (VStr ''nahaj-default''))"

definition graph_thread :: "request \<Rightarrow> string" where
  "graph_thread request = thread_of request @ '':'' @ rq_id request"

definition drop_key :: "'k \<Rightarrow> ('k, 'v) dict \<Rightarrow> ('k, 'v) dict" where
  \<comment> \<open>\<open>d.pop(k, None)\<close>\<close>
  "drop_key k d = filter (\<lambda>p. fst p \<noteq> k) d"

definition resume_at :: "services \<Rightarrow> gateway \<Rightarrow> string \<Rightarrow> resume \<Rightarrow> (wstate \<times> bool) result" where
  \<comment> \<open>\<open>Command(resume=...)\<close>: the approval node returns the answer and the run goes on from there\<close>
  "resume_at svc gw gid answer =
     (case map_of (gw_saved gw) gid of
        None \<Rightarrow> Inl (OtherError ''KeyError'')
      | Some st \<Rightarrow> (let st = st\<lparr>w_answer := Some answer\<rparr> in run_graph svc (edge Approval st) st))"

definition emit :: "gateway \<Rightarrow> string \<Rightarrow> string \<Rightarrow> (wstate \<times> bool) result \<Rightarrow> sup_event list result \<times> gateway" where
  \<comment> \<open>the events of a finished or interrupted run, and the paused threads after it\<close>
  "emit gw thread gid outcome =
     (case outcome of
        Inl e \<Rightarrow> (Inl e, gw)
      | Inr (st, interrupted) \<Rightarrow>
          (let events = map validated_event (w_events st)
           in if interrupted then
                (let value = (case w_pending st of Some p \<Rightarrow> p | None \<Rightarrow> [])
                 in (Inr (events @ [event_of ''status'' (dict_update [(''status'', VStr ''approval_required'')] value)] @
                       (if truthy (vget value ''message'')
                        then [text_event (safe_final_response (str_or_empty (vget value ''message'')))] else [])),
                     gw\<lparr>gw_paused := dict_set thread \<lparr>pa_graph = gid, pa_pending = value\<rparr> (gw_paused gw),
                        gw_saved := dict_set gid st (gw_saved gw)\<rparr>))
              else (Inr events,
                    case map_of (gw_paused gw) thread of
                      Some p \<Rightarrow> if pa_graph p = gid then gw\<lparr>gw_paused := drop_key thread (gw_paused gw)\<rparr> else gw
                    | None \<Rightarrow> gw)))"

definition handle :: "services \<Rightarrow> gateway \<Rightarrow> request \<Rightarrow> sup_event list result \<times> gateway" where
  "handle svc gw request =
     (let thread = thread_of request; text = latest_user (rq_messages request);
          shared = state_dict (vget (rq_context request) ''shared_state'');
          chat = (rq_type request = ''chat'')
      in if chat \<and> has_prompt_injection text then (Inr [text_event PROMPT_INJECTION_MESSAGE], gw)
         else case (if chat then map_of (gw_paused gw) thread else None) of
           None \<Rightarrow>
             emit gw thread (graph_thread request) (run_graph svc Communication (fresh_state request shared False []))
         | Some p \<Rightarrow>
             (case communicate (svc_communicator svc) text (pa_pending p) (recent_turns (rq_messages request)) of
                Inl e \<Rightarrow> (Inl e, gw)
              | Inr d \<Rightarrow>
                  if \<not> cd_understood d then
                    (if strip (cd_response d) = []
                     then (Inl (RuntimeError ''The communication model returned an empty response.''), gw)
                     else (Inr [text_event (safe_final_response (cd_response d))], gw))
                  else if cd_answers_pending d then
                    emit gw thread (pa_graph p) (resume_at svc gw (pa_graph p) \<lparr>ra_text = text, ra_shared = shared\<rparr>)
                  else
                    (let gw = gw\<lparr>gw_paused := drop_key thread (gw_paused gw)\<rparr>;
                         task = (if cd_task d \<noteq> [] then cd_task d else text)
                     in emit gw thread (graph_thread request) (run_graph svc Communication (fresh_state request shared True task)))))"

end
