(* ===== verification/Store.thy ===== *)
theory Store
  imports PyVal
begin

text \<open>
  The database of the API (\<open>backend/models.py\<close>): one record per table row, one list of rows per
  table in insertion order, lookup by primary key, replacement and deletion, the relationships with
  their order and cascades. An instant is a number of microseconds in UTC. SQLAlchemy and the
  database engine are modelled by what the source uses of them: a session reads the committed
  rows, \<open>commit\<close> makes its changes visible, and a request that fails before its commit leaves the
  database as it was. Column lengths are not enforced.
\<close>

section \<open>Failures of a request\<close>

text \<open>
  \<open>APIError\<close> becomes the JSON error answer of its status; any other exception escapes the handler.
\<close>

datatype fault =
    API_error (api_status: int) (api_code: string) (api_message: string) (api_details: pydict)
  | Raised exn
  | Integrity_error   \<comment> \<open>the database refuses the rows: \<open>sqlalchemy.exc.IntegrityError\<close>\<close>

type_synonym 'a answer = "fault + 'a"

section \<open>Rows\<close>

type_synonym instant = int

record semester_row =
  sem_id :: string
  sem_name :: string
  sem_start :: date
  sem_end :: date
  sem_timezone :: string
  sem_active :: bool
  sem_created :: instant
  sem_updated :: instant

record course_row =
  co_id :: string
  co_semester :: string
  co_code :: string
  co_name :: string
  co_color :: string
  co_created :: instant
  co_updated :: instant

record document_row =
  do_id :: string
  do_course :: string
  do_collection :: string
  do_filename :: string
  do_media_type :: string
  do_size :: int
  do_sha256 :: string
  do_path :: string
  do_status :: string
  do_error :: "string option"
  do_created :: instant
  do_updated :: instant

record task_row =
  ta_id :: string
  ta_course :: "string option"
  ta_title :: string
  ta_notes :: "string option"
  ta_start :: instant
  ta_end :: instant
  ta_status :: string
  ta_origin :: string
  ta_created :: instant
  ta_updated :: instant

record quiz_row =
  qr_id :: string
  qr_course :: "string option"
  qr_title :: string
  qr_collections :: "string list"
  qr_created :: instant

record question_row =
  qu_id :: string
  qu_quiz :: string
  qu_prompt :: string
  qu_topic :: "string option"
  qu_explanation :: "string option"
  qu_correct :: string
  qu_position :: nat

record option_row =
  op_id :: string
  op_question :: string
  op_key :: string
  op_text :: string
  op_position :: nat

record attempt_row =
  at_id :: string
  at_quiz :: string
  at_status :: string
  at_score :: "rat option"
  at_weak :: "string list"
  at_started :: instant
  at_completed :: "instant option"

record answer_row =
  an_id :: string
  an_attempt :: string
  an_question :: string
  an_selected :: string
  an_correct :: bool
  an_answered :: instant

record notification_row =
  no_id :: string
  no_severity :: string
  no_title :: string
  no_message :: string
  no_target :: "string option"
  no_dedupe :: "string option"
  no_read :: "instant option"
  no_created :: instant

record db =
  db_semesters :: "semester_row list"
  db_courses :: "course_row list"
  db_documents :: "document_row list"
  db_tasks :: "task_row list"
  db_quizzes :: "quiz_row list"
  db_questions :: "question_row list"
  db_options :: "option_row list"
  db_attempts :: "attempt_row list"
  db_answers :: "answer_row list"
  db_notifications :: "notification_row list"

text \<open>
  What a request draws from its surroundings: the identifiers \<open>uuid4()\<close> hands out and the
  readings of the clock (\<open>now_utc()\<close>), each in the order the request asks for them.
\<close>

record draws =
  su_id :: "nat \<Rightarrow> string"
  su_now :: "nat \<Rightarrow> instant"

section \<open>Tables\<close>

definition find_row :: "('r \<Rightarrow> string) \<Rightarrow> string \<Rightarrow> 'r list \<Rightarrow> 'r option" where
  \<comment> \<open>\<open>db.get(Model, key)\<close>\<close>
  "find_row key k rows = find (\<lambda>r. key r = k) rows"

fun put_row :: "('r \<Rightarrow> string) \<Rightarrow> 'r \<Rightarrow> 'r list \<Rightarrow> 'r list" where
  \<comment> \<open>the row with the same key takes the new values, a new row goes to the end\<close>
  "put_row key r [] = [r]"
| "put_row key r (x # xs) = (if key x = key r then r # xs else x # put_row key r xs)"

definition del_row :: "('r \<Rightarrow> string) \<Rightarrow> string \<Rightarrow> 'r list \<Rightarrow> 'r list" where
  "del_row key k rows = filter (\<lambda>r. key r \<noteq> k) rows"

definition keys_ok :: "('r \<Rightarrow> string) \<Rightarrow> 'r list \<Rightarrow> bool" where
  "keys_ok key rows \<longleftrightarrow> distinct (map key rows)"

text \<open>
  The contract of a table of records with a primary key, over the map from keys to records it
  stands for. The clients below rely on it and not on the order of the rows.
\<close>

locale keyed_table =
  fixes lookup :: "string \<Rightarrow> 't \<Rightarrow> 'r option"
    and store :: "'r \<Rightarrow> 't \<Rightarrow> 't"
    and remove :: "string \<Rightarrow> 't \<Rightarrow> 't"
    and key :: "'r \<Rightarrow> string"
    and valid :: "'t \<Rightarrow> bool"
  assumes lookup_store: "lookup k (store r t) = (if k = key r then Some r else lookup k t)"
    and lookup_remove: "lookup k (remove k' t) = (if k = k' then None else lookup k t)"
    and lookup_key: "lookup k t = Some r \<Longrightarrow> key r = k"
    and valid_store: "valid t \<Longrightarrow> valid (store r t)"
    and valid_remove: "valid t \<Longrightarrow> valid (remove k t)"
begin

definition abs_map :: "'t \<Rightarrow> string \<Rightarrow> 'r option" where
  "abs_map t = (\<lambda>k. lookup k t)"

lemma abs_store: "abs_map (store r t) = (abs_map t)(key r \<mapsto> r)"
  by (auto simp: abs_map_def lookup_store)

lemma abs_remove: "abs_map (remove k t) = (abs_map t)(k := None)"
  by (auto simp: abs_map_def lookup_remove)

lemma abs_store_twice: "key r = key r' \<Longrightarrow> abs_map (store r' (store r t)) = abs_map (store r' t)"
  by (simp add: abs_store)

lemma abs_remove_store: "abs_map (remove (key r) (store r t)) = abs_map (remove (key r) t)"
  by (simp add: abs_store abs_remove)

end

lemma find_put_row: "find_row key k (put_row key r rows) = (if k = key r then Some r else find_row key k rows)"
  by (induction rows) (auto simp: find_row_def)

lemma find_del_row: "find_row key k (del_row key k' rows) = (if k = k' then None else find_row key k rows)"
  by (induction rows) (auto simp: find_row_def del_row_def)

lemma find_row_Some: "find_row key k rows = Some r \<Longrightarrow> r \<in> set rows \<and> key r = k"
  by (auto simp: find_row_def find_Some_iff)

lemma find_row_None: "find_row key k rows = None \<longleftrightarrow> k \<notin> key ` set rows"
  by (auto simp: find_row_def find_None_iff)

lemma find_row_key: "find_row key k rows = Some r \<Longrightarrow> key r = k"
  by (simp add: find_row_Some)

lemma keys_put_row: "key ` set (put_row key r rows) = insert (key r) (key ` set rows)"
  by (induction rows) auto

lemma set_put_row: "set (put_row key r rows) \<subseteq> insert r (set rows)"
  by (induction rows) auto

lemma put_row_same: "r \<in> set (put_row key r rows)"
  by (induction rows) auto

lemma keys_ok_put: "keys_ok key rows \<Longrightarrow> keys_ok key (put_row key r rows)"
proof (induction rows)
  case (Cons x xs)
  then show ?case
    using keys_put_row [of key r xs] by (auto simp: keys_ok_def)
qed (simp add: keys_ok_def)

lemma keys_ok_del: "keys_ok key rows \<Longrightarrow> keys_ok key (del_row key k rows)"
  by (simp add: keys_ok_def del_row_def distinct_map_filter)

lemma find_row_member:
  "keys_ok key rows \<Longrightarrow> r \<in> set rows \<Longrightarrow> find_row key (key r) rows = Some r"
  by (induction rows) (auto simp: find_row_def keys_ok_def)

lemma keys_ok_inj: "keys_ok key rows \<Longrightarrow> x \<in> set rows \<Longrightarrow> y \<in> set rows \<Longrightarrow> key x = key y \<Longrightarrow> x = y"
  by (auto simp: keys_ok_def distinct_map inj_on_def)

lemma keys_ok_filter: "keys_ok key rows \<Longrightarrow> keys_ok key (filter P rows)"
  by (simp add: keys_ok_def distinct_map_filter)

lemma set_put_row_eq:
  "keys_ok key rows \<Longrightarrow> set (put_row key r rows) = insert r {x \<in> set rows. key x \<noteq> key r}"
  by (induction rows) (auto simp: keys_ok_def image_iff)

lemma put_row_new: "key r \<notin> key ` set rows \<Longrightarrow> put_row key r rows = rows @ [r]"
  by (induction rows) auto

lemma map_put_row:
  "keys_ok key rows \<Longrightarrow> x \<in> set rows \<Longrightarrow> key r = key x \<Longrightarrow> f r = f x \<Longrightarrow> map f (put_row key r rows) = map f rows"
proof (induction rows)
  case (Cons y ys)
  then have "y = x" if "key y = key x"
    using keys_ok_inj [of key "y # ys" y x] that by simp
  with Cons show ?case by (auto simp: keys_ok_def)
qed simp

lemma filter_put_row:
  "\<not> P r \<Longrightarrow> (\<And>x. x \<in> set rows \<Longrightarrow> key x = key r \<Longrightarrow> \<not> P x) \<Longrightarrow> filter P (put_row key r rows) = filter P rows"
  by (induction rows) auto

lemma list_table:
  "keyed_table (find_row key) (put_row key) (del_row key) key (keys_ok key)"
  by unfold_locales (auto simp: find_put_row find_del_row keys_ok_put keys_ok_del dest: find_row_key)

interpretation courses: keyed_table "find_row co_id" "put_row co_id" "del_row co_id" co_id "keys_ok co_id"
  by (rule list_table)

interpretation documents: keyed_table "find_row do_id" "put_row do_id" "del_row do_id" do_id "keys_ok do_id"
  by (rule list_table)

interpretation tasks: keyed_table "find_row ta_id" "put_row ta_id" "del_row ta_id" ta_id "keys_ok ta_id"
  by (rule list_table)

interpretation quizzes: keyed_table "find_row qr_id" "put_row qr_id" "del_row qr_id" qr_id "keys_ok qr_id"
  by (rule list_table)

interpretation attempts: keyed_table "find_row at_id" "put_row at_id" "del_row at_id" at_id "keys_ok at_id"
  by (rule list_table)

interpretation notifications: keyed_table "find_row no_id" "put_row no_id" "del_row no_id" no_id "keys_ok no_id"
  by (rule list_table)

section \<open>Relationships\<close>

definition quiz_questions :: "db \<Rightarrow> string \<Rightarrow> question_row list" where
  \<comment> \<open>\<open>quiz.questions\<close>\<close>
  "quiz_questions d quiz = sort_key qu_position (filter (\<lambda>q. qu_quiz q = quiz) (db_questions d))"

definition question_options :: "db \<Rightarrow> string \<Rightarrow> option_row list" where
  \<comment> \<open>\<open>question.options\<close>\<close>
  "question_options d question = sort_key op_position (filter (\<lambda>p. op_question p = question) (db_options d))"

definition attempt_answers :: "db \<Rightarrow> string \<Rightarrow> answer_row list" where
  \<comment> \<open>\<open>attempt.answers\<close>\<close>
  "attempt_answers d attempt = filter (\<lambda>a. an_attempt a = attempt) (db_answers d)"

definition cascade_quiz :: "string \<Rightarrow> db \<Rightarrow> db" where
  \<comment> \<open>deleting a quiz deletes its questions with their options and its attempts with their answers\<close>
  "cascade_quiz quiz d =
     (let gone = map qu_id (filter (\<lambda>q. qu_quiz q = quiz) (db_questions d));
          tried = map at_id (filter (\<lambda>a. at_quiz a = quiz) (db_attempts d))
      in d\<lparr>db_quizzes := del_row qr_id quiz (db_quizzes d),
           db_questions := filter (\<lambda>q. qu_quiz q \<noteq> quiz) (db_questions d),
           db_options := filter (\<lambda>p. op_question p \<notin> set gone) (db_options d),
           db_attempts := filter (\<lambda>a. at_quiz a \<noteq> quiz) (db_attempts d),
           db_answers := filter (\<lambda>a. an_attempt a \<notin> set tried \<and> an_question a \<notin> set gone) (db_answers d)\<rparr>)"

section \<open>Instants\<close>

definition stamp :: "instant \<Rightarrow> pyval" where
  \<comment> \<open>an aware datetime in UTC\<close>
  "stamp i = VDateTime (date_of_instant i, i mod day_us, Some 0)"

definition opt_stamp :: "instant option \<Rightarrow> pyval" where
  "opt_stamp x = (case x of None \<Rightarrow> VNone | Some i \<Rightarrow> stamp i)"

lemma instant_of_stamp: "instant_of (date_of_instant i, i mod day_us, Some 0) = i"
  by (simp add: instant_of_def date_of_instant_def)

definition text_column :: "pyval \<Rightarrow> string option" where
  \<comment> \<open>a value written to a nullable text column\<close>
  "text_column v = (case v of VNone \<Rightarrow> None | _ \<Rightarrow> Some (py_str v))"

end
