(* ===== verification/PyJson.thy ===== *)
theory PyJson
  imports PyVal
begin

text \<open>
  \<open>json.dumps(value, ensure_ascii=False)\<close> with the default separators, and with
  \<open>sort_keys=True\<close>: the text the API hashes to deduplicate notifications and sends to the chat
  client. Dates are not serialisable: Python raises \<open>TypeError\<close>.
\<close>

definition json_char :: "char \<Rightarrow> string" where
  "json_char c =
     (if code c = 34 \<or> code c = 92 then [CHR 0x5C, c]
      else if code c = 10 then [CHR 0x5C, CHR ''n'']
      else if code c = 13 then [CHR 0x5C, CHR ''r'']
      else if code c = 9 then [CHR 0x5C, CHR ''t'']
      else if code c = 8 then [CHR 0x5C, CHR ''b'']
      else if code c = 12 then [CHR 0x5C, CHR ''f'']
      else if code c < 32
      then [CHR 0x5C, CHR ''u'', CHR ''0'', CHR ''0'', hex_char (code c div 16), hex_char (code c mod 16)]
      else [c])"

definition json_str :: "string \<Rightarrow> string" where
  "json_str s = [CHR 0x22] @ concat (map json_char s) @ [CHR 0x22]"

fun json_dumps :: "pyval \<Rightarrow> string option" where
  "json_dumps VNone = Some ''null''"
| "json_dumps (VBool b) = Some (if b then ''true'' else ''false'')"
| "json_dumps (VInt i) = Some (int_str i)"
| "json_dumps (VFloat x) = Some (float_str x)"
| "json_dumps (VStr s) = Some (json_str s)"
| "json_dumps (VList xs) = map_option (\<lambda>ts. ''['' @ join '', '' ts @ '']'') (those (map json_dumps xs))"
| "json_dumps (VDict d) =
     map_option (\<lambda>ts. ''{'' @ join '', '' ts @ ''}'')
       (those (map (\<lambda>(k, v). map_option (\<lambda>t. json_str k @ '': '' @ t) (json_dumps v)) d))"
| "json_dumps (VDate d) = None"
| "json_dumps (VDateTime d) = None"

fun sort_keys :: "pyval \<Rightarrow> pyval" where
  "sort_keys (VList xs) = VList (map sort_keys xs)"
| "sort_keys (VDict d) = VDict (sort_key fst (map (\<lambda>(k, v). (k, sort_keys v)) d))"
| "sort_keys v = v"

end
