(* ===== verification/Events.thy ===== *)
theory Events
  imports Store PyJson Workflow
begin

text \<open>
  What the API does with the events of the supervisor (\<open>_coerce_event\<close>, \<open>_apply_event\<close>,
  \<open>_consume_supervisor\<close>, \<open>_process_document_ingest\<close> and the progress snapshot of
  \<open>backend/main.py\<close>). The session keeps changes that were not committed when an event is refused:
  a request that ends there drops them, the document ingest goes on with the same session and
  commits them. \<open>Failed f d left\<close> therefore holds the committed database \<open>d\<close> and what the next
  commit of the session would make of it (\<open>None\<close> when the database would refuse it).
\<close>

datatype 'a outcome =
    Done 'a db
  | Failed fault db "db option"

section \<open>Lookups that answer 404\<close>

definition get_course_row :: "db \<Rightarrow> string \<Rightarrow> course_row answer" where
  \<comment> \<open>\<open>_get_course\<close>\<close>
  "get_course_row d course_id =
     (case find_row co_id course_id (db_courses d) of
        None \<Rightarrow> Inl (API_error 404 ''course_not_found'' ''Course was not found.'' [(''course_id'', VStr course_id)])
      | Some c \<Rightarrow> Inr c)"

definition get_document_row :: "db \<Rightarrow> string \<Rightarrow> document_row answer" where
  "get_document_row d document_id =
     (case find_row do_id document_id (db_documents d) of
        None \<Rightarrow> Inl (API_error 404 ''document_not_found'' ''Document was not found.'' [(''document_id'', VStr document_id)])
      | Some r \<Rightarrow> Inr r)"

definition get_task_row :: "db \<Rightarrow> string \<Rightarrow> task_row answer" where
  "get_task_row d task_id =
     (case find_row ta_id task_id (db_tasks d) of
        None \<Rightarrow> Inl (API_error 404 ''task_not_found'' ''Study task was not found.'' [(''task_id'', VStr task_id)])
      | Some t \<Rightarrow> Inr t)"

section \<open>Values of events\<close>

definition iso_datetime :: "pyval \<Rightarrow> string \<Rightarrow> instant answer" where
  \<comment> \<open>\<open>_iso_datetime\<close>: a datetime, or the text of anything else; naive datetimes are UTC\<close>
  "iso_datetime value field =
     (case value of
        VDateTime dt \<Rightarrow> Inr (instant_of dt)
      | _ \<Rightarrow> (case parse_iso_z (py_str value) of
          None \<Rightarrow> Inl (API_error 422 ''invalid_datetime'' (field @ '' must be an ISO-8601 datetime.'') [])
        | Some dt \<Rightarrow> Inr (instant_of dt)))"

definition hashed_in :: "pyval \<Rightarrow> string list \<Rightarrow> bool answer" where
  \<comment> \<open>\<open>v in {...}\<close>: lists and dictionaries are unhashable\<close>
  "hashed_in v names =
     (case v of
        VList _ \<Rightarrow> Inl (Raised (TypeError ''unhashable type''))
      | VDict _ \<Rightarrow> Inl (Raised (TypeError ''unhashable type''))
      | VStr s \<Rightarrow> Inr (s \<in> set names)
      | _ \<Rightarrow> Inr False)"

fun py_elements :: "pyval \<Rightarrow> pyval list answer" where
  \<comment> \<open>\<open>list(v)\<close>\<close>
  "py_elements (VList xs) = Inr xs"
| "py_elements (VStr s) = Inr (py_iter (VStr s))"
| "py_elements (VDict d) = Inr (py_iter (VDict d))"
| "py_elements v = Inl (Raised (TypeError ''object is not iterable''))"

datatype raw_event =
    Supervisor_event sup_event
  | Mapping_event pydict
  | Object_event pydict   \<comment> \<open>any other object, as the dictionary of its attributes\<close>

definition as_data :: "pyval \<Rightarrow> pydict answer" where
  \<comment> \<open>\<open>dict(v)\<close> of a mapping\<close>
  "as_data v = (case v of VDict d \<Rightarrow> Inr d | _ \<Rightarrow> Inl (Raised (TypeError ''cannot convert to a dictionary'')))"

definition coerce_event :: "raw_event \<Rightarrow> sup_event answer" where
  \<comment> \<open>\<open>_coerce_event\<close>\<close>
  "coerce_event raw =
     (case raw of
        Supervisor_event e \<Rightarrow> Inr e
      | Mapping_event d \<Rightarrow>
          map_sum id (event_of (py_str (vget_default d ''kind'' (vget_default d ''type'' (VStr [])))))
            (as_data (py_or (vget d ''data'') (VDict (filter (\<lambda>p. fst p \<notin> set [''kind'', ''type'']) d))))
      | Object_event d \<Rightarrow>
          map_sum id (event_of (py_str (vget_default d ''kind'' (vget_default d ''type'' (VStr [])))))
            (as_data (py_or (vget_default d ''data'' (VDict [])) (VDict []))))"

section \<open>The state of a consumed stream\<close>

record chat_state =
  cs_text :: "string list"
  cs_citations :: "pydict list"
  cs_links :: "(string \<times> string) list"
  cs_document :: pyval
  cs_plan_changed :: bool

definition new_chat_state :: "pyval \<Rightarrow> chat_state" where
  "new_chat_state document_id =
     \<lparr>cs_text = [], cs_citations = [], cs_links = [], cs_document = document_id, cs_plan_changed = False\<rparr>"

definition ALLOWED_COLLECTIONS :: "string list" where
  "ALLOWED_COLLECTIONS = [''slides'', ''past_exam'']"

definition TASK_STATUSES :: "string list" where
  "TASK_STATUSES = [''todo'', ''done'', ''skipped'']"

section \<open>Documents and tasks\<close>

definition save_document :: "document_row \<Rightarrow> db \<Rightarrow> db" where
  "save_document r d = d\<lparr>db_documents := put_row do_id r (db_documents d)\<rparr>"

definition save_task :: "task_row \<Rightarrow> db \<Rightarrow> db" where
  "save_task t d = d\<lparr>db_tasks := put_row ta_id t (db_tasks d)\<rparr>"

definition document_status :: "draws \<Rightarrow> pydict \<Rightarrow> chat_state \<Rightarrow> db \<Rightarrow> chat_state outcome" where
  "document_status su data st d =
     (let document_id = py_or (vget data ''document_id'') (cs_document st)
      in case (if truthy document_id then find_row do_id (py_str document_id) (db_documents d) else None) of
           None \<Rightarrow> Done st d
         | Some document \<Rightarrow>
             (let new_status = py_str (vget_default data ''status'' (VStr (do_status document)))
              in if new_status \<notin> set [''ready'', ''failed'']
                 then Failed (API_error 422 ''invalid_document_status'' ''Document status must be ready or failed.'' []) d (Some d)
                 else Done st (save_document
                   (document\<lparr>do_status := new_status, do_error := text_column (vget data ''error''), do_updated := su_now su 0\<rparr>) d)))"

definition blank_task :: "draws \<Rightarrow> string \<Rightarrow> task_row" where
  \<comment> \<open>a new task with the defaults of its columns; title, start and end are still to be assigned\<close>
  "blank_task su task_id =
     \<lparr>ta_id = task_id, ta_course = None, ta_title = [], ta_notes = None, ta_start = 0, ta_end = 0,
      ta_status = ''todo'', ta_origin = ''student'', ta_created = su_now su 3, ta_updated = su_now su 4\<rparr>"

definition touched :: "draws \<Rightarrow> task_row \<Rightarrow> task_row \<Rightarrow> task_row" where
  \<comment> \<open>\<open>onupdate\<close> of a changed row whose \<open>updated_at\<close> was not assigned\<close>
  "touched su old t = (if t = old then t else t\<lparr>ta_updated := su_now su 4\<rparr>)"

definition known_course :: "db \<Rightarrow> pyval \<Rightarrow> unit answer" where
  \<comment> \<open>\<open>if course_id: _get_course(db, course_id)\<close>\<close>
  "known_course d course_id =
     (if truthy course_id then map_sum id (\<lambda>_. ()) (get_course_row d (py_str course_id)) else Inr ())"

definition task_upsert :: "draws \<Rightarrow> pydict \<Rightarrow> chat_state \<Rightarrow> db \<Rightarrow> chat_state outcome" where
  "task_upsert su data st d =
     (let task_id = vget data ''id'';
          found = (if truthy task_id then find_row ta_id (py_str task_id) (db_tasks d) else None);
          old = (case found of Some t \<Rightarrow> t | None \<Rightarrow> blank_task su (if truthy task_id then py_str task_id else su_id su 0));
          left = (\<lambda>t. Some (save_task (touched su old t) d));
          unfinished = (\<lambda>t. if found = None then None else left t)
      in case known_course d (vget data ''course_id'') of
           Inl f \<Rightarrow> Failed f d (if found = None then None else Some d)
         | Inr _ \<Rightarrow>
          (let t1 = old\<lparr>ta_course := text_column (vget_default data ''course_id'' (opt_str (ta_course old))),
                        ta_title := py_str (vget_default data ''title'' (py_or (VStr (ta_title old)) (VStr ''Study task''))),
                        ta_notes := text_column (vget_default data ''notes'' (opt_str (ta_notes old)))\<rparr>
           in case iso_datetime (vget_default data ''start_at'' (stamp (if found = None then su_now su 0 else ta_start old))) ''start_at'' of
                Inl f \<Rightarrow> Failed f d (unfinished t1)
              | Inr start_at \<Rightarrow>
          (let t2 = t1\<lparr>ta_start := start_at\<rparr>
           in case iso_datetime (vget_default data ''end_at'' (stamp (if found = None then su_now su 1 else ta_end old))) ''end_at'' of
                Inl f \<Rightarrow> Failed f d (unfinished t2)
              | Inr end_at \<Rightarrow>
          (let t3 = t2\<lparr>ta_end := end_at\<rparr>
           in if end_at \<le> start_at
              then Failed (API_error 422 ''invalid_task_range'' ''A task end must be after its start.'' []) d (left t3)
              else (let new_status = vget_default data ''status'' (py_or (VStr (if found = None then [] else ta_status old)) (VStr ''todo''))
                    in case hashed_in new_status TASK_STATUSES of
                         Inl f \<Rightarrow> Failed f d (left t3)
                       | Inr False \<Rightarrow>
                           Failed (API_error 422 ''invalid_task_status'' ''Task status must be todo, done, or skipped.'' []) d (left t3)
                       | Inr True \<Rightarrow>
                           Done (st\<lparr>cs_plan_changed := True\<rparr>)
                             (save_task (t3\<lparr>ta_status := py_str new_status, ta_origin := ''supervisor'', ta_updated := su_now su 2\<rparr>) d))))))"

definition task_delete :: "pydict \<Rightarrow> chat_state \<Rightarrow> db \<Rightarrow> chat_state outcome" where
  "task_delete data st d =
     (case (if vget data ''id'' = VNone then None else find_row ta_id (py_str (vget data ''id'')) (db_tasks d)) of
        None \<Rightarrow> Done st d
      | Some t \<Rightarrow> Done (st\<lparr>cs_plan_changed := True\<rparr>) (d\<lparr>db_tasks := del_row ta_id (ta_id t) (db_tasks d)\<rparr>))"

section \<open>Quizzes\<close>

fun unknown_collection :: "pyval list \<Rightarrow> bool answer" where
  \<comment> \<open>\<open>any(c not in ALLOWED_COLLECTIONS for c in ...)\<close>\<close>
  "unknown_collection [] = Inr False"
| "unknown_collection (c # cs) =
     bind_res (hashed_in c ALLOWED_COLLECTIONS) (\<lambda>known. if known then unknown_collection cs else Inr True)"

definition option_ids :: "pydict list \<Rightarrow> string list" where
  "option_ids options = map (\<lambda>p. py_str (vget p ''option_id'')) options"

definition mcq_ok :: "pydict \<Rightarrow> pydict list \<Rightarrow> bool" where
  "mcq_ok question options =
     (let ids = option_ids options; correct = py_str (vget_default question ''correct_option_id'' (VStr []))
      in strip (py_str (vget_default question ''prompt'' (VStr []))) \<noteq> []
         \<and> length options = 4
         \<and> card (set ids) = 4
         \<and> \<not> list_ex (\<lambda>(i, p). strip i = [] \<or> strip (py_str (vget_default p ''text'' (VStr []))) = []) (zip ids options)
         \<and> correct \<in> set ids)"

definition question_options_of :: "pyval \<Rightarrow> (pydict \<times> pydict list) answer" where
  \<comment> \<open>the checks of one element of \<open>questions\<close>\<close>
  "question_options_of element =
     (case element of
        VDict question \<Rightarrow>
          (case py_or (vget question ''options'') (VList []) of
             VList items \<Rightarrow>
               if \<not> list_all is_mapping items
               then Inl (API_error 422 ''invalid_quiz_question'' ''Every quiz option must be an object.'' [])
               else if \<not> mcq_ok question (dicts_of items)
               then Inl (API_error 422 ''invalid_quiz_question''
                 ''Every MCQ must contain four unique options and one correct option.'' [])
               else Inr (question, dicts_of items)
           | _ \<Rightarrow> Inl (API_error 422 ''invalid_quiz_question'' ''Every quiz question must contain an options array.'' []))
      | _ \<Rightarrow> Inl (API_error 422 ''invalid_quiz_question'' ''Every quiz question must be an object.'' []))"

definition question_row_of :: "string \<Rightarrow> string \<Rightarrow> nat \<Rightarrow> pydict \<Rightarrow> question_row" where
  "question_row_of question_id quiz_id position question =
     \<lparr>qu_id = question_id, qu_quiz = quiz_id, qu_prompt = py_str (vget_default question ''prompt'' (VStr [])),
      qu_topic = text_column (vget question ''topic''), qu_explanation = text_column (vget question ''explanation''),
      qu_correct = py_str (vget_default question ''correct_option_id'' (VStr [])), qu_position = position\<rparr>"

definition option_rows_of :: "(nat \<Rightarrow> string) \<Rightarrow> string \<Rightarrow> pydict list \<Rightarrow> option_row list" where
  "option_rows_of ids question_id options =
     map (\<lambda>(i, p). \<lparr>op_id = ids i, op_question = question_id, op_key = py_str (vget p ''option_id''),
            op_text = py_str (vget_default p ''text'' (VStr [])), op_position = i\<rparr>) (enumerate 0 options)"

fun store_questions :: "draws \<Rightarrow> string \<Rightarrow> nat \<Rightarrow> pyval list \<Rightarrow> db \<Rightarrow> db answer" where
  \<comment> \<open>question \<open>n\<close> takes identifier \<open>1 + 5 n\<close>, its options the four after it\<close>
  "store_questions su quiz_id n [] d = Inr d"
| "store_questions su quiz_id n (element # rest) d =
     bind_res (question_options_of element) (\<lambda>(question, options).
       let question_id = su_id su (1 + 5 * n)
       in store_questions su quiz_id (n + 1) rest
            (d\<lparr>db_questions := db_questions d @ [question_row_of question_id quiz_id n question],
               db_options := db_options d @ option_rows_of (\<lambda>i. su_id su (2 + 5 * n + i)) question_id options\<rparr>))"

definition quiz_create :: "draws \<Rightarrow> pydict \<Rightarrow> chat_state \<Rightarrow> db \<Rightarrow> chat_state outcome" where
  "quiz_create su data st d =
     (let questions = py_or (vget data ''questions'') (VList [])
      in if \<not> truthy questions
         then Failed (API_error 422 ''invalid_quiz'' ''A quiz must contain at least one question.'' []) d (Some d)
         else case py_elements (py_or (vget data ''source_collections'') (VList [])) of
           Inl f \<Rightarrow> Failed f d (Some d)
         | Inr collections \<Rightarrow>
        (case bind_res (unknown_collection collections) (\<lambda>unknown.
             if unknown then Inl (API_error 422 ''invalid_collection'' ''Quiz source collections must be slides or past_exam.'' [])
             else known_course d (vget data ''course_id'')) of
           Inl f \<Rightarrow> Failed f d (Some d)
         | Inr _ \<Rightarrow>
        (let quiz = \<lparr>qr_id = su_id su 0, qr_course = text_column (vget data ''course_id''),
                     qr_title = py_str (vget_default data ''title'' (VStr ''Practice quiz'')),
                     qr_collections = map py_str collections, qr_created = su_now su 0\<rparr>;
             flushed = d\<lparr>db_quizzes := db_quizzes d @ [quiz]\<rparr>
         in case py_elements questions of
              Inl f \<Rightarrow> Failed f d (Some flushed)
            | Inr elements \<Rightarrow>
                (case store_questions su (qr_id quiz) 0 elements flushed of
                   Inl f \<Rightarrow> Failed f d (Some d)   \<comment> \<open>every check of the loop rolls back before it raises\<close>
                 | Inr d' \<Rightarrow> Done (st\<lparr>cs_links := cs_links st @ [(''Open quiz'', ''/quizzes/'' @ qr_id quiz)]\<rparr>) d'))))"

section \<open>Notifications\<close>

definition notification_key :: "(string \<Rightarrow> string) \<Rightarrow> string \<Rightarrow> string \<Rightarrow> string \<Rightarrow> pyval \<Rightarrow> pyval \<Rightarrow> string answer" where
  \<comment> \<open>\<open>digest\<close> is the hexadecimal SHA-256 of a text\<close>
  "notification_key digest severity title message target_url dedupe_key =
     (if truthy dedupe_key then Inr (py_str dedupe_key)
      else case json_dumps (sort_keys (VDict
          [(''severity'', VStr severity), (''title'', VStr title), (''message'', VStr message), (''target_url'', target_url)])) of
        None \<Rightarrow> Inl (Raised (TypeError ''Object is not JSON serializable''))
      | Some text \<Rightarrow> Inr (digest text))"

definition notification_create ::
  "(string \<Rightarrow> string) \<Rightarrow> draws \<Rightarrow> pydict \<Rightarrow> chat_state \<Rightarrow> db \<Rightarrow> chat_state outcome"
where
  "notification_create digest su data st d =
     (let severity = py_str (vget_default data ''severity'' (VStr ''info''));
          title = py_str (vget_default data ''title'' (VStr ''Study update''));
          message = py_str (vget_default data ''message'' (VStr ''You have a new study update.''));
          target_url = vget data ''target_url''
      in case notification_key digest severity title message target_url (vget data ''dedupe_key'') of
           Inl f \<Rightarrow> Failed f d (Some d)
         | Inr key \<Rightarrow>
             if list_ex (\<lambda>n. no_dedupe n = Some key \<and> no_read n = None) (db_notifications d) then Done st d
             else Done st (d\<lparr>db_notifications := db_notifications d @
               [\<lparr>no_id = su_id su 0, no_severity = severity, no_title = title, no_message = message,
                 no_target = text_column target_url, no_dedupe = Some key, no_read = None, no_created = su_now su 0\<rparr>]\<rparr>))"

section \<open>The events of a request\<close>

definition apply_event ::
  "(string \<Rightarrow> string) \<Rightarrow> draws \<Rightarrow> sup_event \<Rightarrow> chat_state \<Rightarrow> db \<Rightarrow> chat_state outcome"
where
  \<comment> \<open>\<open>_apply_event\<close>\<close>
  "apply_event digest su event st d =
     (let data = se_data event; kind = se_kind event
      in if kind = ''text_delta'' then Done (st\<lparr>cs_text := cs_text st @ [py_str (vget_default data ''text'' (VStr []))]\<rparr>) d
         else if kind = ''citation'' then Done (st\<lparr>cs_citations := cs_citations st @ [data]\<rparr>) d
         else if kind = ''document_status'' then document_status su data st d
         else if kind = ''task_upsert'' then task_upsert su data st d
         else if kind = ''task_delete'' then task_delete data st d
         else if kind = ''quiz_create'' then quiz_create su data st d
         else if kind = ''notification_create'' then notification_create digest su data st d
         else Done st d)"

text \<open>
  A gateway yields events and then ends or raises; \<open>feed n\<close> supplies the \<open>n\<close>-th event.
\<close>

record stream =
  st_events :: "raw_event list"
  st_raises :: "exn option"

definition consume_event ::
  "(string \<Rightarrow> string) \<Rightarrow> string \<Rightarrow> pydict \<Rightarrow> draws \<Rightarrow> raw_event \<Rightarrow> chat_state \<Rightarrow> db \<Rightarrow> chat_state outcome"
where
  \<comment> \<open>the body of the loop of \<open>_consume_supervisor\<close> for a request of the given type and document\<close>
  "consume_event digest request_type document su raw st d =
     (case coerce_event raw of
        Inl f \<Rightarrow> Failed f d (Some d)
      | Inr event \<Rightarrow>
          apply_event digest su event
            (if request_type \<noteq> ''chat'' \<and> se_kind event = ''document_status''
             then st\<lparr>cs_document := vget document ''id''\<rparr> else st) d)"

fun consume_events ::
  "(string \<Rightarrow> string) \<Rightarrow> string \<Rightarrow> pydict \<Rightarrow> (nat \<Rightarrow> draws) \<Rightarrow> nat \<Rightarrow> raw_event list \<Rightarrow> chat_state \<Rightarrow> db
    \<Rightarrow> chat_state outcome"
where
  "consume_events digest request_type document feed n [] st d = Done st d"
| "consume_events digest request_type document feed n (raw # rest) st d =
     (case consume_event digest request_type document (feed n) raw st d of
        Failed f d' left \<Rightarrow> Failed f d' left
      | Done st' d' \<Rightarrow> consume_events digest request_type document feed (n + 1) rest st' d')"

definition fault_text :: "fault \<Rightarrow> string" where
  \<comment> \<open>\<open>str(exc)\<close>\<close>
  "fault_text f = (case f of API_error _ _ m _ \<Rightarrow> m | Raised e \<Rightarrow> exn_text e | Integrity_error \<Rightarrow> ''IntegrityError'')"

definition supervisor_fault :: "fault \<Rightarrow> fault" where
  \<comment> \<open>the exception handlers of \<open>_consume_supervisor\<close>\<close>
  "supervisor_fault f =
     (case f of
        Raised (SupervisorUnavailable _) \<Rightarrow> API_error 503 ''supervisor_unavailable'' ''The supervisor is not configured.'' []
      | API_error s c m ds \<Rightarrow> API_error s c m ds
      | _ \<Rightarrow> API_error 502 ''supervisor_error'' ''The supervisor failed to complete the request.''
               [(''reason'', VStr (fault_text f))])"

definition consume_supervisor ::
  "(string \<Rightarrow> string) \<Rightarrow> string \<Rightarrow> pydict \<Rightarrow> (nat \<Rightarrow> draws) \<Rightarrow> stream \<Rightarrow> chat_state \<Rightarrow> db \<Rightarrow> chat_state outcome"
where
  "consume_supervisor digest request_type document feed s st d =
     (case consume_events digest request_type document feed 0 (st_events s) st d of
        Failed f d' left \<Rightarrow> Failed (supervisor_fault f) d' left
      | Done st' d' \<Rightarrow>
          (case st_raises s of
             None \<Rightarrow> Done st' d'
           | Some e \<Rightarrow> Failed (supervisor_fault (Raised e)) d' (Some d')))"

section \<open>Document ingestion\<close>

definition ingest_payload :: "document_row \<Rightarrow> pydict" where
  "ingest_payload r =
     [(''id'', VStr (do_id r)), (''course_id'', VStr (do_course r)), (''collection'', VStr (do_collection r)),
      (''filename'', VStr (do_filename r)), (''path'', VStr (do_path r)), (''media_type'', VStr (do_media_type r))]"

definition settle_document :: "draws \<Rightarrow> string \<Rightarrow> string \<Rightarrow> string option \<Rightarrow> db \<Rightarrow> db" where
  \<comment> \<open>status, error and \<open>updated_at\<close> of a document, committed\<close>
  "settle_document su document_id new_status err d =
     (case find_row do_id document_id (db_documents d) of
        None \<Rightarrow> d
      | Some r \<Rightarrow> save_document (r\<lparr>do_status := new_status, do_error := err, do_updated := su_now su 0\<rparr>) d)"

definition settle_ready :: "draws \<Rightarrow> string \<Rightarrow> db \<Rightarrow> db" where
  \<comment> \<open>\<open>if document.status == "processing": ...\<close>\<close>
  "settle_ready su document_id d =
     (case find_row do_id document_id (db_documents d) of
        None \<Rightarrow> d
      | Some r \<Rightarrow> if do_status r = ''processing''
                  then save_document (r\<lparr>do_status := ''ready'', do_updated := su_now su 0\<rparr>) d else d)"

definition process_document_ingest ::
  "(string \<Rightarrow> string) \<Rightarrow> (pydict \<Rightarrow> exn option) \<Rightarrow> (pydict \<Rightarrow> stream) \<Rightarrow> (nat \<Rightarrow> draws) \<Rightarrow> draws \<Rightarrow> string \<Rightarrow> db
    \<Rightarrow> fault option \<times> db"
where
  \<comment> \<open>\<open>_process_document_ingest\<close>; \<open>index_course\<close> is the indexing of course material, which may raise;
    the first component is what escapes the background task\<close>
  "process_document_ingest digest index_course deliver feed su document_id d =
     (case find_row do_id document_id (db_documents d) of
        None \<Rightarrow> (None, d)
      | Some document \<Rightarrow>
          (let payload = ingest_payload document
           in if do_collection document = ''slides'' then
                (case index_course payload of
                   None \<Rightarrow> (None, settle_document su document_id ''ready'' None d)
                 | Some e \<Rightarrow> (None, settle_document su document_id ''failed'' (Some (exn_text e)) d))
              else
                (case consume_supervisor digest ''document_ingest'' payload feed (deliver payload)
                        (new_chat_state (VStr document_id)) d of
                   Done _ d' \<Rightarrow> (None, settle_ready su document_id d')
                 | Failed f d' (Some left) \<Rightarrow> (None, settle_document su document_id ''failed'' (Some (fault_text f)) left)
                 | Failed f d' None \<Rightarrow> (Some Integrity_error, d'))))"

section \<open>Progress\<close>

definition task_out :: "task_row \<Rightarrow> pydict" where
  "task_out t =
     [(''id'', VStr (ta_id t)), (''course_id'', opt_str (ta_course t)), (''title'', VStr (ta_title t)),
      (''notes'', opt_str (ta_notes t)), (''start_at'', stamp (ta_start t)), (''end_at'', stamp (ta_end t)),
      (''status'', VStr (ta_status t)), (''origin'', VStr (ta_origin t)),
      (''created_at'', stamp (ta_created t)), (''updated_at'', stamp (ta_updated t))]"

definition progress_snapshot :: "db \<Rightarrow> pydict" where
  "progress_snapshot d =
     [(''total_tasks'', VInt (int (length (db_tasks d)))),
      (''completed_tasks'', VInt (int (length (filter (\<lambda>t. ta_status t = ''done'') (db_tasks d))))),
      (''incomplete_tasks'', VInt (int (length (filter (\<lambda>t. ta_status t = ''todo'') (db_tasks d))))),
      (''tasks'', VList (map (VDict \<circ> task_out) (db_tasks d)))]"

definition run_progress_check ::
  "(string \<Rightarrow> string) \<Rightarrow> (pydict \<Rightarrow> stream) \<Rightarrow> (nat \<Rightarrow> draws) \<Rightarrow> db \<Rightarrow> db"
where
  \<comment> \<open>\<open>_run_progress_check\<close>: a failure is logged and the session closed\<close>
  "run_progress_check digest deliver feed d =
     (case consume_supervisor digest ''progress_check'' [] feed (deliver (progress_snapshot d)) (new_chat_state VNone) d of
        Done _ d' \<Rightarrow> d'
      | Failed _ d' _ \<Rightarrow> d')"

end
