(* ===== verification/Snapshot.thy ===== *)
theory Snapshot
  imports Store PyJson Scheduler
begin

text \<open>
  \<open>_shared_state_snapshot\<close> of \<open>backend/main.py\<close>: the projection of the database the agents work on.
  The number of slides of a stored file is a parameter. Rows the source selects without an order
  come in insertion order.
\<close>

definition active_semester :: "db \<Rightarrow> semester_row option" where
  \<comment> \<open>\<open>_active_semester\<close>: the active semester created last\<close>
  "active_semester d =
     (case sort_key (\<lambda>s. - sem_created s) (filter sem_active (db_semesters d)) of [] \<Rightarrow> None | s # _ \<Rightarrow> Some s)"

section \<open>Mastery of topics\<close>

type_synonym performance = "(string option \<times> string, int \<times> int) dict"

definition count_answer :: "quiz_row \<Rightarrow> question_row \<Rightarrow> answer_row \<Rightarrow> performance \<Rightarrow> performance" where
  "count_answer quiz question answer performance =
     (let topic = (case qu_topic question of Some t \<Rightarrow> if t = [] then ''General'' else t | None \<Rightarrow> ''General'');
          (right, seen) = dict_get performance (qr_course quiz, topic) (0, 0)
      in dict_set (qr_course quiz, topic) (right + (if an_correct answer then 1 else 0), seen + 1) performance)"

definition last_answer :: "db \<Rightarrow> string \<Rightarrow> string \<Rightarrow> answer_row option" where
  \<comment> \<open>\<open>answers_by_attempt[attempt_id][question_id]\<close>: a later row replaces an earlier one\<close>
  "last_answer d attempt_id question_id =
     find (\<lambda>a. an_attempt a = attempt_id \<and> an_question a = question_id) (rev (db_answers d))"

definition count_attempt :: "db \<Rightarrow> attempt_row \<Rightarrow> performance \<Rightarrow> performance" where
  "count_attempt d attempt performance =
     (case find_row qr_id (at_quiz attempt) (db_quizzes d) of
        None \<Rightarrow> performance
      | Some quiz \<Rightarrow>
          foldl (\<lambda>p question. case last_answer d (at_id attempt) (qu_id question) of
              None \<Rightarrow> p | Some answer \<Rightarrow> count_answer quiz question answer p)
            performance (filter (\<lambda>q. qu_quiz q = qr_id quiz) (db_questions d)))"

definition performance_of :: "db \<Rightarrow> performance" where
  "performance_of d =
     foldl (\<lambda>p attempt. count_attempt d attempt p) [] (filter (\<lambda>a. at_status a = ''completed'') (db_attempts d))"

section \<open>Courses\<close>

definition task_entry :: "task_row \<Rightarrow> pydict" where
  "task_entry t =
     [(''id'', VStr (ta_id t)), (''title'', VStr (ta_title t)),
      (''description'', VStr (case ta_notes t of Some n \<Rightarrow> n | None \<Rightarrow> [])),
      (''date'', VStr (iso_of_date (date_of_instant (ta_start t))))]"

definition assessment_words :: "string list" where
  "assessment_words = [''exam'', ''quiz'', ''midterm'', ''final'', ''assessment'']"

definition is_assessment :: "string \<Rightarrow> bool" where
  "is_assessment title = list_ex (\<lambda>w. contains w (casefold title)) assessment_words"

definition deadline_entry :: "task_row \<Rightarrow> pydict" where
  "deadline_entry t =
     [(''title'', VStr (ta_title t)), (''date'', VStr (iso_of_date (date_of_instant (ta_start t)))),
      (''type'', VStr ''assessment'')]"

definition material_row :: "(document_row \<Rightarrow> int option) \<Rightarrow> document_row \<Rightarrow> pydict" where
  \<comment> \<open>\<open>slide_count\<close> stands for \<open>_slide_count\<close>, which opens the stored file\<close>
  "material_row slide_count r =
     [(''title'', VStr (do_filename r)), (''document_id'', VStr (do_id r)), (''course_id'', VStr (do_course r)),
      (''collection'', VStr (do_collection r)), (''slides'', opt_int (slide_count r)), (''status'', VStr (do_status r))]"

definition mastery_rows :: "performance \<Rightarrow> string \<Rightarrow> pydict list" where
  "mastery_rows performance course_id =
     map (\<lambda>((c, topic), (right, seen)).
         [(''topic'', VStr topic),
          (''estimated_mastery_level'', VFloat (if seen = 0 then 1 / 2 else fdiv_int right seen))])
       (filter (\<lambda>((c, topic), counts). c = Some course_id) performance)"

definition ordered_tasks :: "db \<Rightarrow> task_row list" where
  "ordered_tasks d = sort_key ta_start (db_tasks d)"

definition course_state :: "(document_row \<Rightarrow> int option) \<Rightarrow> db \<Rightarrow> course_row \<Rightarrow> pydict" where
  "course_state slide_count d course =
     (let course_tasks = filter (\<lambda>t. ta_course t = Some (co_id course)) (ordered_tasks d);
          completed = map (VDict \<circ> task_entry) (filter (\<lambda>t. ta_status t = ''done'') course_tasks);
          remaining = map (VDict \<circ> task_entry) (filter (\<lambda>t. ta_status t = ''todo'') course_tasks);
          deadlines = map (VDict \<circ> deadline_entry) (filter (\<lambda>t. is_assessment (ta_title t)) course_tasks);
          documents = filter (\<lambda>r. do_collection r = ''slides'' \<and> do_course r = co_id course) (db_documents d)
      in [(''id'', VStr (co_id course)), (''course_name'', VStr (co_name course)), (''code'', VStr (co_code course)),
          (''deadlines'', VList deadlines),
          (''materials'', VList (map (VDict \<circ> material_row slide_count) documents)),
          (''completed_topics'', VList completed),
          (''current_plan'', VList [VDict
             [(''title'', VStr (co_name course @ '' study plan'')), (''tasks'', VList (completed @ remaining)),
              (''completed_tasks'', VList completed), (''remaining_tasks'', VList remaining)]]),
          (''quiz_performance'', VList (map VDict (mastery_rows (performance_of d) (co_id course))))])"

definition semester_dict :: "semester_row \<Rightarrow> pydict" where
  "semester_dict s =
     [(''id'', VStr (sem_id s)), (''name'', VStr (sem_name s)), (''start_date'', VStr (iso_of_date (sem_start s))),
      (''end_date'', VStr (iso_of_date (sem_end s))), (''timezone'', VStr (sem_timezone s))]"

definition ordered_courses :: "db \<Rightarrow> course_row list" where
  "ordered_courses d = sort_key (\<lambda>c. (co_code c, co_name c)) (db_courses d)"

definition shared_state_snapshot :: "(document_row \<Rightarrow> int option) \<Rightarrow> db \<Rightarrow> pydict" where
  "shared_state_snapshot slide_count d =
     [(''semester'', (case active_semester d of None \<Rightarrow> VNone | Some s \<Rightarrow> VDict (semester_dict s))),
      (''courses'', VList (map (VDict \<circ> course_state slide_count d) (ordered_courses d)))]"

end
