(* ===== verification/PyPath.thy ===== *)
theory PyPath
  imports PyText
begin

text \<open>
  \<open>pathlib.Path\<close> on POSIX, as the backend uses it: a path is the list of its components, an absolute
  one when it stands for a directory of the server. Symbolic links are not followed.
\<close>

definition split_slash :: "string \<Rightarrow> string list" where
  "split_slash s = foldr (\<lambda>c parts. if c = CHR ''/'' then [] # parts else (c # hd parts) # tl parts) s [[]]"

definition path_parts :: "string \<Rightarrow> string list" where
  \<comment> \<open>the components \<open>pathlib\<close> keeps\<close>
  "path_parts s = filter (\<lambda>p. p \<noteq> [] \<and> p \<noteq> ''.'') (split_slash s)"

definition path_name :: "string \<Rightarrow> string" where
  \<comment> \<open>\<open>Path(s).name\<close>\<close>
  "path_name s = (if path_parts s = [] then [] else last (path_parts s))"

definition path_suffix :: "string \<Rightarrow> string" where
  \<comment> \<open>\<open>Path(s).sfx\<close>: from the last dot of the name, unless the dot begins or ends it\<close>
  "path_suffix s =
     (let name = path_name s; ext = rev (takeWhile (\<lambda>c. c \<noteq> CHR ''.'') (rev name)); i = length name - length ext
      in if CHR ''.'' \<in> set name \<and> 1 < i \<and> ext \<noteq> [] then CHR ''.'' # ext else [])"

definition path_join :: "string list \<Rightarrow> string \<Rightarrow> string list" where
  \<comment> \<open>\<open>path / s\<close>: an absolute \<open>s\<close> replaces the path\<close>
  "path_join path s = (if startswith s ''/'' then path_parts s else path @ path_parts s)"

definition path_resolve :: "string list \<Rightarrow> string list" where
  \<comment> \<open>\<open>resolve()\<close> of an absolute path without symbolic links\<close>
  "path_resolve path = foldl (\<lambda>acc c. if c = ''..'' then butlast acc else acc @ [c]) [] path"

definition below :: "string list \<Rightarrow> string list \<Rightarrow> bool" where
  \<comment> \<open>\<open>base in path.parents\<close>\<close>
  "below base path \<longleftrightarrow> length base < length path \<and> take (length base) path = base"

definition path_text :: "string list \<Rightarrow> string" where
  "path_text path = ''/'' @ join ''/'' path"

end
