(* ===== verification/Api.thy ===== *)
theory Api
  imports Events Snapshot PyPath
begin

text \<open>
  The HTTP operations of \<open>backend/main.py\<close> on the database: authorisation, semester, courses,
  documents, tasks, quizzes, attempts, notifications. An operation takes the validated request
  and the database and gives the answer and the database afterwards; an operation that fails
  leaves the database alone. \<open>response_model\<close> serialisation is FastAPI's: the answer is the row or
  the dictionary the handler returns.
\<close>

section \<open>Authorisation\<close>

definition not_configured :: fault where
  "not_configured = API_error 503 ''api_key_not_configured'' ''The Nahaj API key is not configured.'' []"

definition unauthorized :: fault where
  "unauthorized = API_error 401 ''unauthorized'' ''A valid Nahaj bearer token is required.'' []"

definition require_api_key :: "string \<Rightarrow> string \<Rightarrow> unit answer" where
  "require_api_key api_key authorization =
     (if api_key = [] then Inl not_configured
      else case partition_at (CHR '' '') authorization of
        (scheme, _, token) \<Rightarrow>
          if casefold scheme \<noteq> ''bearer'' \<or> token \<noteq> api_key then Inl unauthorized else Inr ())"

definition enforce_root_auth :: "string \<Rightarrow> string \<Rightarrow> string \<Rightarrow> (unit \<Rightarrow> 'a answer) \<Rightarrow> 'a answer" where
  \<comment> \<open>the middleware: only \<open>/health\<close> is public\<close>
  "enforce_root_auth api_key path authorization call_next =
     (if path = ''/health'' then call_next ()
      else if api_key = [] then Inl not_configured
      else case partition_at (CHR '' '') authorization of
        (scheme, _, token) \<Rightarrow>
          if casefold scheme \<noteq> ''bearer'' \<or> token \<noteq> api_key then Inl unauthorized else call_next ())"

section \<open>Validation of request bodies\<close>

definition validation_error :: fault where
  \<comment> \<open>the errors Pydantic lists in the details are left out\<close>
  "validation_error = API_error 422 ''validation_error'' ''The request contains invalid fields.'' []"

definition text_within :: "nat \<Rightarrow> string \<Rightarrow> bool" where
  \<comment> \<open>\<open>Field(min_length=1, max_length=n)\<close>\<close>
  "text_within n s \<longleftrightarrow> 1 \<le> length s \<and> length s \<le> n"

definition is_hex :: "char \<Rightarrow> bool" where
  "is_hex c \<longleftrightarrow> is_digit c \<or> (65 \<le> code c \<and> code c \<le> 70) \<or> (97 \<le> code c \<and> code c \<le> 102)"

definition color_ok :: "string \<Rightarrow> bool" where
  \<comment> \<open>\<open>^#[0-9A-Fa-f]{6}$\<close>\<close>
  "color_ok s \<longleftrightarrow> length s = 7 \<and> hd s = CHR ''#'' \<and> list_all is_hex (tl s)"

definition given_ok :: "('a \<Rightarrow> bool) \<Rightarrow> 'a option option \<Rightarrow> bool" where
  \<comment> \<open>a field that may be absent (\<open>None\<close>) or \<open>null\<close> (\<open>Some None\<close>)\<close>
  "given_ok p x = (case x of Some (Some v) \<Rightarrow> p v | _ \<Rightarrow> True)"

record semester_input =
  sp_name :: string
  sp_start :: date
  sp_end :: date
  sp_timezone :: string

definition semester_input_ok :: "semester_input \<Rightarrow> bool" where
  "semester_input_ok p \<longleftrightarrow> text_within 200 (sp_name p) \<and> text_within 80 (sp_timezone p) \<and> \<not> sp_end p < sp_start p"

record course_create =
  cc_code :: string
  cc_name :: string
  cc_color :: string

definition course_create_ok :: "course_create \<Rightarrow> bool" where
  "course_create_ok p \<longleftrightarrow> text_within 80 (cc_code p) \<and> text_within 200 (cc_name p) \<and> color_ok (cc_color p)"

record course_update =
  cu_code :: "string option option"
  cu_name :: "string option option"
  cu_color :: "string option option"

definition course_update_ok :: "course_update \<Rightarrow> bool" where
  "course_update_ok p \<longleftrightarrow>
     given_ok (text_within 80) (cu_code p) \<and> given_ok (text_within 200) (cu_name p) \<and> given_ok color_ok (cu_color p)"

record task_create =
  tc_course :: "string option"
  tc_title :: string
  tc_notes :: "string option"
  tc_start :: datetime
  tc_end :: datetime
  tc_status :: string
  tc_origin :: string

definition datetime_le :: "datetime \<Rightarrow> datetime \<Rightarrow> bool answer" where
  \<comment> \<open>\<open>a <= b\<close> of two datetimes; a naive and an aware one cannot be compared\<close>
  "datetime_le a b =
     (if (snd (snd a) = None) \<noteq> (snd (snd b) = None)
      then Inl (Raised (TypeError ''can't compare offset-naive and offset-aware datetimes''))
      else Inr (instant_of a \<le> instant_of b))"

definition task_create_ok :: "task_create \<Rightarrow> bool answer" where
  "task_create_ok p =
     (if text_within 300 (tc_title p) \<and> tc_status p \<in> set TASK_STATUSES \<and> tc_origin p \<in> set [''student'', ''supervisor'']
      then map_sum id Not (datetime_le (tc_end p) (tc_start p))
      else Inr False)"

record task_update =
  tu_course :: "string option option"
  tu_title :: "string option option"
  tu_notes :: "string option option"
  tu_start :: "datetime option option"
  tu_end :: "datetime option option"
  tu_status :: "string option option"

definition task_update_ok :: "task_update \<Rightarrow> bool" where
  "task_update_ok p \<longleftrightarrow>
     given_ok (text_within 300) (tu_title p) \<and> given_ok (\<lambda>s. s \<in> set TASK_STATUSES) (tu_status p)"

section \<open>Semester\<close>

definition put_semester :: "draws \<Rightarrow> semester_input \<Rightarrow> db \<Rightarrow> semester_row answer \<times> db" where
  "put_semester su p d =
     (if \<not> semester_input_ok p then (Inl validation_error, d)
      else
        (let old = (case active_semester d of
               Some s \<Rightarrow> s
             | None \<Rightarrow> \<lparr>sem_id = su_id su 0, sem_name = [], sem_start = sp_start p, sem_end = sp_end p, sem_timezone = [],
                 sem_active = True, sem_created = su_now su 1, sem_updated = su_now su 0\<rparr>);
             semester = old\<lparr>sem_name := sp_name p, sem_start := sp_start p, sem_end := sp_end p, sem_timezone := sp_timezone p,
               sem_active := True, sem_updated := su_now su 0\<rparr>;
             retired = map (\<lambda>s. if sem_id s = sem_id semester \<or> \<not> sem_active s then s
               else s\<lparr>sem_active := False, sem_updated := su_now su 1\<rparr>) (db_semesters d)
         in (Inr semester, d\<lparr>db_semesters := put_row sem_id semester retired\<rparr>)))"

section \<open>Courses\<close>

definition code_taken :: "db \<Rightarrow> course_row \<Rightarrow> bool" where
  \<comment> \<open>\<open>uq_course_semester_code\<close>\<close>
  "code_taken d c = list_ex (\<lambda>x. co_id x \<noteq> co_id c \<and> co_semester x = co_semester c \<and> co_code x = co_code c) (db_courses d)"

definition duplicate_course_code :: fault where
  "duplicate_course_code =
     API_error 409 ''duplicate_course_code'' ''A course with this code already exists in the semester.'' []"

definition create_course :: "draws \<Rightarrow> course_create \<Rightarrow> db \<Rightarrow> course_row answer \<times> db" where
  "create_course su p d =
     (if \<not> course_create_ok p then (Inl validation_error, d)
      else case active_semester d of
        None \<Rightarrow> (Inl (API_error 409 ''semester_required'' ''Create an active semester before adding courses.'' []), d)
      | Some semester \<Rightarrow>
          (let course = \<lparr>co_id = su_id su 0, co_semester = sem_id semester, co_code = cc_code p, co_name = cc_name p,
                 co_color = cc_color p, co_created = su_now su 0, co_updated = su_now su 1\<rparr>
           in if code_taken d course then (Inl duplicate_course_code, d)
              else (Inr course, d\<lparr>db_courses := db_courses d @ [course]\<rparr>)))"

definition update_course :: "draws \<Rightarrow> string \<Rightarrow> course_update \<Rightarrow> db \<Rightarrow> course_row answer \<times> db" where
  \<comment> \<open>a \<open>null\<close> for a column that must not be null is an \<open>IntegrityError\<close> like a taken code\<close>
  "update_course su course_id p d =
     (if \<not> course_update_ok p then (Inl validation_error, d)
      else case get_course_row d course_id of
        Inl f \<Rightarrow> (Inl f, d)
      | Inr course \<Rightarrow>
          if cu_code p = Some None \<or> cu_name p = Some None \<or> cu_color p = Some None then (Inl duplicate_course_code, d)
          else
            (let set_to = (\<lambda>x v. case x of Some (Some w) \<Rightarrow> w | _ \<Rightarrow> v);
                 course = course\<lparr>co_code := set_to (cu_code p) (co_code course), co_name := set_to (cu_name p) (co_name course),
                   co_color := set_to (cu_color p) (co_color course), co_updated := su_now su 0\<rparr>
             in if code_taken d course then (Inl duplicate_course_code, d)
                else (Inr course, d\<lparr>db_courses := put_row co_id course (db_courses d)\<rparr>)))"

definition delete_course :: "string \<Rightarrow> db \<Rightarrow> unit answer \<times> db" where
  "delete_course course_id d =
     (case get_course_row d course_id of
        Inl f \<Rightarrow> (Inl f, d)
      | Inr course \<Rightarrow>
          if list_ex (\<lambda>r. do_course r = course_id) (db_documents d)
             \<or> list_ex (\<lambda>t. ta_course t = Some course_id) (db_tasks d)
             \<or> list_ex (\<lambda>q. qr_course q = Some course_id) (db_quizzes d)
          then (Inl (API_error 409 ''course_not_empty''
                 ''Remove the course's documents, tasks, and quizzes before deleting it.'' []), d)
          else (Inr (), d\<lparr>db_courses := del_row co_id course_id (db_courses d)\<rparr>))"

section \<open>Files\<close>

definition ALLOWED_EXTENSIONS :: "string list" where
  "ALLOWED_EXTENSIONS = [''.pdf'', ''.pptx'', ''.docx'', ''.png'', ''.jpg'', ''.jpeg'']"

definition ALLOWED_MIME_TYPES :: "string list" where
  "ALLOWED_MIME_TYPES =
     [''application/pdf'',
      ''application/vnd.openxmlformats-officedocument.presentationml.presentation'',
      ''application/vnd.openxmlformats-officedocument.wordprocessingml.document'',
      ''image/png'', ''image/jpeg'']"

definition bytes_of :: "nat list \<Rightarrow> string" where
  "bytes_of ns = map (\<lambda>n. char_of n) ns"

definition signature_ok :: "string \<Rightarrow> string \<Rightarrow> bool" where
  "signature_ok sfx content =
     (if sfx = ''.pdf'' then startswith content ''%PDF''
      else if sfx \<in> set [''.pptx'', ''.docx''] then startswith content ''PK''
      else if sfx = ''.png'' then startswith content (bytes_of [137, 80, 78, 71, 13, 10, 26, 10])
      else if sfx \<in> set [''.jpg'', ''.jpeg''] then startswith content (bytes_of [255, 216, 255])
      else True)"

definition signature_message :: "string \<Rightarrow> string" where
  "signature_message sfx =
     (if sfx = ''.pdf'' then ''The uploaded file is not a valid PDF.''
      else if sfx \<in> set [''.pptx'', ''.docx''] then ''The uploaded Office file is not a valid ZIP package.''
      else if sfx = ''.png'' then ''The uploaded file is not a valid PNG.''
      else ''The uploaded file is not a valid JPEG.'')"

definition validate_upload ::
  "(string \<Rightarrow> string option) \<Rightarrow> nat \<Rightarrow> string \<Rightarrow> string option \<Rightarrow> string \<Rightarrow> (string \<times> string) answer"
where
  \<comment> \<open>\<open>guess_type\<close> is \<open>mimetypes.guess_type\<close>\<close>
  "validate_upload guess_type max_upload_bytes filename media_type content =
     (if filename = [] \<or> path_name filename \<noteq> filename \<or> CHR 0x00 \<in> set filename \<or> CHR 0x5C \<in> set filename
         \<or> list_ex (\<lambda>c. code c < 32) filename
      then Inl (API_error 400 ''unsafe_filename'' ''The uploaded filename is not safe.'' [])
      else
        (let sfx = casefold (path_suffix filename)
         in if sfx \<notin> set ALLOWED_EXTENSIONS
            then Inl (API_error 415 ''unsupported_file_type'' ''Only PDF, PPTX, DOCX, PNG, and JPEG files are supported.'' [])
            else if max_upload_bytes < length content
            then Inl (API_error 413 ''file_too_large'' ''The file exceeds the 50 MiB upload limit.'' [])
            else if \<not> signature_ok sfx content
            then Inl (API_error 415 ''invalid_file_signature'' (signature_message sfx) [])
            else
              (let given = (case media_type of Some m \<Rightarrow> m | None \<Rightarrow> []);
                   detected = (case guess_type filename of
                       Some g \<Rightarrow> if g \<noteq> [] then g else if given \<noteq> [] then given else ''application/octet-stream''
                     | None \<Rightarrow> if given \<noteq> [] then given else ''application/octet-stream'');
                   known = detected \<in> set ALLOWED_MIME_TYPES
               in if \<not> known \<and> given \<notin> set ALLOWED_MIME_TYPES
                  then Inl (API_error 415 ''unsupported_media_type'' ''The uploaded media type is not supported.'' [])
                  else Inr (sfx, if known then detected else given))))"

definition stored_path :: "string list \<Rightarrow> string \<Rightarrow> string \<Rightarrow> string \<Rightarrow> string \<Rightarrow> string list answer" where
  "stored_path base document_id course_id collection sfx =
     (let path = path_resolve (path_join (path_join (path_join (path_join base course_id) collection) document_id)
                   (''original'' @ sfx))
      in if \<not> below base path then Inl (API_error 500 ''unsafe_storage_path'' ''Could not determine a safe upload path.'' [])
         else Inr path)"

section \<open>Documents\<close>

text \<open>The stored files, by the text of their path.\<close>

type_synonym files = "string \<rightharpoonup> string"

definition newest_first :: "('r \<Rightarrow> instant) \<Rightarrow> 'r list \<Rightarrow> 'r list" where
  "newest_first created rows = sort_key (\<lambda>r. - created r) rows"

definition invalid_collection :: fault where
  "invalid_collection = API_error 422 ''invalid_collection'' ''collection must be slides or past_exam.'' []"

definition list_documents :: "string \<Rightarrow> string option \<Rightarrow> db \<Rightarrow> document_row list answer" where
  "list_documents course_id collection d =
     bind_res (get_course_row d course_id) (\<lambda>_.
       let rows = newest_first do_created (filter (\<lambda>r. do_course r = course_id) (db_documents d))
       in case collection of
            None \<Rightarrow> Inr rows
          | Some c \<Rightarrow>
              if c = [] then Inr rows
              else if c \<notin> set ALLOWED_COLLECTIONS then Inl invalid_collection
              else Inr (filter (\<lambda>r. do_collection r = c) rows))"

record upload =
  ul_filename :: "string option"
  ul_media_type :: "string option"
  ul_content :: string

record api_settings =
  as_guess_type :: "string \<Rightarrow> string option"
  as_digest :: "string \<Rightarrow> string"
  as_max_upload :: nat
  as_upload_dir :: "string list"

definition upload_document ::
  "api_settings \<Rightarrow> draws \<Rightarrow> string \<Rightarrow> string \<Rightarrow> upload \<Rightarrow> db \<Rightarrow> files \<Rightarrow> document_row answer \<times> db \<times> files"
where
  \<comment> \<open>an accepted document is handed to \<open>_process_document_ingest\<close> in the background\<close>
  "upload_document cfg su course_id collection file d fs =
     (case get_course_row d course_id of
        Inl f \<Rightarrow> (Inl f, d, fs)
      | Inr _ \<Rightarrow>
          if collection \<notin> set ALLOWED_COLLECTIONS then (Inl invalid_collection, d, fs)
          else
            (let filename = strip (case ul_filename file of Some n \<Rightarrow> if n = [] then ''upload'' else n | None \<Rightarrow> ''upload'');
                 content = take (as_max_upload cfg + 1) (ul_content file)
             in case validate_upload (as_guess_type cfg) (as_max_upload cfg) filename (ul_media_type file) content of
                  Inl f \<Rightarrow> (Inl f, d, fs)
                | Inr (sfx, media_type) \<Rightarrow>
                    (let digest = as_digest cfg content
                     in if list_ex (\<lambda>r. do_course r = course_id \<and> do_collection r = collection \<and> do_sha256 r = digest) (db_documents d)
                        then (Inl (API_error 409 ''duplicate_document''
                               ''This file is already in the selected course collection.'' []), d, fs)
                        else case stored_path (as_upload_dir cfg) (su_id su 0) course_id collection sfx of
                          Inl f \<Rightarrow> (Inl f, d, fs)
                        | Inr path \<Rightarrow>
                            (let row = \<lparr>do_id = su_id su 0, do_course = course_id, do_collection = collection,
                                   do_filename = filename, do_media_type = media_type, do_size = int (length content),
                                   do_sha256 = digest, do_path = path_text path, do_status = ''processing'', do_error = None,
                                   do_created = su_now su 0, do_updated = su_now su 2\<rparr>
                             in (Inr row, d\<lparr>db_documents := db_documents d @ [row]\<rparr>, fs(do_path row \<mapsto> content))))))"

definition document_content :: "string \<Rightarrow> db \<Rightarrow> files \<Rightarrow> (string \<times> string \<times> string) answer" where
  \<comment> \<open>the file with its media type and name\<close>
  "document_content document_id d fs =
     bind_res (get_document_row d document_id) (\<lambda>r.
       case fs (do_path r) of
         None \<Rightarrow> Inl (API_error 404 ''file_missing'' ''The original file is no longer available.'' [])
       | Some content \<Rightarrow> Inr (content, do_media_type r, do_filename r))"

definition retry_document :: "draws \<Rightarrow> string \<Rightarrow> db \<Rightarrow> document_row answer \<times> db" where
  "retry_document su document_id d =
     (case get_document_row d document_id of
        Inl f \<Rightarrow> (Inl f, d)
      | Inr r \<Rightarrow>
          if do_status r \<noteq> ''failed''
          then (Inl (API_error 409 ''document_not_failed'' ''Only failed documents can be retried.'' []), d)
          else (let r = r\<lparr>do_status := ''processing'', do_error := None, do_updated := su_now su 0\<rparr>
                in (Inr r, save_document r d)))"

definition delete_document ::
  "(string \<Rightarrow> string) \<Rightarrow> (pydict \<Rightarrow> stream) \<Rightarrow> (nat \<Rightarrow> draws) \<Rightarrow> string \<Rightarrow> db \<Rightarrow> files \<Rightarrow> unit answer \<times> db \<times> files"
where
  \<comment> \<open>removal of course material from the index never fails the request\<close>
  "delete_document digest deliver feed document_id d fs =
     (case get_document_row d document_id of
        Inl f \<Rightarrow> (Inl f, d, fs)
      | Inr r \<Rightarrow>
          (let payload = [(''id'', VStr (do_id r)), (''course_id'', VStr (do_course r)), (''collection'', VStr (do_collection r))];
               gone = (\<lambda>d. (Inr (), d\<lparr>db_documents := del_row do_id document_id (db_documents d)\<rparr>, fs(do_path r := None)))
           in if do_collection r = ''slides'' then gone d
              else case consume_supervisor digest ''document_remove'' payload feed (deliver payload)
                          (new_chat_state (VStr (do_id r))) d of
                     Failed f d' _ \<Rightarrow> (Inl f, d', fs)
                   | Done _ d' \<Rightarrow> gone d'))"

section \<open>Plan and tasks\<close>

definition percent :: "nat \<Rightarrow> nat \<Rightarrow> rat" where
  \<comment> \<open>\<open>a / b * 100 if b else 0\<close>\<close>
  "percent a b = (if b = 0 then 0 else fmul (fdiv_int (int a) (int b)) 100)"

definition invalid_task_status :: fault where
  "invalid_task_status = API_error 422 ''invalid_task_status'' ''status must be todo, done, or skipped.'' []"

definition get_plan ::
  "datetime option \<Rightarrow> datetime option \<Rightarrow> string option \<Rightarrow> string option \<Rightarrow> db
    \<Rightarrow> (semester_row option \<times> task_row list \<times> nat \<times> nat \<times> rat) answer"
where
  \<comment> \<open>the semester, the tasks and the summary: total, done, completion percent\<close>
  "get_plan from_at to_at course_id wanted d =
     (let keep = (\<lambda>t. (case from_at of Some f \<Rightarrow> instant_of f \<le> ta_end t | None \<Rightarrow> True)
            \<and> (case to_at of Some u \<Rightarrow> ta_start t \<le> instant_of u | None \<Rightarrow> True)
            \<and> (case course_id of Some c \<Rightarrow> c = [] \<or> ta_course t = Some c | None \<Rightarrow> True)
            \<and> (case wanted of Some s \<Rightarrow> s = [] \<or> ta_status t = s | None \<Rightarrow> True));
          tasks = filter keep (ordered_tasks d);
          completed = length (filter (\<lambda>t. ta_status t = ''done'') tasks)
      in if (case wanted of Some s \<Rightarrow> s \<noteq> [] \<and> s \<notin> set TASK_STATUSES | None \<Rightarrow> False) then Inl invalid_task_status
         else Inr (active_semester d, tasks, length tasks, completed, percent completed (length tasks)))"

definition create_task :: "draws \<Rightarrow> task_create \<Rightarrow> db \<Rightarrow> task_row answer \<times> db" where
  "create_task su p d =
     (case bind_res (task_create_ok p) (\<lambda>ok.
        if \<not> ok then Inl validation_error else known_course d (opt_str (tc_course p))) of
        Inl f \<Rightarrow> (Inl f, d)
      | Inr _ \<Rightarrow>
          (let task = \<lparr>ta_id = su_id su 0, ta_course = tc_course p, ta_title = tc_title p, ta_notes = tc_notes p,
                 ta_start = instant_of (tc_start p), ta_end = instant_of (tc_end p), ta_status = tc_status p,
                 ta_origin = tc_origin p, ta_created = su_now su 0, ta_updated = su_now su 1\<rparr>
           in (Inr task, d\<lparr>db_tasks := db_tasks d @ [task]\<rparr>)))"

definition given_instant :: "datetime option option \<Rightarrow> instant \<Rightarrow> string \<Rightarrow> instant answer" where
  \<comment> \<open>\<open>_iso_datetime(values.get(field, current), field)\<close>\<close>
  "given_instant x current field =
     iso_datetime (case x of None \<Rightarrow> stamp current | Some None \<Rightarrow> VNone | Some (Some dt) \<Rightarrow> VDateTime dt) field"

definition changed_task :: "draws \<Rightarrow> task_update \<Rightarrow> task_row \<Rightarrow> task_row answer" where
  \<comment> \<open>the task with the given fields; a title or status of \<open>null\<close> is refused by the database\<close>
  "changed_task su p task =
     bind_res (given_instant (tu_start p) (ta_start task) ''start_at'') (\<lambda>start_at.
     bind_res (given_instant (tu_end p) (ta_end task) ''end_at'') (\<lambda>end_at.
       if end_at \<le> start_at
       then Inl (API_error 422 ''invalid_task_range'' ''A task end must be after its start.'' [])
       else if tu_title p = Some None \<or> tu_status p = Some None then Inl Integrity_error
       else Inr (task\<lparr>
         ta_course := (case tu_course p of Some c \<Rightarrow> c | None \<Rightarrow> ta_course task),
         ta_title := (case tu_title p of Some (Some t) \<Rightarrow> t | _ \<Rightarrow> ta_title task),
         ta_notes := (case tu_notes p of Some n \<Rightarrow> n | None \<Rightarrow> ta_notes task),
         ta_start := start_at, ta_end := end_at,
         ta_status := (case tu_status p of Some (Some s) \<Rightarrow> s | _ \<Rightarrow> ta_status task),
         ta_updated := su_now su 0\<rparr>)))"

definition update_task :: "draws \<Rightarrow> string \<Rightarrow> task_update \<Rightarrow> db \<Rightarrow> task_row answer \<times> db" where
  "update_task su task_id p d =
     (if \<not> task_update_ok p then (Inl validation_error, d)
      else case bind_res (get_task_row d task_id) (\<lambda>task.
          bind_res (known_course d (case tu_course p of Some c \<Rightarrow> opt_str c | None \<Rightarrow> VNone)) (\<lambda>_. changed_task su p task)) of
        Inl f \<Rightarrow> (Inl f, d)
      | Inr task \<Rightarrow> (Inr task, save_task task d))"

definition delete_task :: "string \<Rightarrow> db \<Rightarrow> unit answer \<times> db" where
  "delete_task task_id d =
     (case get_task_row d task_id of
        Inl f \<Rightarrow> (Inl f, d)
      | Inr _ \<Rightarrow> (Inr (), d\<lparr>db_tasks := del_row ta_id task_id (db_tasks d)\<rparr>))"

section \<open>Progress\<close>

definition average :: "rat list \<Rightarrow> rat option" where
  \<comment> \<open>\<open>sum(xs) / len(xs) if xs else None\<close>\<close>
  "average xs = (if xs = [] then None else Some (fdiv (float_sum_from (hd xs) 0 (tl xs)) (of_nat (length xs))))"

record course_progress =
  cp_id :: string
  cp_code :: string
  cp_name :: string
  cp_completed :: nat
  cp_total :: nat
  cp_average :: "rat option"

definition completed_attempts :: "db \<Rightarrow> attempt_row list" where
  "completed_attempts d = filter (\<lambda>a. at_status a = ''completed'') (db_attempts d)"

definition attempt_course :: "db \<Rightarrow> attempt_row \<Rightarrow> string option" where
  \<comment> \<open>\<open>attempt.quiz.course_id\<close>\<close>
  "attempt_course d a = (case find_row qr_id (at_quiz a) (db_quizzes d) of Some q \<Rightarrow> qr_course q | None \<Rightarrow> None)"

definition get_progress :: "db \<Rightarrow> rat \<times> rat option \<times> course_progress list" where
  "get_progress d =
     (let finished = (\<lambda>ts. length (filter (\<lambda>t. ta_status t = ''done'') ts));
          scores = (\<lambda>as. map the (filter (\<lambda>s. s \<noteq> None) (map at_score as)));
          course = (\<lambda>c. let ts = filter (\<lambda>t. ta_course t = Some (co_id c)) (db_tasks d)
            in \<lparr>cp_id = co_id c, cp_code = co_code c, cp_name = co_name c, cp_completed = finished ts, cp_total = length ts,
                cp_average = average (scores (filter (\<lambda>a. attempt_course d a = Some (co_id c)) (completed_attempts d)))\<rparr>)
      in (percent (finished (db_tasks d)) (length (db_tasks d)), average (scores (completed_attempts d)),
          map course (sort_key co_code (db_courses d))))"

end
