(* ===== verification/Attempts.thy ===== *)
theory Attempts
  imports Api
begin

text \<open>
  Quizzes, attempts and notifications of the API: what a quiz shows before and after an attempt is
  complete, answering, completing with score and weak topics, and the read state of notifications.
\<close>

section \<open>What a quiz shows\<close>

definition get_quiz_row :: "db \<Rightarrow> string \<Rightarrow> quiz_row answer" where
  "get_quiz_row d quiz_id =
     (case find_row qr_id quiz_id (db_quizzes d) of
        None \<Rightarrow> Inl (API_error 404 ''quiz_not_found'' ''Quiz was not found.'' [(''quiz_id'', VStr quiz_id)])
      | Some q \<Rightarrow> Inr q)"

definition get_attempt_row :: "db \<Rightarrow> string \<Rightarrow> attempt_row answer" where
  "get_attempt_row d attempt_id =
     (case find_row at_id attempt_id (db_attempts d) of
        None \<Rightarrow> Inl (API_error 404 ''attempt_not_found'' ''Quiz attempt was not found.'' [(''attempt_id'', VStr attempt_id)])
      | Some a \<Rightarrow> Inr a)"

definition option_dict :: "option_row \<Rightarrow> pydict" where
  "option_dict p = [(''option_id'', VStr (op_key p)), (''text'', VStr (op_text p))]"

definition question_public :: "db \<Rightarrow> bool \<Rightarrow> question_row \<Rightarrow> pydict" where
  "question_public d include_explanation q =
     [(''id'', VStr (qu_id q)), (''prompt'', VStr (qu_prompt q)), (''topic'', opt_str (qu_topic q)),
      (''explanation'', (if include_explanation then opt_str (qu_explanation q) else VNone)),
      (''options'', VList (map (VDict \<circ> option_dict) (sort_key op_position (question_options d (qu_id q)))))]"

definition completed_scores :: "db \<Rightarrow> string \<Rightarrow> rat list" where
  "completed_scores d quiz_id =
     map the (filter (\<lambda>s. s \<noteq> None)
       (map at_score (filter (\<lambda>a. at_quiz a = quiz_id \<and> at_status a = ''completed'') (db_attempts d))))"

definition quiz_list_item :: "db \<Rightarrow> quiz_row \<Rightarrow> pydict" where
  "quiz_list_item d q =
     (let scores = completed_scores d (qr_id q)
      in [(''id'', VStr (qr_id q)), (''course_id'', opt_str (qr_course q)), (''title'', VStr (qr_title q)),
          (''source_collections'', VList (map VStr (qr_collections q))),
          (''question_count'', VInt (int (length (quiz_questions d (qr_id q))))), (''created_at'', stamp (qr_created q)),
          (''latest_score'', (if scores = [] then VNone else VFloat (last scores))),
          (''best_score'', (if scores = [] then VNone else VFloat (max_by id (hd scores) (tl scores))))])"

type_synonym answer_map = "(string, answer_row) dict"

definition answer_by_question :: "answer_row list \<Rightarrow> answer_map" where
  \<comment> \<open>\<open>{answer.question_id: answer for answer in answers}\<close>\<close>
  "answer_by_question answers = foldl (\<lambda>m a. dict_set (an_question a) a m) [] answers"

definition reviewed_question :: "db \<Rightarrow> answer_map \<Rightarrow> question_row \<Rightarrow> pydict" where
  "reviewed_question d answers q =
     (let answer = map_of answers (qu_id q)
      in question_public d True q @
         [(''correct_option_id'', VStr (qu_correct q)),
          (''selected_option_id'', (case answer of Some a \<Rightarrow> VStr (an_selected a) | None \<Rightarrow> VNone)),
          (''is_correct'', VBool (case answer of Some a \<Rightarrow> an_correct a | None \<Rightarrow> False))])"

definition attempt_out :: "db \<Rightarrow> attempt_row \<Rightarrow> pydict" where
  "attempt_out d a =
     (let questions = quiz_questions d (at_quiz a)
      in [(''id'', VStr (at_id a)), (''quiz_id'', VStr (at_quiz a)), (''status'', VStr (at_status a)),
          (''score_percent'', opt_float (at_score a)), (''weak_topics'', VList (map VStr (at_weak a))),
          (''started_at'', stamp (at_started a)), (''completed_at'', opt_stamp (at_completed a)),
          (''questions'', VList (map VDict
             (if at_status a = ''completed''
              then map (reviewed_question d (answer_by_question (attempt_answers d (at_id a)))) questions
              else map (question_public d False) questions)))])"

section \<open>Quizzes\<close>

definition list_quizzes :: "db \<Rightarrow> pydict list" where
  "list_quizzes d = map (quiz_list_item d) (newest_first qr_created (db_quizzes d))"

definition get_quiz :: "string \<Rightarrow> db \<Rightarrow> pydict answer" where
  "get_quiz quiz_id d =
     map_sum id (\<lambda>q. quiz_list_item d q @
         [(''questions'', VList (map (VDict \<circ> question_public d False) (quiz_questions d (qr_id q))))])
       (get_quiz_row d quiz_id)"

definition delete_quiz :: "string \<Rightarrow> db \<Rightarrow> unit answer \<times> db" where
  "delete_quiz quiz_id d =
     (case get_quiz_row d quiz_id of
        Inl f \<Rightarrow> (Inl f, d)
      | Inr q \<Rightarrow> (Inr (), cascade_quiz (qr_id q) d))"

section \<open>Attempts\<close>

definition start_attempt :: "draws \<Rightarrow> string \<Rightarrow> db \<Rightarrow> pydict answer \<times> db" where
  "start_attempt su quiz_id d =
     (case get_quiz_row d quiz_id of
        Inl f \<Rightarrow> (Inl f, d)
      | Inr q \<Rightarrow>
          (let attempt = \<lparr>at_id = su_id su 0, at_quiz = qr_id q, at_status = ''in_progress'', at_score = None, at_weak = [],
                 at_started = su_now su 0, at_completed = None\<rparr>
           in (Inr [(''id'', VStr (at_id attempt)), (''quiz_id'', VStr (qr_id q)), (''status'', VStr (at_status attempt)),
                    (''started_at'', stamp (at_started attempt)),
                    (''questions'', VList (map (VDict \<circ> question_public d False) (quiz_questions d (qr_id q))))],
               d\<lparr>db_attempts := db_attempts d @ [attempt]\<rparr>)))"

definition get_attempt :: "string \<Rightarrow> db \<Rightarrow> pydict answer" where
  "get_attempt attempt_id d = map_sum id (attempt_out d) (get_attempt_row d attempt_id)"

definition recorded_answer :: "db \<Rightarrow> string \<Rightarrow> string \<Rightarrow> answer_row option" where
  "recorded_answer d attempt_id question_id =
     find (\<lambda>a. an_attempt a = attempt_id \<and> an_question a = question_id) (db_answers d)"

definition submit_answer :: "draws \<Rightarrow> string \<Rightarrow> string \<Rightarrow> string \<Rightarrow> db \<Rightarrow> pydict answer \<times> db" where
  "submit_answer su attempt_id question_id selected d =
     (case bind_res (get_attempt_row d attempt_id) (\<lambda>attempt.
        if at_status attempt \<noteq> ''in_progress''
        then Inl (API_error 409 ''attempt_completed'' ''This quiz attempt is already complete.'' [])
        else case find (\<lambda>q. qu_id q = question_id) (quiz_questions d (at_quiz attempt)) of
          None \<Rightarrow> Inl (API_error 404 ''question_not_found'' ''The question does not belong to this quiz.'' [])
        | Some question \<Rightarrow>
            if selected \<notin> op_key ` set (question_options d (qu_id question))
            then Inl (API_error 422 ''invalid_option'' ''The selected option does not belong to this question.'' [])
            else Inr (attempt, question)) of
        Inl f \<Rightarrow> (Inl f, d)
      | Inr (attempt, question) \<Rightarrow>
          (let correct = (selected = qu_correct question);
               answer = (case recorded_answer d (at_id attempt) (qu_id question) of
                   None \<Rightarrow> \<lparr>an_id = su_id su 0, an_attempt = at_id attempt, an_question = qu_id question, an_selected = selected,
                     an_correct = correct, an_answered = su_now su 0\<rparr>
                 | Some a \<Rightarrow> a\<lparr>an_selected := selected, an_correct := correct, an_answered := su_now su 0\<rparr>)
           in (Inr [(''question_id'', VStr (qu_id question)), (''selected_option_id'', VStr selected), (''answered'', VBool True)],
               d\<lparr>db_answers := put_row an_id answer (db_answers d)\<rparr>)))"

definition score_percent :: "nat \<Rightarrow> nat \<Rightarrow> rat" where
  \<comment> \<open>\<open>round(correct / total * 100, 2) if total else 0\<close>\<close>
  "score_percent correct n = (if n = 0 then 0 else fround 2 (fmul (fdiv_int (int correct) (int n)) 100))"

definition topics_missed :: "answer_map \<Rightarrow> question_row list \<Rightarrow> string list" where
  "topics_missed answers questions =
     sorted_set (concat (map (\<lambda>q. case (map_of answers (qu_id q), qu_topic q) of
         (Some a, Some t) \<Rightarrow> if \<not> an_correct a \<and> t \<noteq> [] then [t] else []
       | _ \<Rightarrow> []) questions))"

definition complete_attempt :: "draws \<Rightarrow> string \<Rightarrow> db \<Rightarrow> pydict answer \<times> db" where
  "complete_attempt su attempt_id d =
     (case get_attempt_row d attempt_id of
        Inl f \<Rightarrow> (Inl f, d)
      | Inr attempt \<Rightarrow>
          if at_status attempt \<noteq> ''in_progress'' then (Inr (attempt_out d attempt), d)
          else
            (let answers = answer_by_question (attempt_answers d (at_id attempt));
                 questions = quiz_questions d (at_quiz attempt);
                 missing = filter (\<lambda>i. map_of answers i = None) (map qu_id questions)
             in if missing \<noteq> []
                then (Inl (API_error 409 ''unanswered_questions'' ''Answer every question before completing the quiz.''
                       [(''question_ids'', VList (map VStr missing))]), d)
                else
                  (let done = attempt\<lparr>
                         at_score := Some (score_percent (length (filter an_correct (map snd answers))) (length questions)),
                         at_weak := topics_missed answers questions, at_status := ''completed'',
                         at_completed := Some (su_now su 0)\<rparr>;
                       d' = d\<lparr>db_attempts := put_row at_id done (db_attempts d)\<rparr>
                   in (Inr (attempt_out d' done), d'))))"

section \<open>Notifications\<close>

definition list_notifications :: "bool \<Rightarrow> db \<Rightarrow> notification_row list" where
  "list_notifications unread d =
     newest_first no_created (filter (\<lambda>n. unread \<longrightarrow> no_read n = None) (db_notifications d))"

definition update_notification :: "draws \<Rightarrow> string \<Rightarrow> pydict \<Rightarrow> db \<Rightarrow> notification_row answer \<times> db" where
  "update_notification su notification_id payload d =
     (case find_row no_id notification_id (db_notifications d) of
        None \<Rightarrow> (Inl (API_error 404 ''notification_not_found'' ''Notification was not found.'' []), d)
      | Some n \<Rightarrow>
          (let n = (if vget payload ''read'' = VBool True then n\<lparr>no_read := Some (su_now su 0)\<rparr>
                    else if vget payload ''read'' = VBool False then n\<lparr>no_read := None\<rparr> else n)
           in (Inr n, d\<lparr>db_notifications := put_row no_id n (db_notifications d)\<rparr>)))"

definition read_all_notifications :: "(nat \<Rightarrow> instant) \<Rightarrow> db \<Rightarrow> db" where
  \<comment> \<open>one reading of the clock per row\<close>
  "read_all_notifications now d =
     d\<lparr>db_notifications := map (\<lambda>(i, n). if no_read n = None then n\<lparr>no_read := Some (now i)\<rparr> else n)
         (enumerate 0 (db_notifications d))\<rparr>"

end
