(* ===== verification/Chat.thy ===== *)
theory Chat
  imports Attempts
begin

text \<open>
  \<open>/v1/chat/completions\<close> of \<open>backend/main.py\<close>: the request handed to the supervisor, the citation
  footer and source payload, the answer at once and the answer as a stream of server-sent events.
  The supervisor is the function \<open>deliver\<close> from a request to the stream of its events.
\<close>

section \<open>Citations\<close>

definition source_payload :: "pydict list \<Rightarrow> pyval" where
  "source_payload citations =
     VList (map (\<lambda>c.
       let label = vget_default c ''label'' (VStr ''Course material'')
       in VDict
         [(''source'', VDict [(''id'', vget c ''document_id''), (''name'', label), (''type'', VStr ''file'')]),
          (''document'', VList [vget_default c ''excerpt'' (VStr [])]),
          (''metadata'', VList [VDict
             [(''file_id'', vget c ''document_id''), (''name'', label), (''source'', label), (''page'', vget c ''page''),
              (''slide'', vget c ''slide'')]])]) citations)"

definition citation_line :: "nat \<Rightarrow> pydict \<Rightarrow> string" where
  "citation_line n c =
     (let label = vget_default c ''label'' (VStr ''Course material'');
          page = py_or (vget c ''page'') (vget c ''slide'');
          sfx = (if truthy page then '', p. '' @ py_str page else []);
          link = (if truthy (vget c ''document_id'')
                  then ''/api/nahaj/api/v1/documents/'' @ py_str (vget c ''document_id'') @ ''/content'' else ''#'')
      in ''['' @ nat_str n @ ''] ['' @ py_str label @ sfx @ '']('' @ link @ '')'')"

definition citation_footer :: "pydict list \<Rightarrow> string" where
  "citation_footer citations =
     (if citations = [] then []
      else join [newline] (([newline, newline] @ ''Sources:'') #
             map (\<lambda>(n, c). citation_line n c) (enumerate_from 1 citations)))"

definition link_lines :: "(string \<times> string) list \<Rightarrow> string" where
  "link_lines links =
     (if links = [] then []
      else [newline, newline] @ join [newline] (map (\<lambda>(label, url). ''['' @ label @ '']('' @ url @ '')'') links))"

section \<open>The request\<close>

record chat_headers =
  ch_task :: string                  \<comment> \<open>\<open>x-openwebui-task\<close>, empty when absent\<close>
  ch_chat_id :: "string option"      \<comment> \<open>\<open>x-openwebui-chat-id\<close>\<close>
  ch_request_id :: string            \<comment> \<open>\<open>request_id\<close> of the middleware\<close>

definition client_task :: "chat_headers \<Rightarrow> string" where
  "client_task h = take 100 (filter (\<lambda>c. is_word c \<or> c = CHR ''-'') (ch_task h))"

definition conversation_id :: "chat_headers \<Rightarrow> pydict \<Rightarrow> pydict \<Rightarrow> string" where
  "conversation_id h payload ctx =
     take 200 (py_str (foldr py_or
       [vget ctx ''thread_id'', opt_str (ch_chat_id h), vget payload ''chat_id'', vget payload ''conversation_id'',
        vget payload ''session_id'', vget payload ''id''] (VStr (''request-'' @ ch_request_id h))))"

definition thread_id :: "chat_headers \<Rightarrow> pydict \<Rightarrow> pydict \<Rightarrow> string" where
  \<comment> \<open>one workflow thread per conversation and client task\<close>
  "thread_id h payload ctx =
     (if client_task h = [] then conversation_id h payload ctx
      else conversation_id h payload ctx @ '':task:'' @ client_task h)"

definition is_str :: "pyval \<Rightarrow> bool" where
  "is_str v = (case v of VStr _ \<Rightarrow> True | _ \<Rightarrow> False)"

definition invalid_context :: "string \<Rightarrow> fault" where
  "invalid_context message = API_error 422 ''invalid_nahaj_context'' message []"

definition chat_request ::
  "(document_row \<Rightarrow> int option) \<Rightarrow> string \<Rightarrow> chat_headers \<Rightarrow> pydict \<Rightarrow> db \<Rightarrow> request answer"
where
  "chat_request slide_count request_id h payload d =
     (if vget payload ''model'' \<noteq> VStr ''nahaj-supervisor''
      then Inl (API_error 404 ''model_not_found'' ''Only nahaj-supervisor is available.'' [])
      else case vget payload ''messages'' of
        VList (m # ms) \<Rightarrow>
          (case py_or (vget payload ''nahaj_context'') (VDict []) of
             VDict ctx \<Rightarrow>
               (case py_or (vget ctx ''document_ids'') (VList []) of
                  VList ids \<Rightarrow>
                    if list_all is_str ids
                    then Inr \<lparr>rq_type = ''chat'', rq_id = request_id, rq_messages = dicts_of (m # ms),
                      rq_context =
                        [(''course_id'', vget ctx ''course_id''), (''document_ids'', VList ids),
                         (''thread_id'', VStr (thread_id h payload ctx)),
                         (''client_task'', opt_text (client_task h)),
                         (''semester'', (case active_semester d of Some s \<Rightarrow> VStr (sem_id s) | None \<Rightarrow> VNone)),
                         (''shared_state'', VDict (shared_state_snapshot slide_count d))],
                      rq_document = [], rq_snapshot = []\<rparr>
                    else Inl (invalid_context ''nahaj_context.document_ids must be a list of IDs.'')
                | _ \<Rightarrow> Inl (invalid_context ''nahaj_context.document_ids must be a list of IDs.''))
           | _ \<Rightarrow> Inl (invalid_context ''nahaj_context must be an object.''))
      | _ \<Rightarrow> Inl (API_error 422 ''messages_required'' ''At least one chat message is required.'' []))"

section \<open>The answer at once\<close>

definition unix_seconds :: "instant \<Rightarrow> int" where
  \<comment> \<open>\<open>int(time.time())\<close>\<close>
  "unix_seconds i = (i - 719163 * day_us) div 1000000"

definition answer_links :: "chat_state \<Rightarrow> (string \<times> string) list" where
  "answer_links st = cs_links st @ (if cs_plan_changed st then [(''Open your plan'', ''/plan'')] else [])"

definition reply_text :: "chat_state \<Rightarrow> string" where
  \<comment> \<open>text, sources, links; released only when it validates\<close>
  "reply_text st =
     safe_final_response (strip (concat (cs_text st)) @ citation_footer (cs_citations st) @ link_lines (answer_links st))"

definition completion :: "string \<Rightarrow> instant \<Rightarrow> chat_state \<Rightarrow> pydict" where
  "completion completion_id now st =
     [(''id'', VStr completion_id), (''object'', VStr ''chat.completion''), (''created'', VInt (unix_seconds now)),
      (''model'', VStr ''nahaj-supervisor''),
      (''choices'', VList [VDict [(''index'', VInt 0),
         (''message'', VDict [(''role'', VStr ''assistant''), (''content'', VStr (reply_text st))]),
         (''finish_reason'', VStr ''stop'')]]),
      (''sources'', source_payload (cs_citations st)),
      (''usage'', VDict [(''prompt_tokens'', VInt 0), (''completion_tokens'', VInt 0), (''total_tokens'', VInt 0)])]"

section \<open>The answer as a stream\<close>

definition sse :: "string \<Rightarrow> string" where
  "sse body = ''data: '' @ body @ [newline, newline]"

definition openai_chunk :: "string \<Rightarrow> instant \<Rightarrow> pydict \<Rightarrow> pyval \<Rightarrow> string" where
  "openai_chunk completion_id now delta finish_reason =
     sse (case json_dumps (VDict
       [(''id'', VStr completion_id), (''object'', VStr ''chat.completion.chunk''), (''created'', VInt (unix_seconds now)),
        (''model'', VStr ''nahaj-supervisor''),
        (''choices'', VList [VDict [(''index'', VInt 0), (''delta'', VDict delta), (''finish_reason'', finish_reason)]])]) of
       Some text \<Rightarrow> text | None \<Rightarrow> [])"

definition source_event :: "string \<Rightarrow> instant \<Rightarrow> pydict list \<Rightarrow> string option" where
  "source_event completion_id now citations =
     map_option sse (json_dumps (VDict
       [(''id'', VStr completion_id), (''object'', VStr ''chat.completion.chunk''), (''created'', VInt (unix_seconds now)),
        (''model'', VStr ''nahaj-supervisor''), (''choices'', VList []), (''sources'', source_payload citations)]))"

definition stream_end :: "string \<Rightarrow> instant \<Rightarrow> string list" where
  "stream_end completion_id now = [openai_chunk completion_id now [] (VStr ''stop''), sse ''[DONE]'']"

definition stream_failure :: "string \<Rightarrow> instant \<Rightarrow> fault \<Rightarrow> string list" where
  \<comment> \<open>the handlers of \<open>stream_response\<close>\<close>
  "stream_failure completion_id now f =
     (case f of
        Raised (SupervisorUnavailable _) \<Rightarrow>
          [sse (case json_dumps (VDict [(''error'', VDict [(''code'', VStr ''supervisor_unavailable''),
             (''message'', VStr ''The supervisor is not configured.'')])]) of Some t \<Rightarrow> t | None \<Rightarrow> []), sse ''[DONE]'']
      | _ \<Rightarrow> openai_chunk completion_id now [(''content'', VStr ''I couldn't complete that request. Please try again.'')] VNone
             # stream_end completion_id now)"

fun stream_events ::
  "(string \<Rightarrow> string) \<Rightarrow> (nat \<Rightarrow> draws) \<Rightarrow> string \<Rightarrow> instant \<Rightarrow> nat \<Rightarrow> raw_event list \<Rightarrow> exn option \<Rightarrow> chat_state \<Rightarrow> db
    \<Rightarrow> string list \<times> chat_state outcome"
where
  \<comment> \<open>an empty chunk is sent for every status event\<close>
  "stream_events digest feed completion_id now n [] raised st d =
     ([], case raised of None \<Rightarrow> Done st d | Some e \<Rightarrow> Failed (Raised e) d (Some d))"
| "stream_events digest feed completion_id now n (raw # rest) raised st d =
     (case coerce_event raw of
        Inl f \<Rightarrow> ([], Failed f d (Some d))
      | Inr event \<Rightarrow>
          (case apply_event digest (feed n) event st d of
             Failed f d' left \<Rightarrow> ([], Failed f d' left)
           | Done st' d' \<Rightarrow>
               map_prod (\<lambda>out. (if se_kind event = ''status''
                   then [openai_chunk completion_id now [(''content'', VStr [])] VNone] else []) @ out) id
                 (stream_events digest feed completion_id now (n + 1) rest raised st' d')))"

definition stream_response ::
  "(string \<Rightarrow> string) \<Rightarrow> (nat \<Rightarrow> draws) \<Rightarrow> string \<Rightarrow> instant \<Rightarrow> stream \<Rightarrow> db \<Rightarrow> string list \<times> db"
where
  "stream_response digest feed completion_id now s d =
     (let (sent, outcome) = stream_events digest feed completion_id now 0 (st_events s) (st_raises s) (new_chat_state VNone) d
      in case outcome of
           Failed f d' _ \<Rightarrow> (sent @ stream_failure completion_id now f, d')
         | Done st d' \<Rightarrow>
             (sent @ [openai_chunk completion_id now [(''content'', VStr (reply_text st))] VNone] @
              (if cs_citations st = [] then stream_end completion_id now
               else case source_event completion_id now (cs_citations st) of
                 Some e \<Rightarrow> e # stream_end completion_id now
               | None \<Rightarrow> stream_failure completion_id now (Raised (TypeError ''Object is not JSON serializable''))), d'))"

datatype chat_answer = Completion pydict | Event_stream "string list"

definition chat_completions ::
  "(string \<Rightarrow> string) \<Rightarrow> (document_row \<Rightarrow> int option) \<Rightarrow> (request \<Rightarrow> stream) \<Rightarrow> (nat \<Rightarrow> draws) \<Rightarrow> string \<Rightarrow> instant
    \<Rightarrow> string \<Rightarrow> chat_headers \<Rightarrow> pydict \<Rightarrow> db \<Rightarrow> chat_answer answer \<times> db"
where
  "chat_completions digest slide_count deliver feed completion_id now request_id h payload d =
     (case chat_request slide_count request_id h payload d of
        Inl f \<Rightarrow> (Inl f, d)
      | Inr request \<Rightarrow>
          if truthy (vget_default payload ''stream'' (VBool False))
          then (let (sent, d') = stream_response digest feed completion_id now (deliver request) d in (Inr (Event_stream sent), d'))
          else case consume_supervisor digest ''chat'' [] feed (deliver request) (new_chat_state VNone) d of
                 Failed f d' _ \<Rightarrow> (Inl f, d')
               | Done st d' \<Rightarrow> (Inr (Completion (completion completion_id now st)), d'))"

end
