(* ===== verification/QuizBank.thy ===== *)
theory QuizBank
  imports Chat
begin

text \<open>
  The invariant of the quizzes, attempts and answers in the database, as every operation of the API
  and every event of a supervisor keeps it: questions have four options with the correct one among
  them, answers belong to a question of the attempt's quiz and are marked by its key, and a
  completed attempt has an answer to every question and the score of those answers.
\<close>

section \<open>The invariant\<close>

definition four_choices :: "db \<Rightarrow> question_row \<Rightarrow> bool" where
  "four_choices d q \<longleftrightarrow>
     (let keys = map op_key (question_options d (qu_id q))
      in length keys = 4 \<and> distinct keys \<and> qu_correct q \<in> set keys)"

definition answer_ok :: "db \<Rightarrow> answer_row \<Rightarrow> bool" where
  "answer_ok d an \<longleftrightarrow>
     (\<exists>a \<in> set (db_attempts d). \<exists>q \<in> set (db_questions d).
        at_id a = an_attempt an \<and> qu_id q = an_question an \<and> qu_quiz q = at_quiz a \<and>
        an_selected an \<in> op_key ` set (question_options d (qu_id q)) \<and>
        an_correct an = (an_selected an = qu_correct q))"

definition attempt_ok :: "db \<Rightarrow> attempt_row \<Rightarrow> bool" where
  "attempt_ok d a \<longleftrightarrow>
     (if at_status a = ''completed''
      then at_completed a \<noteq> None \<and>
        qu_id ` set (quiz_questions d (at_quiz a)) \<subseteq> an_question ` set (attempt_answers d (at_id a)) \<and>
        at_score a = Some (score_percent (length (filter an_correct (attempt_answers d (at_id a))))
                             (length (quiz_questions d (at_quiz a))))
      else at_status a = ''in_progress'' \<and> at_score a = None \<and> at_completed a = None)"

definition slot :: "answer_row \<Rightarrow> string \<times> string" where
  \<comment> \<open>\<open>uq_attempt_question\<close>\<close>
  "slot an = (an_attempt an, an_question an)"

definition bank_ok :: "db \<Rightarrow> bool" where
  "bank_ok d \<longleftrightarrow>
     keys_ok qr_id (db_quizzes d) \<and> keys_ok qu_id (db_questions d) \<and> keys_ok at_id (db_attempts d) \<and>
     keys_ok an_id (db_answers d) \<and> distinct (map slot (db_answers d)) \<and>
     (\<forall>q \<in> set (db_questions d). qu_quiz q \<in> qr_id ` set (db_quizzes d) \<and> four_choices d q) \<and>
     (\<forall>p \<in> set (db_options d). op_question p \<in> qu_id ` set (db_questions d)) \<and>
     (\<forall>a \<in> set (db_attempts d). at_quiz a \<in> qr_id ` set (db_quizzes d) \<and> attempt_ok d a) \<and>
     (\<forall>an \<in> set (db_answers d). answer_ok d an)"

definition bank where
  "bank d = (db_quizzes d, db_questions d, db_options d, db_attempts d, db_answers d)"

lemma bank_ok_same: "bank d' = bank d \<Longrightarrow> bank_ok d' = bank_ok d"
  by (simp add: bank_def bank_ok_def four_choices_def answer_ok_def attempt_ok_def question_options_def
      quiz_questions_def attempt_answers_def)

lemma bank_frame:
  "db_options d' = db_options d \<Longrightarrow> four_choices d' q = four_choices d q"
  "db_questions d' = db_questions d \<Longrightarrow> db_answers d' = db_answers d \<Longrightarrow> attempt_ok d' a = attempt_ok d a"
  "db_attempts d' = db_attempts d \<Longrightarrow> db_questions d' = db_questions d \<Longrightarrow> db_options d' = db_options d \<Longrightarrow>
     answer_ok d' an = answer_ok d an"
  by (simp_all add: four_choices_def answer_ok_def attempt_ok_def question_options_def quiz_questions_def
      attempt_answers_def)

text \<open>Identifiers a request draws are new.\<close>

definition bank_ids :: "db \<Rightarrow> string set" where
  "bank_ids d = qr_id ` set (db_quizzes d) \<union> qu_id ` set (db_questions d) \<union> at_id ` set (db_attempts d)
     \<union> an_id ` set (db_answers d)"

definition unused :: "draws \<Rightarrow> db \<Rightarrow> bool" where
  "unused su d \<longleftrightarrow> inj (su_id su) \<and> range (su_id su) \<inter> bank_ids d = {}"

lemma unusedD:
  assumes "unused su d"
  shows "su_id su n \<notin> qr_id ` set (db_quizzes d)" "su_id su n \<notin> qu_id ` set (db_questions d)"
    "su_id su n \<notin> at_id ` set (db_attempts d)" "su_id su n \<notin> an_id ` set (db_answers d)"
proof -
  have "su_id su n \<in> range (su_id su)" by simp
  then have "su_id su n \<notin> bank_ids d" using assms by (auto simp: unused_def)
  then show "su_id su n \<notin> qr_id ` set (db_quizzes d)" "su_id su n \<notin> qu_id ` set (db_questions d)"
    "su_id su n \<notin> at_id ` set (db_attempts d)" "su_id su n \<notin> an_id ` set (db_answers d)"
    by (simp_all add: bank_ids_def)
qed

section \<open>Storing a quiz\<close>

lemma set_quiz_questions [simp]: "set (quiz_questions d i) = {q \<in> set (db_questions d). qu_quiz q = i}"
  by (auto simp: quiz_questions_def)

lemma set_question_options [simp]: "set (question_options d i) = {p \<in> set (db_options d). op_question p = i}"
  by (auto simp: question_options_def)

lemma length_option_rows [simp]: "length (option_rows_of ids question_id options) = length options"
  by (simp add: option_rows_of_def)

lemma nth_option_rows:
  "i < length options \<Longrightarrow> option_rows_of ids question_id options ! i =
     \<lparr>op_id = ids i, op_question = question_id, op_key = py_str (vget (options ! i) ''option_id''),
       op_text = py_str (vget_default (options ! i) ''text'' (VStr [])), op_position = i\<rparr>"
  by (simp add: option_rows_of_def nth_enumerate_eq)

lemma sort_option_rows:
  "sort_key op_position (option_rows_of ids question_id options) = option_rows_of ids question_id options"
proof -
  have "map op_position (option_rows_of ids question_id options) = [0..<length options]"
    by (rule nth_equalityI) (simp_all add: nth_option_rows)
  then have "sorted (map op_position (option_rows_of ids question_id options))"
    by (metis sorted_upt)
  then show ?thesis by (rule sort_key_id_if_sorted)
qed

lemma option_row_fields:
  "map op_key (option_rows_of ids question_id options) = option_ids options"
  "p \<in> set (option_rows_of ids question_id options) \<Longrightarrow> op_question p = question_id"
  by (rule nth_equalityI) (auto simp: option_ids_def nth_option_rows in_set_conv_nth)

lemma accepted_question:
  assumes "question_options_of element = Inr (question, options)"
  shows "length (option_ids options) = 4" "distinct (option_ids options)"
    "py_str (vget_default question ''correct_option_id'' (VStr [])) \<in> set (option_ids options)"
proof -
  have ok: "mcq_ok question options"
    using assms by (auto simp: question_options_of_def split: pyval.splits if_splits)
  then show "length (option_ids options) = 4"
    "py_str (vget_default question ''correct_option_id'' (VStr [])) \<in> set (option_ids options)"
    by (simp_all add: mcq_ok_def Let_def option_ids_def)
  show "distinct (option_ids options)"
    using ok by (intro card_distinct) (simp add: mcq_ok_def Let_def option_ids_def)
qed

definition with_question :: "question_row \<Rightarrow> option_row list \<Rightarrow> db \<Rightarrow> db" where
  "with_question q ps d = d\<lparr>db_questions := db_questions d @ [q], db_options := db_options d @ ps\<rparr>"

lemma with_question_quiz [simp]:
  "qu_quiz q \<noteq> i \<Longrightarrow> quiz_questions (with_question q ps d) i = quiz_questions d i"
  by (simp add: with_question_def quiz_questions_def)

lemma with_question_options:
  assumes "\<And>p. p \<in> set ps \<Longrightarrow> op_question p = qu_id q"
  shows "i \<noteq> qu_id q \<Longrightarrow> question_options (with_question q ps d) i = question_options d i"
    "qu_id q \<notin> op_question ` set (db_options d) \<Longrightarrow>
       question_options (with_question q ps d) (qu_id q) = sort_key op_position ps"
proof -
  have "i \<noteq> qu_id q \<Longrightarrow> filter (\<lambda>p. op_question p = i) ps = []" for i
    using assms by (auto simp: filter_empty_conv)
  then show "i \<noteq> qu_id q \<Longrightarrow> question_options (with_question q ps d) i = question_options d i"
    by (simp add: with_question_def question_options_def)
  have "qu_id q \<notin> op_question ` set (db_options d) \<Longrightarrow> filter (\<lambda>p. op_question p = qu_id q) (db_options d) = []"
    by (auto simp: filter_empty_conv image_iff)
  moreover have "filter (\<lambda>p. op_question p = qu_id q) ps = ps"
    using assms by simp
  ultimately show "qu_id q \<notin> op_question ` set (db_options d) \<Longrightarrow>
       question_options (with_question q ps d) (qu_id q) = sort_key op_position ps"
    by (simp add: with_question_def question_options_def)
qed

lemma bank_ok_with_question:
  assumes ok: "bank_ok d" and new: "qu_id q \<notin> qu_id ` set (db_questions d)"
    and quiz: "qu_quiz q \<in> qr_id ` set (db_quizzes d)" "qu_quiz q \<notin> at_quiz ` set (db_attempts d)"
    and own: "\<And>p. p \<in> set ps \<Longrightarrow> op_question p = qu_id q"
    and four: "length ps = 4" "distinct (map op_key ps)" "qu_correct q \<in> op_key ` set ps"
    and sorted: "sort_key op_position ps = ps"
  shows "bank_ok (with_question q ps d)"
proof -
  let ?d = "with_question q ps d"
  have unowned: "qu_id q \<notin> op_question ` set (db_options d)"
    using ok new by (fastforce simp: bank_ok_def)
  note opts = with_question_options [where q = q and ps = ps and d = d, OF own]
  have old: "question_options ?d (qu_id x) = question_options d (qu_id x)" if "x \<in> set (db_questions d)" for x
    using opts(1) new that by (metis imageI)
  have this_one: "question_options ?d (qu_id q) = ps"
    using opts(2) unowned sorted by simp
  have tables: "db_questions ?d = db_questions d @ [q]" "db_options ?d = db_options d @ ps"
    "db_quizzes ?d = db_quizzes d" "db_attempts ?d = db_attempts d" "db_answers ?d = db_answers d"
    by (simp_all add: with_question_def)
  have quests: "quiz_questions ?d (at_quiz a) = quiz_questions d (at_quiz a)" if "a \<in> set (db_attempts d)" for a
    using quiz(2) that by (intro with_question_quiz) auto
  have attempts: "attempt_ok ?d a = attempt_ok d a" if "a \<in> set (db_attempts d)" for a
    using quests [OF that] by (simp add: attempt_ok_def attempt_answers_def tables del: set_quiz_questions)
  have "answer_ok ?d an" if "an \<in> set (db_answers d)" for an
  proof -
    have "answer_ok d an" using ok that by (simp add: bank_ok_def)
    then obtain a x where "a \<in> set (db_attempts d)" "x \<in> set (db_questions d)" "at_id a = an_attempt an"
      "qu_id x = an_question an" "qu_quiz x = at_quiz a"
      "an_selected an \<in> op_key ` set (question_options d (qu_id x))" "an_correct an = (an_selected an = qu_correct x)"
      unfolding answer_ok_def by blast
    then show ?thesis
      unfolding answer_ok_def tables using old [of x] by (auto simp del: set_question_options intro!: bexI [of _ a] bexI [of _ x])
  qed
  moreover have "four_choices ?d q"
    unfolding four_choices_def this_one using four by simp
  moreover have "four_choices ?d x" if "x \<in> set (db_questions d)" for x
    using ok that old [OF that] by (simp add: bank_ok_def four_choices_def)
  ultimately show ?thesis
    using ok new quiz(1) own attempts unfolding bank_ok_def tables
    by (auto simp: keys_ok_def)
qed

lemma store_questions_ok:
  assumes "store_questions su quiz_id n elements d = Inr d'" and "bank_ok d" and "inj (su_id su)"
    and "\<And>m. n \<le> m \<Longrightarrow> su_id su (1 + 5 * m) \<notin> qu_id ` set (db_questions d)"
    and "quiz_id \<in> qr_id ` set (db_quizzes d)" and "quiz_id \<notin> at_quiz ` set (db_attempts d)"
  shows "bank_ok d'"
  using assms
proof (induction elements arbitrary: n d)
  case (Cons element rest)
  obtain question options where e: "question_options_of element = Inr (question, options)"
    using Cons.prems(1) by (auto simp: bind_res_Inr)
  define ps where "ps = option_rows_of (\<lambda>i. su_id su (2 + 5 * n + i)) (su_id su (1 + 5 * n)) options"
  define q where "q = question_row_of (su_id su (1 + 5 * n)) quiz_id n question"
  have q: "qu_id q = su_id su (1 + 5 * n)" "qu_quiz q = quiz_id"
    "qu_correct q = py_str (vget_default question ''correct_option_id'' (VStr []))"
    by (simp_all add: q_def question_row_of_def)
  have keys: "map op_key ps = option_ids options" by (simp add: ps_def option_row_fields)
  have "bank_ok (with_question q ps d)"
  proof (rule bank_ok_with_question)
    show "length ps = 4" "distinct (map op_key ps)"
      using accepted_question [OF e] by (simp_all add: keys flip: length_map [of op_key ps])
    show "qu_correct q \<in> op_key ` set ps"
      using accepted_question(3) [OF e] q(3) keys by (metis set_map)
    show "sort_key op_position ps = ps" by (simp add: ps_def sort_option_rows)
  qed (use Cons.prems q in \<open>auto simp: ps_def option_row_fields(2)\<close>)
  moreover have "store_questions su quiz_id (n + 1) rest (with_question q ps d) = Inr d'"
    using Cons.prems(1) by (simp add: e Let_def with_question_def q_def ps_def)
  moreover have "su_id su (1 + 5 * m) \<notin> qu_id ` set (db_questions (with_question q ps d))" if "n + 1 \<le> m" for m
    using Cons.prems(3,4) that q(1) by (auto simp: with_question_def dest: injD)
  ultimately show ?case
    using Cons.IH [of "n + 1" "with_question q ps d"] Cons.prems(3,5,6) by (simp add: with_question_def)
qed simp

definition with_quiz :: "quiz_row \<Rightarrow> db \<Rightarrow> db" where
  "with_quiz q d = d\<lparr>db_quizzes := db_quizzes d @ [q]\<rparr>"

lemma bank_ok_with_quiz:
  "bank_ok d \<Longrightarrow> qr_id q \<notin> qr_id ` set (db_quizzes d) \<Longrightarrow> bank_ok (with_quiz q d)"
  using bank_frame [of "with_quiz q d" d] by (auto simp: bank_ok_def with_quiz_def keys_ok_def)

lemma unused_attempts:
  assumes "unused su d" "bank_ok d"
  shows "su_id su n \<notin> at_quiz ` set (db_attempts d)"
  using unusedD(1) [OF assms(1), of n] assms(2) by (auto simp: bank_ok_def)

lemma quiz_create_ok:
  assumes "bank_ok d" and "unused su d"
  shows "quiz_create su data st d = Done st' d' \<Longrightarrow> bank_ok d'"
    and "quiz_create su data st d = Failed f d' (Some left) \<Longrightarrow> bank_ok left"
proof -
  let ?quiz = "\<lambda>cs. \<lparr>qr_id = su_id su 0, qr_course = text_column (vget data ''course_id''),
     qr_title = py_str (vget_default data ''title'' (VStr ''Practice quiz'')),
     qr_collections = map py_str cs, qr_created = su_now su 0\<rparr>"
  have flushed: "bank_ok (with_quiz (?quiz cs) d)" for cs
    using bank_ok_with_quiz [OF assms(1)] unusedD(1) [OF assms(2)] by simp
  have stored: "bank_ok d'" if "store_questions su (su_id su 0) 0 elements (with_quiz (?quiz cs) d) = Inr d'" for elements cs d'
    using store_questions_ok [OF that flushed] assms unusedD(2) [OF assms(2)] unused_attempts [OF assms(2,1)]
    by (simp add: with_quiz_def unused_def)
  show "quiz_create su data st d = Done st' d' \<Longrightarrow> bank_ok d'"
    by (auto simp: quiz_create_def Let_def intro: stored [unfolded with_quiz_def] split: if_splits sum.splits)
  show "quiz_create su data st d = Failed f d' (Some left) \<Longrightarrow> bank_ok left"
    using assms(1) flushed [unfolded with_quiz_def] by (auto simp: quiz_create_def Let_def split: if_splits sum.splits)
qed

section \<open>Other events\<close>

lemma event_bank:
  "document_status su data st d = Done st' d' \<Longrightarrow> bank d' = bank d"
  "document_status su data st d = Failed f d' (Some left) \<Longrightarrow> bank left = bank d"
  "task_upsert su data st d = Done st' d' \<Longrightarrow> bank d' = bank d"
  "task_upsert su data st d = Failed f d' (Some left) \<Longrightarrow> bank left = bank d"
  "task_delete data st d = Done st' d' \<Longrightarrow> bank d' = bank d"
  "task_delete data st d = Failed f d' (Some left) \<Longrightarrow> bank left = bank d"
  "notification_create digest su data st d = Done st' d' \<Longrightarrow> bank d' = bank d"
  "notification_create digest su data st d = Failed f d' (Some left) \<Longrightarrow> bank left = bank d"
  by (auto simp: document_status_def task_upsert_def task_delete_def notification_create_def bank_def save_document_def
      save_task_def Let_def split: option.splits if_splits sum.splits bool.splits)

lemma apply_event_ok:
  assumes "bank_ok d" and "unused su d"
  shows "apply_event digest su event st d = Done st' d' \<Longrightarrow> bank_ok d'"
    and "apply_event digest su event st d = Failed f d' (Some left) \<Longrightarrow> bank_ok left"
proof -
  show "apply_event digest su event st d = Done st' d' \<Longrightarrow> bank_ok d'"
    using assms(1) quiz_create_ok(1) [OF assms] event_bank(1,3,5,7) [THEN bank_ok_same]
    by (auto simp: apply_event_def Let_def split: if_splits)
  show "apply_event digest su event st d = Failed f d' (Some left) \<Longrightarrow> bank_ok left"
    using assms(1) quiz_create_ok(2) [OF assms] event_bank(2,4,6,8) [THEN bank_ok_same]
    by (auto simp: apply_event_def Let_def split: if_splits)
qed

section \<open>Deleting a quiz\<close>

lemma bank_okD:
  assumes "bank_ok d"
  shows "keys_ok qr_id (db_quizzes d)" "keys_ok qu_id (db_questions d)" "keys_ok at_id (db_attempts d)"
    "keys_ok an_id (db_answers d)" "distinct (map slot (db_answers d))"
    "q \<in> set (db_questions d) \<Longrightarrow> qu_quiz q \<in> qr_id ` set (db_quizzes d)"
    "q \<in> set (db_questions d) \<Longrightarrow> four_choices d q"
    "p \<in> set (db_options d) \<Longrightarrow> op_question p \<in> qu_id ` set (db_questions d)"
    "a \<in> set (db_attempts d) \<Longrightarrow> at_quiz a \<in> qr_id ` set (db_quizzes d)"
    "a \<in> set (db_attempts d) \<Longrightarrow> attempt_ok d a"
    "an \<in> set (db_answers d) \<Longrightarrow> answer_ok d an"
  using assms by (simp_all add: bank_ok_def)

lemma answer_owner:
  assumes ok: "bank_ok d" and "an \<in> set (db_answers d)" "a \<in> set (db_attempts d)" "an_attempt an = at_id a"
    and "x \<in> set (db_questions d)" "qu_id x = an_question an"
  shows "qu_quiz x = at_quiz a" "an_selected an \<in> op_key ` set (question_options d (qu_id x))"
    "an_correct an = (an_selected an = qu_correct x)"
proof -
  obtain b y where "b \<in> set (db_attempts d)" "y \<in> set (db_questions d)" "at_id b = an_attempt an"
    "qu_id y = an_question an" "qu_quiz y = at_quiz b" "an_selected an \<in> op_key ` set (question_options d (qu_id y))"
    "an_correct an = (an_selected an = qu_correct y)"
    using bank_okD(11) [OF ok assms(2)] unfolding answer_ok_def by blast
  moreover from this have "b = a" "y = x"
    using keys_ok_inj [OF bank_okD(3) [OF ok]] keys_ok_inj [OF bank_okD(2) [OF ok]] assms by metis+
  ultimately show "qu_quiz x = at_quiz a" "an_selected an \<in> op_key ` set (question_options d (qu_id x))"
    "an_correct an = (an_selected an = qu_correct x)" by simp_all
qed

lemma cascade_ok:
  assumes ok: "bank_ok d"
  shows "bank_ok (cascade_quiz i d)"
proof -
  let ?d = "cascade_quiz i d"
  define gone where "gone = qu_id ` {q \<in> set (db_questions d). qu_quiz q = i}"
  define past where "past = at_id ` {a \<in> set (db_attempts d). at_quiz a = i}"
  have t: "db_quizzes ?d = del_row qr_id i (db_quizzes d)"
    "db_questions ?d = filter (\<lambda>q. qu_quiz q \<noteq> i) (db_questions d)"
    "db_options ?d = filter (\<lambda>p. op_question p \<notin> gone) (db_options d)"
    "db_attempts ?d = filter (\<lambda>a. at_quiz a \<noteq> i) (db_attempts d)"
    "db_answers ?d = filter (\<lambda>a. an_attempt a \<notin> past
       \<and> an_question a \<notin> gone) (db_answers d)"
    by (simp_all add: cascade_quiz_def Let_def gone_def past_def)
  have kept: "qu_id q \<notin> gone"
    if "q \<in> set (db_questions d)" "qu_quiz q \<noteq> i" for q
    using keys_ok_inj [OF bank_okD(2) [OF ok]] that unfolding gone_def by blast
  have tried: "at_id a \<notin> past"
    if "a \<in> set (db_attempts d)" "at_quiz a \<noteq> i" for a
    using keys_ok_inj [OF bank_okD(3) [OF ok]] that unfolding past_def by blast
  have opts: "question_options ?d (qu_id q) = question_options d (qu_id q)"
    if "q \<in> set (db_questions d)" "qu_quiz q \<noteq> i" for q
  proof -
    have "filter (\<lambda>p. op_question p = qu_id q) (db_options ?d) = filter (\<lambda>p. op_question p = qu_id q) (db_options d)"
      unfolding t filter_filter using kept [OF that] by (intro filter_cong) auto
    then show ?thesis by (simp add: question_options_def)
  qed
  have quests: "quiz_questions ?d j = quiz_questions d j" if "j \<noteq> i" for j
  proof -
    have "filter (\<lambda>q. qu_quiz q = j) (db_questions ?d) = filter (\<lambda>q. qu_quiz q = j) (db_questions d)"
      unfolding t filter_filter using that by (intro filter_cong) auto
    then show ?thesis by (simp add: quiz_questions_def)
  qed
  have stays: "an_question an \<notin> gone"
    if "an \<in> set (db_answers d)" "a \<in> set (db_attempts d)" "an_attempt an = at_id a" "at_quiz a \<noteq> i" for an a
    using answer_owner(1) [OF ok that(1-3)] that(4) unfolding gone_def by force
  have answers: "attempt_answers ?d (at_id a) = attempt_answers d (at_id a)"
    if "a \<in> set (db_attempts d)" "at_quiz a \<noteq> i" for a
    unfolding attempt_answers_def t filter_filter
    using tried [OF that] stays [OF _ that(1) _ that(2)] by (intro filter_cong) auto
  have attempt: "attempt_ok ?d a" if "a \<in> set (db_attempts d)" "at_quiz a \<noteq> i" for a
    using bank_okD(10) [OF ok that(1)] unfolding attempt_ok_def quests [OF that(2)] answers [OF that] .
  have answer: "answer_ok ?d an" if "an \<in> set (db_answers ?d)" for an
  proof -
    have an: "an \<in> set (db_answers d)" using that by (simp add: t)
    obtain b y where own: "b \<in> set (db_attempts d)" "y \<in> set (db_questions d)" "at_id b = an_attempt an"
      "qu_id y = an_question an" "qu_quiz y = at_quiz b" "an_selected an \<in> op_key ` set (question_options d (qu_id y))"
      "an_correct an = (an_selected an = qu_correct y)"
      using bank_okD(11) [OF ok an] unfolding answer_ok_def by blast
    have "an_attempt an \<notin> past" using that by (simp add: t)
    then have "at_quiz b \<noteq> i" using own(1,3) unfolding past_def by force
    then show ?thesis
      unfolding answer_ok_def using own opts [OF own(2)] by (intro bexI [of _ b] bexI [of _ y]) (simp_all add: t)
  qed
  have "four_choices ?d q" if "q \<in> set (db_questions d)" "qu_quiz q \<noteq> i" for q
    using bank_okD(7) [OF ok that(1)] by (simp add: four_choices_def opts [OF that])
  moreover have "distinct (map slot (db_answers ?d))"
    using bank_okD(5) [OF ok] by (simp add: t distinct_map_filter)
  moreover have "op_question p \<in> qu_id ` set (db_questions ?d)" if "p \<in> set (db_options ?d)" for p
    using that bank_okD(8) [OF ok, of p] by (auto simp: t gone_def)
  ultimately show ?thesis
    using ok answer attempt unfolding bank_ok_def t(1,2,4)
    by (auto simp: keys_ok_filter keys_ok_del del_row_def t(5))
qed

section \<open>Answering and completing\<close>

lemma dict_set_new: "k \<notin> fst ` set m \<Longrightarrow> dict_set k v m = m @ [(k, v)]"
  by (induction k v m rule: dict_set.induct) auto

lemma answer_by_question_distinct:
  "distinct (map an_question as) \<Longrightarrow> answer_by_question as = map (\<lambda>a. (an_question a, a)) as"
proof (induction as rule: rev_induct)
  case (snoc a as)
  then show ?case by (simp add: answer_by_question_def dict_set_new image_comp comp_def)
qed (simp add: answer_by_question_def)

lemma distinct_attempt_answers:
  assumes "bank_ok d"
  shows "distinct (map an_question (attempt_answers d i))"
proof -
  have "distinct (map slot (attempt_answers d i))"
    using bank_okD(5) [OF assms] by (simp add: attempt_answers_def distinct_map_filter)
  then show ?thesis
    by (auto simp: distinct_map inj_on_def slot_def attempt_answers_def)
qed

lemma get_attempt_row_Inr: "get_attempt_row d i = Inr a \<Longrightarrow> a \<in> set (db_attempts d) \<and> at_id a = i"
  by (auto simp: get_attempt_row_def dest: find_row_Some split: option.splits)

lemma get_quiz_row_Inr: "get_quiz_row d i = Inr q \<Longrightarrow> q \<in> set (db_quizzes d) \<and> qr_id q = i"
  by (auto simp: get_quiz_row_def dest: find_row_Some split: option.splits)

lemma start_attempt_ok:
  assumes ok: "bank_ok d" and "unused su d"
  shows "bank_ok (snd (start_attempt su quiz_id d))"
proof (cases "get_quiz_row d quiz_id")
  case (Inr q)
  define a where "a = \<lparr>at_id = su_id su 0, at_quiz = qr_id q, at_status = ''in_progress'', at_score = None, at_weak = [],
    at_started = su_now su 0, at_completed = None\<rparr>"
  define d' where "d' = d\<lparr>db_attempts := db_attempts d @ [a]\<rparr>"
  have t: "db_quizzes d' = db_quizzes d" "db_questions d' = db_questions d" "db_options d' = db_options d"
    "db_answers d' = db_answers d" "db_attempts d' = db_attempts d @ [a]"
    by (simp_all add: d'_def)
  have "attempt_ok d' a" by (simp add: attempt_ok_def a_def)
  moreover have "answer_ok d' an" if "an \<in> set (db_answers d)" for an
    using bank_okD(11) [OF ok that] unfolding answer_ok_def t question_options_def by auto
  moreover have "keys_ok at_id (db_attempts d')"
    using bank_okD(3) [OF ok] unusedD(3) [OF assms(2), of 0] by (simp add: t keys_ok_def a_def)
  moreover have "at_quiz a \<in> qr_id ` set (db_quizzes d)"
    using get_quiz_row_Inr [OF Inr] by (auto simp: a_def)
  ultimately have "bank_ok d'"
    using bank_okD [OF ok] bank_frame(1,2) [of d' d] unfolding bank_ok_def t by simp
  then show ?thesis by (simp add: start_attempt_def Inr Let_def d'_def a_def)
qed (simp add: start_attempt_def ok)

lemma submit_answer_ok:
  assumes ok: "bank_ok d" and "unused su d"
  shows "bank_ok (snd (submit_answer su attempt_id question_id selected d))"
proof (cases "fst (submit_answer su attempt_id question_id selected d)")
  case (Inl f)
  then have "snd (submit_answer su attempt_id question_id selected d) = d"
    by (auto simp: submit_answer_def Let_def split: sum.splits prod.splits)
  then show ?thesis using ok by simp
next
  case (Inr reply)
  obtain a q where row: "get_attempt_row d attempt_id = Inr a" and running: "at_status a = ''in_progress''"
    and q: "find (\<lambda>q. qu_id q = question_id) (quiz_questions d (at_quiz a)) = Some q"
    and sel: "selected \<in> op_key ` set (question_options d (qu_id q))"
    using Inr by (auto simp: submit_answer_def bind_res_def Let_def split: sum.splits option.splits if_splits)
  define answer where "answer = (case recorded_answer d (at_id a) (qu_id q) of
     None \<Rightarrow> \<lparr>an_id = su_id su 0, an_attempt = at_id a, an_question = qu_id q, an_selected = selected,
       an_correct = (selected = qu_correct q), an_answered = su_now su 0\<rparr>
   | Some x \<Rightarrow> x\<lparr>an_selected := selected, an_correct := (selected = qu_correct q), an_answered := su_now su 0\<rparr>)"
  define d' where "d' = d\<lparr>db_answers := put_row an_id answer (db_answers d)\<rparr>"
  have result: "snd (submit_answer su attempt_id question_id selected d) = d'"
    using row running q sel by (simp add: submit_answer_def Let_def answer_def d'_def del: set_question_options)
  have a: "a \<in> set (db_attempts d)" using get_attempt_row_Inr [OF row] by simp
  have q': "q \<in> set (db_questions d)" "qu_quiz q = at_quiz a"
    using q by (auto simp: find_Some_iff dest!: nth_mem)
  have t: "db_quizzes d' = db_quizzes d" "db_questions d' = db_questions d" "db_options d' = db_options d"
    "db_attempts d' = db_attempts d" "db_answers d' = put_row an_id answer (db_answers d)"
    by (simp_all add: d'_def)
  have found: "x \<in> set (db_answers d)" "an_attempt x = at_id a" "an_question x = qu_id q"
    if "recorded_answer d (at_id a) (qu_id q) = Some x" for x
    using that by (auto simp: recorded_answer_def find_Some_iff dest!: nth_mem)
  have fields: "an_attempt answer = at_id a \<and> an_question answer = qu_id q \<and> an_selected answer = selected
      \<and> an_correct answer = (selected = qu_correct q)"
  proof (cases "recorded_answer d (at_id a) (qu_id q)")
    case (Some y)
    have "an_attempt y = at_id a" "an_question y = qu_id q" using found [OF Some] by auto
    then show ?thesis by (simp add: answer_def Some)
  qed (simp add: answer_def)
  then have fields': "slot answer = (at_id a, qu_id q)" by (simp add: slot_def)
  have same: "an_attempt x = at_id a" if "x \<in> set (db_answers d)" "an_id x = an_id answer" for x
  proof (cases "recorded_answer d (at_id a) (qu_id q)")
    case None
    then show ?thesis using that unusedD(4) [OF assms(2), of 0] by (simp add: answer_def) (metis imageI)
  next
    case (Some y)
    then have "x = y" using that found(1) [OF Some] keys_ok_inj [OF bank_okD(4) [OF ok], of x y] by (simp add: answer_def)
    then show ?thesis using found [OF Some] by simp
  qed
  have "distinct (map slot (db_answers d'))"
  proof (cases "recorded_answer d (at_id a) (qu_id q)")
    case None
    then have "(at_id a, qu_id q) \<notin> slot ` set (db_answers d)"
      by (auto simp: recorded_answer_def find_None_iff slot_def)
    moreover have "an_id answer \<notin> an_id ` set (db_answers d)"
      using None unusedD(4) [OF assms(2), of 0] by (simp add: answer_def)
    ultimately show ?thesis using bank_okD(5) [OF ok] fields' by (simp add: t put_row_new)
  next
    case (Some y)
    have "map slot (db_answers d') = map slot (db_answers d)"
      unfolding t using found [OF Some] fields'
      by (intro map_put_row [OF bank_okD(4) [OF ok] found(1) [OF Some]]) (simp_all add: answer_def Some slot_def)
    then show ?thesis using bank_okD(5) [OF ok] by simp
  qed
  moreover have "attempt_ok d' b" if b: "b \<in> set (db_attempts d)" for b
  proof (cases "b = a")
    case True
    then show ?thesis using bank_okD(10) [OF ok a] running by (simp add: attempt_ok_def)
  next
    case False
    then have "at_id b \<noteq> at_id a" using keys_ok_inj [OF bank_okD(3) [OF ok] b a] by blast
    then have "attempt_answers d' (at_id b) = attempt_answers d (at_id b)"
      unfolding attempt_answers_def t by (intro filter_put_row) (simp_all add: fields same)
    moreover have "quiz_questions d' (at_quiz b) = quiz_questions d (at_quiz b)" by (simp add: quiz_questions_def t)
    ultimately show ?thesis using bank_okD(10) [OF ok b] by (simp only: attempt_ok_def)
  qed
  moreover have "answer_ok d' answer"
    unfolding answer_ok_def t question_options_def
    using a q' sel fields by (intro bexI [of _ a] bexI [of _ q]) (auto simp: question_options_def)
  moreover have "answer_ok d' x" if "x \<in> set (db_answers d)" for x
    using bank_okD(11) [OF ok that] bank_frame(3) [of d' d x] by (simp add: t)
  ultimately have "bank_ok d'"
    using bank_okD [OF ok] bank_frame(1) [of d' d] set_put_row [of an_id answer "db_answers d"]
    unfolding bank_ok_def t by (auto simp: keys_ok_put)
  then show ?thesis using result by simp
qed

text \<open>A successful completion: every question answered, the row that is stored.\<close>

definition finished_row :: "draws \<Rightarrow> db \<Rightarrow> attempt_row \<Rightarrow> attempt_row" where
  "finished_row su d a =
     a\<lparr>at_score := Some (score_percent (length (filter an_correct (attempt_answers d (at_id a))))
         (length (quiz_questions d (at_quiz a)))),
       at_weak := topics_missed (answer_by_question (attempt_answers d (at_id a))) (quiz_questions d (at_quiz a)),
       at_status := ''completed'', at_completed := Some (su_now su 0)\<rparr>"

lemma complete_attempt_cases:
  assumes ok: "bank_ok d" and row: "get_attempt_row d i = Inr a" and running: "at_status a = ''in_progress''"
  shows "(\<exists>f. complete_attempt su i d = (Inl f, d)) \<or>
    (qu_id ` set (quiz_questions d (at_quiz a)) \<subseteq> an_question ` set (attempt_answers d (at_id a)) \<and>
     (let d' = d\<lparr>db_attempts := put_row at_id (finished_row su d a) (db_attempts d)\<rparr>
      in complete_attempt su i d = (Inr (attempt_out d' (finished_row su d a)), d')))"
proof -
  let ?m = "answer_by_question (attempt_answers d (at_id a))"
  have m: "?m = map (\<lambda>a. (an_question a, a)) (attempt_answers d (at_id a))"
    by (rule answer_by_question_distinct) (rule distinct_attempt_answers [OF ok])
  have snds: "map snd ?m = attempt_answers d (at_id a)" by (simp add: m comp_def)
  have known: "map_of ?m k = None \<longleftrightarrow> k \<notin> an_question ` set (attempt_answers d (at_id a))" for k
    by (simp add: m map_of_eq_None_iff image_comp comp_def)
  show ?thesis
  proof (cases "filter (\<lambda>k. map_of ?m k = None) (map qu_id (quiz_questions d (at_quiz a))) = []")
    case True
    then have "qu_id ` set (quiz_questions d (at_quiz a)) \<subseteq> an_question ` set (attempt_answers d (at_id a))"
      unfolding filter_empty_conv known by auto
    then show ?thesis
      using row running True by (simp add: complete_attempt_def Let_def finished_row_def snds del: set_quiz_questions)
  next
    case False
    then show ?thesis using row running by (simp add: complete_attempt_def Let_def)
  qed
qed

lemma complete_attempt_idle:
  "get_attempt_row d i = Inr a \<Longrightarrow> at_status a \<noteq> ''in_progress'' \<Longrightarrow> complete_attempt su i d = (Inr (attempt_out d a), d)"
  by (simp add: complete_attempt_def)

lemma finished_row_ok:
  assumes ok: "bank_ok d" and a: "a \<in> set (db_attempts d)"
    and every: "qu_id ` set (quiz_questions d (at_quiz a)) \<subseteq> an_question ` set (attempt_answers d (at_id a))"
  shows "bank_ok (d\<lparr>db_attempts := put_row at_id (finished_row su d a) (db_attempts d)\<rparr>)" (is "bank_ok ?d")
proof -
  let ?a = "finished_row su d a"
  have f: "at_id ?a = at_id a" "at_quiz ?a = at_quiz a" by (simp_all add: finished_row_def)
  have t: "db_quizzes ?d = db_quizzes d" "db_questions ?d = db_questions d" "db_options ?d = db_options d"
    "db_answers ?d = db_answers d" "db_attempts ?d = put_row at_id ?a (db_attempts d)"
    by simp_all
  have rows: "set (db_attempts ?d) = insert ?a {x \<in> set (db_attempts d). at_id x \<noteq> at_id a}"
    unfolding t set_put_row_eq [OF bank_okD(3) [OF ok]] f ..
  have "attempt_ok d ?a" using every by (simp add: attempt_ok_def finished_row_def)
  then have "attempt_ok ?d ?a" using bank_frame(2) [of ?d d ?a] by simp
  moreover have "attempt_ok ?d x" if "x \<in> set (db_attempts d)" for x
    using bank_okD(10) [OF ok that] bank_frame(2) [of ?d d x] by simp
  moreover have "answer_ok ?d an" if an: "an \<in> set (db_answers d)" for an
  proof -
    obtain b y where own: "b \<in> set (db_attempts d)" "y \<in> set (db_questions d)" "at_id b = an_attempt an"
      "qu_id y = an_question an" "qu_quiz y = at_quiz b" "an_selected an \<in> op_key ` set (question_options d (qu_id y))"
      "an_correct an = (an_selected an = qu_correct y)"
      using bank_okD(11) [OF ok an] unfolding answer_ok_def by blast
    define c where "c = (if at_id b = at_id a then ?a else b)"
    have "b = a" if "at_id b = at_id a" using keys_ok_inj [OF bank_okD(3) [OF ok] own(1) a that] .
    then have "c \<in> set (db_attempts ?d)" "at_id c = at_id b" "at_quiz c = at_quiz b"
      unfolding rows using own(1) f by (auto simp: c_def)
    then show ?thesis
      unfolding answer_ok_def t(2) question_options_def t(3)
      using own by (intro bexI [of _ c] bexI [of _ y]) (simp_all add: question_options_def)
  qed
  ultimately show ?thesis
    using bank_okD [OF ok] a f(2) bank_frame(1) [of ?d d]
    unfolding bank_ok_def rows t(1-4) by (auto simp: keys_ok_put t(5))
qed

lemma complete_attempt_ok:
  assumes ok: "bank_ok d"
  shows "bank_ok (snd (complete_attempt su i d))"
proof (cases "get_attempt_row d i")
  case (Inr a)
  show ?thesis
  proof (cases "at_status a = ''in_progress''")
    case True
    show ?thesis
      using complete_attempt_cases [OF ok Inr True, of su] finished_row_ok [OF ok] get_attempt_row_Inr [OF Inr] ok
      by (auto simp: Let_def simp del: set_quiz_questions)
  qed (simp add: complete_attempt_idle [OF Inr] ok)
qed (simp add: complete_attempt_def ok)

section \<open>Operations that leave quizzes alone\<close>

lemma endpoint_bank [simp]:
  "bank (snd (put_semester su p1 d)) = bank d"
  "bank (snd (create_course su p2 d)) = bank d"
  "bank (snd (update_course su i p3 d)) = bank d"
  "bank (snd (delete_course i d)) = bank d"
  "bank (fst (snd (upload_document cfg su i c file d fs))) = bank d"
  "bank (snd (retry_document su i d)) = bank d"
  "bank (snd (create_task su p4 d)) = bank d"
  "bank (snd (update_task su i p5 d)) = bank d"
  "bank (snd (delete_task i d)) = bank d"
  "bank (snd (update_notification su i p6 d)) = bank d"
  "bank (read_all_notifications now d) = bank d"
  "bank (settle_document su i s e d) = bank d"
  "bank (settle_ready su i d) = bank d"
  "bank (d\<lparr>db_documents := docs\<rparr>) = bank d"
  by (simp_all add: put_semester_def create_course_def update_course_def delete_course_def upload_document_def
      retry_document_def create_task_def update_task_def delete_task_def update_notification_def
      read_all_notifications_def settle_document_def settle_ready_def save_document_def save_task_def bank_def Let_def
      split: sum.splits option.splits prod.splits)

section \<open>The database over time\<close>

text \<open>
  One step is one operation of the API or one event of a supervisor's stream; \<open>event_left\<close> is the
  document ingest committing what a refused event left in its session.
\<close>

inductive api_step :: "db \<Rightarrow> db \<Rightarrow> bool" where
  event_applied: "unused su d \<Longrightarrow> apply_event digest su e st d = Done st' d' \<Longrightarrow> api_step d d'"
| event_left: "unused su d \<Longrightarrow> apply_event digest su e st d = Failed f d' (Some left) \<Longrightarrow> api_step d left"
| document_settled: "api_step d (settle_document su i s e d)"
| document_ready: "api_step d (settle_ready su i d)"
| document_deleted: "api_step d (d\<lparr>db_documents := del_row do_id i (db_documents d)\<rparr>)"
| document_uploaded: "api_step d (fst (snd (upload_document cfg su i c file d fs)))"
| document_retried: "api_step d (snd (retry_document su i d))"
| semester_put: "api_step d (snd (put_semester su p d))"
| course_created: "api_step d (snd (create_course su p d))"
| course_updated: "api_step d (snd (update_course su i p d))"
| course_deleted: "api_step d (snd (delete_course i d))"
| task_created: "api_step d (snd (create_task su p d))"
| task_updated: "api_step d (snd (update_task su i p d))"
| task_deleted: "api_step d (snd (delete_task i d))"
| quiz_deleted: "api_step d (snd (delete_quiz i d))"
| attempt_started: "unused su d \<Longrightarrow> api_step d (snd (start_attempt su i d))"
| answer_submitted: "unused su d \<Longrightarrow> api_step d (snd (submit_answer su i q selected d))"
| attempt_completed: "api_step d (snd (complete_attempt su i d))"
| notification_updated: "api_step d (snd (update_notification su i p d))"
| notifications_read: "api_step d (read_all_notifications now d)"

definition empty_db :: db where
  "empty_db = \<lparr>db_semesters = [], db_courses = [], db_documents = [], db_tasks = [], db_quizzes = [], db_questions = [],
     db_options = [], db_attempts = [], db_answers = [], db_notifications = []\<rparr>"

lemma bank_ok_empty: "bank_ok empty_db"
  by (simp add: bank_ok_def empty_db_def keys_ok_def)

lemma delete_quiz_ok: "bank_ok d \<Longrightarrow> bank_ok (snd (delete_quiz i d))"
  by (simp add: delete_quiz_def cascade_ok split: sum.splits)

lemma api_step_ok: "api_step d d' \<Longrightarrow> bank_ok d \<Longrightarrow> bank_ok d'"
  by (induction rule: api_step.induct)
    (auto simp: bank_ok_same [OF endpoint_bank(1)] bank_ok_same [OF endpoint_bank(2)] bank_ok_same [OF endpoint_bank(3)]
      bank_ok_same [OF endpoint_bank(4)] bank_ok_same [OF endpoint_bank(5)] bank_ok_same [OF endpoint_bank(6)]
      bank_ok_same [OF endpoint_bank(7)] bank_ok_same [OF endpoint_bank(8)] bank_ok_same [OF endpoint_bank(9)]
      bank_ok_same [OF endpoint_bank(10)] bank_ok_same [OF endpoint_bank(11)] bank_ok_same [OF endpoint_bank(12)]
      bank_ok_same [OF endpoint_bank(13)] bank_ok_same [OF endpoint_bank(14)]
      intro: apply_event_ok delete_quiz_ok start_attempt_ok submit_answer_ok complete_attempt_ok)

lemma api_steps_ok: "api_step\<^sup>*\<^sup>* d d' \<Longrightarrow> bank_ok d \<Longrightarrow> bank_ok d'"
  by (induction rule: rtranclp_induct) (auto intro: api_step_ok)

subsection \<open>Streams of events\<close>

definition fresh_feed :: "(nat \<Rightarrow> draws) \<Rightarrow> nat \<Rightarrow> db \<Rightarrow> bool" where
  "fresh_feed feed n d \<longleftrightarrow>
     (\<forall>m \<ge> n. unused (feed m) d) \<and> (\<forall>m k. m \<noteq> k \<longrightarrow> range (su_id (feed m)) \<inter> range (su_id (feed k)) = {})"

lemma store_questions_ids:
  "store_questions su quiz_id n elements d = Inr d' \<Longrightarrow> bank_ids d' \<subseteq> bank_ids d \<union> range (su_id su)"
proof (induction elements arbitrary: n d)
  case (Cons element rest)
  obtain question options where e: "question_options_of element = Inr (question, options)"
    using Cons.prems by (auto simp: bind_res_Inr)
  let ?d = "d\<lparr>db_questions := db_questions d @ [question_row_of (su_id su (1 + 5 * n)) quiz_id n question],
    db_options := db_options d @ option_rows_of (\<lambda>i. su_id su (2 + 5 * n + i)) (su_id su (1 + 5 * n)) options\<rparr>"
  have "bank_ids d' \<subseteq> bank_ids ?d \<union> range (su_id su)"
    using Cons.prems by (intro Cons.IH [of "n + 1"]) (simp add: e Let_def)
  moreover have "bank_ids ?d \<subseteq> bank_ids d \<union> range (su_id su)"
    by (auto simp: bank_ids_def question_row_of_def)
  ultimately show ?case by blast
qed simp

lemma quiz_create_stored:
  assumes "quiz_create su data st d = Done st' d'"
  shows "\<exists>elements q. store_questions su (qr_id q) 0 elements (d\<lparr>db_quizzes := db_quizzes d @ [q]\<rparr>) = Inr d'
    \<and> qr_id q \<in> range (su_id su)"
proof -
  have "\<exists>elements cs. store_questions su (su_id su 0) 0 elements (d\<lparr>db_quizzes := db_quizzes d @
     [\<lparr>qr_id = su_id su 0, qr_course = text_column (vget data ''course_id''),
       qr_title = py_str (vget_default data ''title'' (VStr ''Practice quiz'')),
       qr_collections = cs, qr_created = su_now su 0\<rparr>]\<rparr>) = Inr d'"
    using assms by (auto simp: quiz_create_def Let_def split: if_splits sum.splits)
  then show ?thesis by (metis quiz_row.select_convs(1) rangeI)
qed

lemma bank_ids_same: "bank d' = bank d \<Longrightarrow> bank_ids d' = bank_ids d"
  by (simp add: bank_def bank_ids_def)

lemma apply_event_ids:
  assumes "apply_event digest su e st d = Done st' d'"
  shows "bank_ids d' \<subseteq> bank_ids d \<union> range (su_id su)"
proof (cases "se_kind e = ''quiz_create''")
  case True
  then have "quiz_create su (se_data e) st d = Done st' d'"
    using assms by (simp add: apply_event_def)
  then obtain elements q where stored: "store_questions su (qr_id q) 0 elements (d\<lparr>db_quizzes := db_quizzes d @ [q]\<rparr>) = Inr d'"
    "qr_id q \<in> range (su_id su)"
    using quiz_create_stored by blast
  moreover have "bank_ids (d\<lparr>db_quizzes := db_quizzes d @ [q]\<rparr>) \<subseteq> bank_ids d \<union> range (su_id su)"
    using stored(2) by (auto simp: bank_ids_def)
  ultimately show ?thesis using store_questions_ids by blast
next
  case False
  then have "bank d' = bank d"
    using assms event_bank(1,3,5,7) by (auto simp: apply_event_def Let_def split: if_splits)
  then show ?thesis by (simp add: bank_ids_same [of d' d])
qed

lemma fresh_feed_next:
  assumes "fresh_feed feed n d" and "bank_ids d' \<subseteq> bank_ids d \<union> range (su_id (feed n))"
  shows "fresh_feed feed (n + 1) d'"
  unfolding fresh_feed_def
proof (intro conjI allI impI)
  fix m assume m: "n + 1 \<le> m"
  then have now: "unused (feed m) d" "range (su_id (feed m)) \<inter> range (su_id (feed n)) = {}"
    using assms(1) unfolding fresh_feed_def by auto
  have "range (su_id (feed m)) \<inter> bank_ids d' \<subseteq> range (su_id (feed m)) \<inter> (bank_ids d \<union> range (su_id (feed n)))"
    by (rule Int_mono [OF subset_refl assms(2)])
  also have "\<dots> = {}" using now by (simp add: Int_Un_distrib unused_def)
  finally show "unused (feed m) d'" using now(1) by (simp add: unused_def)
qed (use assms(1) in \<open>auto simp: fresh_feed_def\<close>)

lemma apply_event_failed: "apply_event digest su e st d = Failed f d' left \<Longrightarrow> d' = d"
  by (auto simp: apply_event_def document_status_def task_upsert_def task_delete_def quiz_create_def
      notification_create_def Let_def split: option.splits if_splits sum.splits bool.splits)

definition stepwise :: "db \<Rightarrow> 'a outcome \<Rightarrow> bool" where
  \<comment> \<open>what a request commits, now or later in its session, is reached step by step\<close>
  "stepwise d r =
     (case r of
        Done _ d' \<Rightarrow> api_step\<^sup>*\<^sup>* d d'
      | Failed _ d' left \<Rightarrow> api_step\<^sup>*\<^sup>* d d' \<and> (\<forall>l. left = Some l \<longrightarrow> api_step\<^sup>*\<^sup>* d l))"

lemma stepwise_before:
  assumes "api_step d d1" and "stepwise d1 r"
  shows "stepwise d r"
  using assms(2) converse_rtranclp_into_rtranclp [of api_step, OF assms(1)] by (auto simp: stepwise_def split: outcome.splits)

lemma apply_event_stepwise: "unused su d \<Longrightarrow> stepwise d (apply_event digest su e st d)"
  by (cases "apply_event digest su e st d")
    (auto simp: stepwise_def dest: apply_event_failed intro: event_applied event_left)

lemma consume_events_stepwise:
  "fresh_feed feed n d \<Longrightarrow> stepwise d (consume_events digest ty document feed n raws st d)"
proof (induction raws arbitrary: n st d)
  case (Cons raw rest)
  have new: "unused (feed n) d" using Cons.prems by (simp add: fresh_feed_def)
  show ?case
  proof (cases "coerce_event raw")
    case (Inr event)
    then obtain st0 where e: "consume_event digest ty document (feed n) raw st d = apply_event digest (feed n) event st0 d"
      by (simp add: consume_event_def)
    show ?thesis
    proof (cases "apply_event digest (feed n) event st0 d")
      case (Done st1 d1)
      then have "fresh_feed feed (n + 1) d1" using fresh_feed_next [OF Cons.prems] apply_event_ids by blast
      then have "stepwise d1 (consume_events digest ty document feed (n + 1) rest st1 d1)" by (rule Cons.IH)
      then show ?thesis using stepwise_before [OF event_applied [OF new Done]] by (simp add: e Done)
    next
      case (Failed f d1 left)
      then show ?thesis using apply_event_stepwise [OF new, of digest event st0] by (simp add: e)
    qed
  qed (simp add: consume_event_def stepwise_def)
qed (simp add: stepwise_def)

lemma consume_supervisor_stepwise:
  assumes "fresh_feed feed 0 d"
  shows "stepwise d (consume_supervisor digest ty document feed s st d)"
  using consume_events_stepwise [OF assms, of digest ty document "st_events s" st]
  by (auto simp: consume_supervisor_def stepwise_def split: outcome.splits option.splits)

lemma ingest_steps:
  assumes "fresh_feed feed 0 d"
  shows "api_step\<^sup>*\<^sup>* d (snd (process_document_ingest digest index_course deliver feed su i d))"
proof (cases "find_row do_id i (db_documents d)")
  case (Some r)
  have "stepwise d (consume_supervisor digest ''document_ingest'' (ingest_payload r) feed (deliver (ingest_payload r))
      (new_chat_state (VStr i)) d)"
    by (rule consume_supervisor_stepwise [OF assms])
  then show ?thesis
    by (auto simp: process_document_ingest_def Some Let_def stepwise_def split: outcome.splits option.splits
        intro: document_settled document_ready rtranclp.rtrancl_into_rtrancl)
qed (simp add: process_document_ingest_def)

lemma stream_events_stepwise:
  "fresh_feed feed n d \<Longrightarrow> stepwise d (snd (stream_events digest feed completion_id now n raws raised st d))"
proof (induction raws arbitrary: n st d)
  case (Cons raw rest)
  have new: "unused (feed n) d" using Cons.prems by (simp add: fresh_feed_def)
  show ?case
  proof (cases "coerce_event raw")
    case (Inr event)
    show ?thesis
    proof (cases "apply_event digest (feed n) event st d")
      case (Done st1 d1)
      then have "fresh_feed feed (n + 1) d1" using fresh_feed_next [OF Cons.prems] apply_event_ids by blast
      then have "stepwise d1 (snd (stream_events digest feed completion_id now (n + 1) rest raised st1 d1))" by (rule Cons.IH)
      then show ?thesis using stepwise_before [OF event_applied [OF new Done]] by (simp add: Inr Done)
    next
      case (Failed f d1 left)
      then show ?thesis using apply_event_stepwise [OF new, of digest event st] by (simp add: Inr)
    qed
  qed (simp add: stepwise_def)
qed (simp add: stepwise_def split: option.splits)

lemma chat_steps:
  assumes "fresh_feed feed 0 d"
  shows "api_step\<^sup>*\<^sup>* d (snd (chat_completions digest slide_count deliver feed completion_id now request_id h payload d))"
proof (cases "chat_request slide_count request_id h payload d")
  case (Inr request)
  have "stepwise d (consume_supervisor digest ''chat'' [] feed (deliver request) (new_chat_state VNone) d)"
    "stepwise d (snd (stream_events digest feed completion_id now 0 (st_events (deliver request)) (st_raises (deliver request))
       (new_chat_state VNone) d))"
    by (rule consume_supervisor_stepwise [OF assms], rule stream_events_stepwise [OF assms])
  then show ?thesis
    by (auto simp: chat_completions_def Inr stream_response_def stepwise_def Let_def split: outcome.splits prod.splits)
qed (simp add: chat_completions_def)

end
