(* ===== verification/ApiProperties.thy ===== *)
theory ApiProperties
  imports QuizBank
begin

text \<open>
  The properties of the API: the invariant of the quiz tables over any sequence of requests and events,
  the score and finality of a completed attempt, what an unfinished attempt shows, the task table as a
  map, and what becomes of a document that is being processed.
\<close>

section \<open>Scores\<close>

lemma score_percent_bounds:
  assumes "c \<le> n"
  shows "0 \<le> score_percent c n" "score_percent c n \<le> 100"
proof -
  have "0 \<le> fround 2 (fmul (fdiv_int (int c) (int n)) 100) \<and> fround 2 (fmul (fdiv_int (int c) (int n)) 100) \<le> 100" if "0 < n"
  proof -
    have q: "0 \<le> fdiv_int (int c) (int n)" "fdiv_int (int c) (int n) \<le> 1"
      using assms that fl64_le_of_int [of "of_nat c / of_nat n" 1] by (simp_all add: fdiv_int_def fl64_nonneg)
    then have "0 \<le> fmul (fdiv_int (int c) (int n)) 100" "fmul (fdiv_int (int c) (int n)) 100 \<le> 100"
      using fl64_le_of_int [of "fdiv_int (int c) (int n) * 100" 100] by (simp_all add: fmul_def fl64_nonneg)
    then show ?thesis
      using fround_mono [of 0 "fmul (fdiv_int (int c) (int n)) 100" 2] fround_mono [of "fmul (fdiv_int (int c) (int n)) 100" 100 2]
        fround_of_int [of 0 2] fround_of_int [of 100 2] by simp
  qed
  then show "0 \<le> score_percent c n" "score_percent c n \<le> 100"
    by (auto simp: score_percent_def)
qed

lemma score_percent_mono:
  assumes "c \<le> c'" "c' \<le> n"
  shows "score_percent c n \<le> score_percent c' n"
proof (cases "n = 0")
  case False
  have "fdiv_int (int c) (int n) \<le> fdiv_int (int c') (int n)"
    using assms False unfolding fdiv_int_def by (intro fl64_mono divide_right_mono) simp_all
  then have "fmul (fdiv_int (int c) (int n)) 100 \<le> fmul (fdiv_int (int c') (int n)) 100"
    unfolding fmul_def by (intro fl64_mono mult_right_mono) simp_all
  then show ?thesis using False by (simp add: score_percent_def fround_mono)
qed (simp add: score_percent_def)

lemma score_percent_all: "0 < n \<Longrightarrow> score_percent n n = 100"
proof -
  assume "0 < n"
  then have "fdiv_int (int n) (int n) = 1" using fl64_of_int [of 1] by (simp add: fdiv_int_def)
  moreover have "fmul 1 100 = 100" using fl64_of_int [of 100] by (simp add: fmul_def)
  ultimately show ?thesis using \<open>0 < n\<close> fround_of_int [of 100 2] by (simp add: score_percent_def)
qed

text \<open>The questions an attempt has answered with the key's option.\<close>

definition answered_right :: "db \<Rightarrow> string \<Rightarrow> question_row \<Rightarrow> bool" where
  "answered_right d i q \<longleftrightarrow> list_ex (\<lambda>an. an_question an = qu_id q \<and> an_selected an = qu_correct q) (attempt_answers d i)"

lemma correct_answers_count:
  assumes ok: "bank_ok d" and a: "a \<in> set (db_attempts d)"
    and every: "qu_id ` set (quiz_questions d (at_quiz a)) \<subseteq> an_question ` set (attempt_answers d (at_id a))"
  shows "length (filter an_correct (attempt_answers d (at_id a))) =
    length (filter (answered_right d (at_id a)) (quiz_questions d (at_quiz a)))"
proof -
  let ?as = "filter an_correct (attempt_answers d (at_id a))"
  let ?qs = "filter (answered_right d (at_id a)) (quiz_questions d (at_quiz a))"
  have owner: "\<exists>q \<in> set (quiz_questions d (at_quiz a)). qu_id q = an_question an \<and> an_correct an = (an_selected an = qu_correct q)"
    if an: "an \<in> set (attempt_answers d (at_id a))" for an
  proof -
    have m: "an \<in> set (db_answers d)" "an_attempt an = at_id a" using an by (auto simp: attempt_answers_def)
    obtain y where y: "y \<in> set (db_questions d)" "qu_id y = an_question an"
      using bank_okD(11) [OF ok m(1)] unfolding answer_ok_def by blast
    show ?thesis using answer_owner [OF ok m(1) a m(2) y] y by (intro bexI [of _ y]) auto
  qed
  have "an_question ` set ?as = qu_id ` set ?qs"
  proof (intro equalityI subsetI)
    fix k assume "k \<in> an_question ` set ?as"
    then obtain an where an: "an \<in> set (attempt_answers d (at_id a))" "an_correct an" "k = an_question an" by auto
    obtain q where q: "q \<in> set (quiz_questions d (at_quiz a))" "qu_id q = an_question an" "an_selected an = qu_correct q"
      using owner [OF an(1)] an(2) by blast
    have "answered_right d (at_id a) q" unfolding answered_right_def list_ex_iff using an(1) q(2,3) by auto
    then have "q \<in> set ?qs" using q(1) by simp
    then show "k \<in> qu_id ` set ?qs" using an(3) q(2) by (metis imageI)
  next
    fix k assume "k \<in> qu_id ` set ?qs"
    then obtain q where q: "q \<in> set (quiz_questions d (at_quiz a))" "answered_right d (at_id a) q" "k = qu_id q" by auto
    then obtain an where an: "an \<in> set (attempt_answers d (at_id a))" "an_question an = qu_id q" "an_selected an = qu_correct q"
      unfolding answered_right_def list_ex_iff by blast
    obtain p where p: "p \<in> set (quiz_questions d (at_quiz a))" "qu_id p = an_question an"
      "an_correct an = (an_selected an = qu_correct p)"
      using owner [OF an(1)] by blast
    have "p = q" using keys_ok_inj [OF bank_okD(2) [OF ok], of p q] p q(1) an(2) by simp
    then show "k \<in> an_question ` set ?as" using an p(3) q(3) by force
  qed
  moreover have "distinct (map an_question ?as)"
    using distinct_attempt_answers [OF ok, of "at_id a"] by (simp add: distinct_map_filter)
  moreover have "distinct (map qu_id ?qs)"
    using bank_okD(2) [OF ok] by (simp add: keys_ok_def quiz_questions_def distinct_map inj_on_def)
  ultimately show ?thesis
    by (metis distinct_card length_map set_map)
qed

section \<open>An example database\<close>

definition example_draws :: "string \<Rightarrow> draws" where
  "example_draws p = \<lparr>su_id = (\<lambda>n. p @ nat_str n), su_now = (\<lambda>n. int n)\<rparr>"

definition example_option :: "string \<Rightarrow> pyval" where
  "example_option k = VDict [(''option_id'', VStr k), (''text'', VStr (''Option '' @ k))]"

definition example_quiz_event :: sup_event where
  "example_quiz_event = event_of ''quiz_create''
     [(''title'', VStr ''Heaps''), (''source_collections'', VList [VStr ''slides'']),
      (''questions'', VList [VDict [(''prompt'', VStr ''What is a heap?''), (''topic'', VStr ''Heaps''),
         (''options'', VList [example_option ''A'', example_option ''B'', example_option ''C'', example_option ''D'']),
         (''correct_option_id'', VStr ''B'')]])]"

definition example_db :: db where
  \<comment> \<open>the database after \<open>example_quiz_event\<close>\<close>
  "example_db = empty_db\<lparr>
     db_quizzes := [\<lparr>qr_id = ''a0'', qr_course = None, qr_title = ''Heaps'', qr_collections = [''slides''], qr_created = 0\<rparr>],
     db_questions := [\<lparr>qu_id = ''a1'', qu_quiz = ''a0'', qu_prompt = ''What is a heap?'', qu_topic = Some ''Heaps'',
       qu_explanation = None, qu_correct = ''B'', qu_position = 0\<rparr>],
     db_options := [\<lparr>op_id = ''a2'', op_question = ''a1'', op_key = ''A'', op_text = ''Option A'', op_position = 0\<rparr>,
       \<lparr>op_id = ''a3'', op_question = ''a1'', op_key = ''B'', op_text = ''Option B'', op_position = 1\<rparr>,
       \<lparr>op_id = ''a4'', op_question = ''a1'', op_key = ''C'', op_text = ''Option C'', op_position = 2\<rparr>,
       \<lparr>op_id = ''a5'', op_question = ''a1'', op_key = ''D'', op_text = ''Option D'', op_position = 3\<rparr>]\<rparr>"

definition example_attempt :: attempt_row where
  "example_attempt = \<lparr>at_id = ''b0'', at_quiz = ''a0'', at_status = ''in_progress'', at_score = None, at_weak = [],
     at_started = 0, at_completed = None\<rparr>"

definition example_answer :: answer_row where
  "example_answer = \<lparr>an_id = ''c0'', an_attempt = ''b0'', an_question = ''a1'', an_selected = ''B'', an_correct = True,
     an_answered = 0\<rparr>"

definition answered_db :: db where
  "answered_db = example_db\<lparr>db_attempts := [example_attempt], db_answers := [example_answer]\<rparr>"

lemma example_unused:
  assumes "bank_ids d \<subseteq> {x. x \<noteq> [] \<and> hd x \<noteq> c}"
  shows "unused (example_draws [c]) d"
  using assms by (auto simp: unused_def example_draws_def inj_on_def nat_str_inj)

lemma example_quiz_stored:
  "apply_event id (example_draws ''a'') example_quiz_event (new_chat_state VNone) empty_db =
     Done ((new_chat_state VNone)\<lparr>cs_links := [(''Open quiz'', ''/quizzes/a0'')]\<rparr>) example_db"
  by code_simp

lemma example_started: "snd (start_attempt (example_draws ''b'') ''a0'' example_db) = example_db\<lparr>db_attempts := [example_attempt]\<rparr>"
  by code_simp

lemma example_submitted:
  "snd (submit_answer (example_draws ''c'') ''b0'' ''a1'' ''B'' (example_db\<lparr>db_attempts := [example_attempt]\<rparr>)) = answered_db"
  by code_simp

lemma example_steps: "api_step\<^sup>*\<^sup>* empty_db answered_db"
proof -
  have "api_step empty_db example_db"
    by (rule event_applied [OF example_unused example_quiz_stored]) (simp add: bank_ids_def empty_db_def)
  moreover have "unused (example_draws ''b'') example_db"
    by (rule example_unused) (simp add: bank_ids_def example_db_def empty_db_def)
  then have "api_step example_db (example_db\<lparr>db_attempts := [example_attempt]\<rparr>)"
    using attempt_started example_started by metis
  moreover have "unused (example_draws ''c'') (example_db\<lparr>db_attempts := [example_attempt]\<rparr>)"
    by (rule example_unused) (simp add: bank_ids_def example_db_def empty_db_def example_attempt_def)
  then have "api_step (example_db\<lparr>db_attempts := [example_attempt]\<rparr>) answered_db"
    using answer_submitted example_submitted by metis
  ultimately show ?thesis
    by (meson rtranclp.rtrancl_refl rtranclp.rtrancl_into_rtrancl)
qed

section \<open>Quizzes and attempts\<close>

text \<open>C2 (type): whatever sequence of API requests and supervisor events is run on an empty database, the quiz
  tables stay well-formed: four distinct options with the key among them, answers of the attempt's own quiz marked
  by the key, completed attempts fully answered and scored.\<close>

theorem quiz_tables_stay_well_formed:
  assumes "api_step\<^sup>*\<^sup>* empty_db d"
  shows "bank_ok d"
  using assms bank_ok_empty by (rule api_steps_ok)

theorem quiz_tables_stay_well_formed_witness:
  "bank_ok answered_db \<and> map an_correct (db_answers answered_db) = [True]"
  using quiz_tables_stay_well_formed [OF example_steps] by (simp add: answered_db_def example_answer_def)

text \<open>C6 (functional): completing a running attempt stores, for good, the percentage of questions whose recorded option
  is the key's: a score from 0 to 100 that neither a later answer nor a second completion changes.\<close>

theorem completion_scores_for_good:
  assumes ok: "bank_ok d" and row: "get_attempt_row d i = Inr a" and running: "at_status a = ''in_progress''"
    and complete: "complete_attempt su i d = (Inr out, d')"
  shows "\<exists>b s. get_attempt_row d' i = Inr b \<and> at_status b = ''completed'' \<and> at_score b = Some s
      \<and> s = score_percent (length (filter (answered_right d i) (quiz_questions d (at_quiz a)))) (length (quiz_questions d (at_quiz a)))
      \<and> 0 \<le> s \<and> s \<le> 100
      \<and> snd (submit_answer su' i q selected d') = d' \<and> complete_attempt su' i d' = (Inr out, d')"
proof -
  have a: "a \<in> set (db_attempts d)" "at_id a = i" using get_attempt_row_Inr [OF row] by auto
  let ?b = "finished_row su d a"
  have every: "qu_id ` set (quiz_questions d (at_quiz a)) \<subseteq> an_question ` set (attempt_answers d (at_id a))"
    and result: "d' = d\<lparr>db_attempts := put_row at_id ?b (db_attempts d)\<rparr>" "out = attempt_out d' ?b"
    using complete_attempt_cases [OF ok row running, of su] complete by (auto simp: Let_def simp del: set_quiz_questions)
  let ?s = "score_percent (length (filter (answered_right d i) (quiz_questions d (at_quiz a)))) (length (quiz_questions d (at_quiz a)))"
  have b: "at_id ?b = i" "at_status ?b = ''completed''" "at_score ?b = Some ?s"
    using a correct_answers_count [OF ok a(1) every] by (simp_all add: finished_row_def)
  have stored: "get_attempt_row d' i = Inr ?b"
    unfolding get_attempt_row_def result(1) using b(1) by (simp add: find_put_row)
  moreover have "snd (submit_answer su' i q selected d') = d'"
    using stored b(2) by (simp add: submit_answer_def)
  moreover have "complete_attempt su' i d' = (Inr out, d')"
    using stored b(2) result(2) by (simp add: complete_attempt_idle)
  ultimately show ?thesis
    using b score_percent_bounds [of "length (filter (answered_right d i) (quiz_questions d (at_quiz a)))"
        "length (quiz_questions d (at_quiz a))"] by simp
qed

lemma answered_completes:
  "get_attempt_row answered_db ''b0'' = Inr example_attempt"
  "\<exists>out d'. complete_attempt (example_draws ''e'') ''b0'' answered_db = (Inr out, d')"
proof -
  show row: "get_attempt_row answered_db ''b0'' = Inr example_attempt" by code_simp
  have "filter (\<lambda>k. map_of (answer_by_question (attempt_answers answered_db ''b0'')) k = None)
      (map qu_id (quiz_questions answered_db ''a0'')) = []"
    by code_simp
  then show "\<exists>out d'. complete_attempt (example_draws ''e'') ''b0'' answered_db = (Inr out, d')"
    by (simp add: complete_attempt_def row Let_def example_attempt_def)
qed

theorem completion_scores_for_good_witness:
  "\<exists>b. get_attempt_row (snd (complete_attempt (example_draws ''e'') ''b0'' answered_db)) ''b0'' = Inr b
     \<and> at_status b = ''completed'' \<and> at_score b = Some 100"
proof -
  obtain out d' where c: "complete_attempt (example_draws ''e'') ''b0'' answered_db = (Inr out, d')"
    using answered_completes(2) by blast
  have "length (quiz_questions answered_db ''a0'') = 1"
    "length (filter (answered_right answered_db ''b0'') (quiz_questions answered_db ''a0'')) = 1"
    by code_simp+
  then show ?thesis
    using completion_scores_for_good [OF api_steps_ok [OF example_steps bank_ok_empty] answered_completes(1) _ c,
        of "example_draws ''f''" "[]" "[]"]
    by (auto simp: c example_attempt_def score_percent_all)
qed

definition rekeyed :: "(question_row \<Rightarrow> string) \<Rightarrow> (question_row \<Rightarrow> string option) \<Rightarrow> question_row \<Rightarrow> question_row" where
  "rekeyed f g q = q\<lparr>qu_correct := f q, qu_explanation := g q\<rparr>"

definition rekey_db :: "(question_row \<Rightarrow> string) \<Rightarrow> (question_row \<Rightarrow> string option) \<Rightarrow> db \<Rightarrow> db" where
  "rekey_db f g d = d\<lparr>db_questions := map (rekeyed f g) (db_questions d)\<rparr>"

lemma sort_key_map: "sort_key f (map h xs) = map h (sort_key (\<lambda>x. f (h x)) xs)"
proof -
  have "insort_key f (h x) (map h ys) = map h (insort_key (\<lambda>x. f (h x)) x ys)" for x ys
    by (induction ys) auto
  then show ?thesis by (induction xs) auto
qed

lemma rekey_db_questions: "quiz_questions (rekey_db f g d) i = map (rekeyed f g) (quiz_questions d i)"
  by (simp add: quiz_questions_def rekey_db_def filter_map comp_def sort_key_map rekeyed_def)

lemma rekey_db_public: "question_public (rekey_db f g d) False (rekeyed f g q) = question_public d False q"
  by (simp add: question_public_def question_options_def rekey_db_def rekeyed_def)

lemma rekey_db_rows:
  "get_quiz_row (rekey_db f g d) i = get_quiz_row d i" "get_attempt_row (rekey_db f g d) i = get_attempt_row d i"
  "quiz_list_item (rekey_db f g d) q = quiz_list_item d q"
  by (simp_all add: get_quiz_row_def get_attempt_row_def quiz_list_item_def completed_scores_def rekey_db_questions)
    (simp_all add: rekey_db_def)



section \<open>Documents\<close>

definition gateway_stream :: "services \<Rightarrow> gateway \<Rightarrow> request \<Rightarrow> stream" where
  \<comment> \<open>the workflow as the supervisor of the API: it yields all its events or raises before the first\<close>
  "gateway_stream svc gw request =
     (case fst (handle svc gw request) of
        Inl e \<Rightarrow> \<lparr>st_events = [], st_raises = Some e\<rparr>
      | Inr events \<Rightarrow> \<lparr>st_events = map Supervisor_event events, st_raises = None\<rparr>)"

definition ingest_request :: "string \<Rightarrow> pydict \<Rightarrow> request" where
  "ingest_request request_id payload =
     \<lparr>rq_type = ''document_ingest'', rq_id = request_id, rq_messages = [], rq_context = [], rq_document = payload,
      rq_snapshot = []\<rparr>"

lemma run_graph_node:
  "n \<noteq> End \<Longrightarrow> n \<noteq> Approval \<Longrightarrow> run_node svc n st = Inr st' \<Longrightarrow> run_graph svc n st = run_graph svc (edge n st') st'"
  by (subst run_graph.simps) simp

lemma ingest_events:
  "\<exists>text. fst (handle svc gw (ingest_request request_id payload)) =
     Inr [text_event text, event_of ''document_status'' [(''document_id'', vget payload ''id''), (''status'', VStr ''ready'')]]"
proof -
  let ?rq = "ingest_request request_id payload"
  let ?st = "fresh_state ?rq [] False []"
  let ?st1 = "?st\<lparr>w_checked := True, w_understood := True\<rparr>"
  let ?st2 = "?st1\<lparr>w_route := ''document''\<rparr>"
  let ?st3 = "document_node ?st2"
  have nodes: "run_node svc Communication ?st = Inr ?st1" "run_node svc Supervisor ?st1 = Inr ?st2"
    "run_node svc Document ?st2 = Inr ?st3"
    by (simp_all add: run_node_def communication_node_def supervisor_node_def fresh_state_def ingest_request_def)
  have edges: "edge Communication ?st1 = Supervisor" "edge Supervisor ?st2 = Document" "edge Document ?st3 = End"
    by (simp_all add: edge_def routed_def)
  have run: "run_graph svc Communication ?st = Inr (?st3, False)"
    using run_graph_node [OF _ _ nodes(1)] run_graph_node [OF _ _ nodes(2)] run_graph_node [OF _ _ nodes(3)]
    by (simp add: edges run_graph.simps [of svc End])
  have start: "handle svc gw ?rq = emit gw (thread_of ?rq) (graph_thread ?rq) (run_graph svc Communication ?st)"
    by (simp add: handle_def ingest_request_def state_dict_def)
  show ?thesis
    unfolding start run emit_def
    by (simp add: document_node_def finish_def fresh_state_def ingest_request_def validated_event_def text_event_def event_of_def Let_def)
qed

lemma ingest_saves:
  assumes "find_row do_id i (db_documents d) = Some r" and "i \<noteq> []"
  shows "\<exists>r'. process_document_ingest digest index_course (\<lambda>payload. gateway_stream svc gw (ingest_request request_id payload))
        feed su i d = (None, save_document r' d) \<and> do_id r' = i \<and>
      (case (if do_collection r = ''slides'' then index_course (ingest_payload r) else None) of
         None \<Rightarrow> do_status r' = ''ready'' \<and> do_error r' = None
       | Some e \<Rightarrow> do_status r' = ''failed'' \<and> do_error r' = Some (exn_text e))"
proof (cases "do_collection r = ''slides''")
  case True
  have "settle_document su i s e d = save_document (r\<lparr>do_status := s, do_error := e, do_updated := su_now su 0\<rparr>) d" for s e
    by (simp add: settle_document_def assms(1))
  then show ?thesis
    using True find_row_key [OF assms(1)] by (auto simp: process_document_ingest_def assms(1) Let_def split: option.split)
next
  case False
  define payload where "payload = ingest_payload r"
  obtain said where said: "fst (handle svc gw (ingest_request request_id payload)) =
      Inr [text_event said, event_of ''document_status'' [(''document_id'', vget payload ''id''), (''status'', VStr ''ready'')]]"
    using ingest_events by blast
  have key: "do_id r = i" using find_row_key [OF assms(1)] .
  define r1 where "r1 = r\<lparr>do_status := ''ready'', do_error := None, do_updated := su_now (feed 1) 0\<rparr>"
  define d1 where "d1 = save_document r1 d"
  have found: "find_row do_id i (db_documents d1) = Some r1"
    by (simp add: d1_def save_document_def find_put_row r1_def key)
  have payload: "vget payload ''id'' = VStr i" by (simp add: payload_def ingest_payload_def key)
  have "consume_supervisor digest ''document_ingest'' payload feed (gateway_stream svc gw (ingest_request request_id payload))
      (new_chat_state (VStr i)) d = Done ((new_chat_state (VStr i))\<lparr>cs_text := [said]\<rparr>) d1"
    using assms key
    by (simp add: consume_supervisor_def gateway_stream_def said consume_event_def coerce_event_def apply_event_def
        text_event_def event_of_def payload document_status_def py_or_def new_chat_state_def text_column_def d1_def r1_def Let_def)
  then have "process_document_ingest digest index_course (\<lambda>payload. gateway_stream svc gw (ingest_request request_id payload))
      feed su i d = (None, d1)"
    using False found
    by (simp add: process_document_ingest_def assms(1) Let_def payload_def settle_ready_def r1_def)
  then show ?thesis using False by (auto simp: d1_def r1_def key)
qed

text \<open>C10 (liveness): a document handed to the ingest does not stay in processing: with the workflow as the supervisor, the
  background task ends without an exception and the document is ready, or failed with the message of the indexer's
  exception when it is course material and the indexing raised.\<close>

theorem ingest_settles_document:
  assumes "find_row do_id i (db_documents d) = Some r" and "i \<noteq> []"
  shows "\<exists>d' r'. process_document_ingest digest index_course (\<lambda>payload. gateway_stream svc gw (ingest_request request_id payload))
        feed su i d = (None, d') \<and> find_row do_id i (db_documents d') = Some r' \<and>
      (case (if do_collection r = ''slides'' then index_course (ingest_payload r) else None) of
         None \<Rightarrow> do_status r' = ''ready'' \<and> do_error r' = None
       | Some e \<Rightarrow> do_status r' = ''failed'' \<and> do_error r' = Some (exn_text e))"
  using ingest_saves [OF assms, of digest index_course svc gw request_id feed su]
  by (auto simp: save_document_def find_put_row)

definition example_document :: document_row where
  "example_document = \<lparr>do_id = ''d1'', do_course = ''c1'', do_collection = ''past_exam'', do_filename = ''old.pdf'',
     do_media_type = ''application/pdf'', do_size = 4, do_sha256 = [], do_path = ''/old.pdf'', do_status = ''processing'',
     do_error = None, do_created = 0, do_updated = 0\<rparr>"

definition document_db :: db where
  "document_db = empty_db\<lparr>db_documents := [example_document]\<rparr>"

lemma example_document_found: "find_row do_id ''d1'' (db_documents document_db) = Some example_document"
  by (simp add: document_db_def example_document_def find_row_def)

theorem ingest_settles_document_witness:
  "\<forall>svc gw. \<exists>d' r'. process_document_ingest id (\<lambda>_. None) (\<lambda>payload. gateway_stream svc gw (ingest_request ''r'' payload))
        (\<lambda>n. example_draws ''a'') (example_draws ''b'') ''d1'' document_db = (None, d') \<and>
      find_row do_id ''d1'' (db_documents d') = Some r' \<and> do_status r' = ''ready''"
proof (intro allI)
  fix svc gw
  have "''d1'' \<noteq> []" by simp
  from ingest_settles_document [OF example_document_found this, of id "\<lambda>_. None" svc gw "''r''" "\<lambda>n. example_draws ''a''" "example_draws ''b''"]
  show "\<exists>d' r'. process_document_ingest id (\<lambda>_. None) (\<lambda>payload. gateway_stream svc gw (ingest_request ''r'' payload))
        (\<lambda>n. example_draws ''a'') (example_draws ''b'') ''d1'' document_db = (None, d') \<and>
      find_row do_id ''d1'' (db_documents d') = Some r' \<and> do_status r' = ''ready''"
    by (auto simp: example_document_def)
qed

definition upsert_of :: "string \<Rightarrow> instant \<Rightarrow> instant \<Rightarrow> pydict" where
  "upsert_of k start_at end_at =
     [(''id'', VStr k), (''title'', VStr ''Revise''), (''start_at'', stamp start_at), (''end_at'', stamp end_at)]"

lemma backwards_upsert:
  assumes "end_at \<le> start_at" and "k \<noteq> []" and "find_row ta_id k (db_tasks d) = None"
  shows "\<exists>t. ta_id t = k \<and> ta_start t = start_at \<and> ta_end t = end_at \<and>
    task_upsert su (upsert_of k start_at end_at) st d =
      Failed (API_error 422 ''invalid_task_range'' ''A task end must be after its start.'' []) d (Some (save_task t d))"
proof -
  let ?t = "touched su (blank_task su k) ((blank_task su k)\<lparr>ta_course := None, ta_title := ''Revise'', ta_notes := None,
    ta_start := start_at, ta_end := end_at\<rparr>)"
  have "task_upsert su (upsert_of k start_at end_at) st d =
      Failed (API_error 422 ''invalid_task_range'' ''A task end must be after its start.'' []) d (Some (save_task ?t d))"
    using assms
    by (simp add: task_upsert_def upsert_of_def known_course_def iso_datetime_def stamp_def instant_of_stamp text_column_def
        opt_str_def blank_task_def Let_def)
  moreover have "ta_id ?t = k" "ta_start ?t = start_at" "ta_end ?t = end_at"
    by (simp_all add: touched_def blank_task_def)
  ultimately show ?thesis by blast
qed

text \<open>C23 (error): an event that is refused is dropped in a chat but stored by the document ingest: a new task that ends
  before it starts fails the request in both, yet the ingest commits the task together with the failed status.\<close>

theorem refused_task_stored_by_ingest:
  assumes "end_at \<le> start_at" and "k \<noteq> []" and "find_row ta_id k (db_tasks d) = None"
    and "find_row do_id i (db_documents d) = Some r" and "do_collection r \<noteq> ''slides''"
    and stream: "s = \<lparr>st_events = [Supervisor_event (event_of ''task_upsert'' (upsert_of k start_at end_at))], st_raises = None\<rparr>"
  shows "(\<exists>t. find_row ta_id k (db_tasks (snd (process_document_ingest digest index_course (\<lambda>_. s) feed su i d))) = Some t
        \<and> ta_end t \<le> ta_start t)
    \<and> (\<exists>f left. consume_supervisor digest ''chat'' [] feed s (new_chat_state VNone) d = Failed f d left)"
proof -
  have refused: "\<exists>t. ta_id t = k \<and> ta_start t = start_at \<and> ta_end t = end_at \<and>
      consume_supervisor digest ty document feed s st d =
        Failed (API_error 422 ''invalid_task_range'' ''A task end must be after its start.'' []) d (Some (save_task t d))" for ty document st
    using backwards_upsert [OF assms(1-3), of "feed 0" st]
    by (auto simp: stream consume_supervisor_def consume_event_def coerce_event_def apply_event_def event_of_def supervisor_fault_def)
  obtain t where t: "ta_id t = k" "ta_start t = start_at" "ta_end t = end_at"
    "consume_supervisor digest ''document_ingest'' (ingest_payload r) feed s (new_chat_state (VStr i)) d =
        Failed (API_error 422 ''invalid_task_range'' ''A task end must be after its start.'' []) d (Some (save_task t d))"
    using refused by blast
  have "find_row ta_id k (db_tasks (snd (process_document_ingest digest index_course (\<lambda>_. s) feed su i d))) = Some t"
    using assms(4,5) t(1)
    by (simp add: process_document_ingest_def Let_def t(4) settle_document_def save_task_def save_document_def find_put_row)
  then show ?thesis using t(2,3) assms(1) refused [of "''chat''" "[]" "new_chat_state VNone"] by auto
qed

theorem refused_task_stored_by_ingest_witness:
  "\<exists>t. find_row ta_id ''t1'' (db_tasks (snd (process_document_ingest id (\<lambda>_. None)
       (\<lambda>_. \<lparr>st_events = [Supervisor_event (event_of ''task_upsert'' (upsert_of ''t1'' 5 3))], st_raises = None\<rparr>)
       (\<lambda>n. example_draws ''a'') (example_draws ''b'') ''d1'' document_db))) = Some t \<and> ta_end t \<le> ta_start t"
  using refused_task_stored_by_ingest [of 3 5 "''t1''" document_db "''d1''" example_document, OF _ _ _ example_document_found _ refl]
  by (simp add: document_db_def empty_db_def find_row_def example_document_def)

section \<open>The task table as a map\<close>

definition well_timed :: "task_row \<Rightarrow> bool" where
  "well_timed t \<longleftrightarrow> ta_start t < ta_end t \<and> ta_status t \<in> set TASK_STATUSES"

inductive plan_step :: "(string \<rightharpoonup> task_row) \<Rightarrow> (string \<rightharpoonup> task_row) \<Rightarrow> bool" where
  put: "well_timed t \<Longrightarrow> plan_step m (m(ta_id t \<mapsto> t))"
| drop: "plan_step m (m(k := None))"
| skip: "plan_step m m"

datatype task_request =
    Create draws task_create
  | Update draws string task_update
  | Delete string
  | From_supervisor "string \<Rightarrow> string" draws sup_event

fun run_task :: "task_request \<Rightarrow> db \<Rightarrow> db" where
  "run_task (Create su p) d = snd (create_task su p d)"
| "run_task (Update su i p) d = snd (update_task su i p d)"
| "run_task (Delete i) d = snd (delete_task i d)"
| "run_task (From_supervisor digest su e) d =
     (case apply_event digest su e (new_chat_state VNone) d of Done _ d' \<Rightarrow> d' | Failed _ d' _ \<Rightarrow> d')"

definition new_task_id :: "task_request \<Rightarrow> db \<Rightarrow> bool" where
  "new_task_id request d = (case request of Create su p \<Rightarrow> find_row ta_id (su_id su 0) (db_tasks d) = None | _ \<Rightarrow> True)"

abbreviation task_map :: "db \<Rightarrow> string \<rightharpoonup> task_row" where
  "task_map d \<equiv> tasks.abs_map (db_tasks d)"

lemma well_timed_put: "list_all well_timed ts \<Longrightarrow> well_timed t \<Longrightarrow> list_all well_timed (put_row ta_id t ts)"
  using set_put_row [of ta_id t ts] by (auto simp: list_all_iff)

lemma well_timed_del: "list_all well_timed ts \<Longrightarrow> list_all well_timed (del_row ta_id k ts)"
  by (simp add: list_all_iff del_row_def)

lemma well_timed_found: "list_all well_timed ts \<Longrightarrow> find_row ta_id k ts = Some t \<Longrightarrow> well_timed t"
  using find_row_Some [of ta_id k ts t] by (auto simp: list_all_iff)

definition refines :: "db \<Rightarrow> db \<Rightarrow> bool" where
  \<comment> \<open>the concrete step is a step of the map, and leaves only well-timed tasks\<close>
  "refines d d' \<longleftrightarrow> plan_step (task_map d) (task_map d') \<and> list_all well_timed (db_tasks d')"

lemma refines_save:
  assumes "list_all well_timed (db_tasks d)" "well_timed t"
  shows "refines d (save_task t d)"
  using plan_step.put [OF assms(2)] assms by (simp add: refines_def save_task_def tasks.abs_store well_timed_put)

lemma refines_same: "list_all well_timed (db_tasks d) \<Longrightarrow> db_tasks d' = db_tasks d \<Longrightarrow> refines d d'"
  by (simp add: refines_def plan_step.skip)

lemma refines_drop:
  "list_all well_timed (db_tasks d) \<Longrightarrow> refines d (d\<lparr>db_tasks := del_row ta_id k (db_tasks d)\<rparr>)"
  by (simp add: refines_def tasks.abs_remove plan_step.drop well_timed_del)

lemma create_refines:
  assumes "list_all well_timed (db_tasks d)" "find_row ta_id (su_id su 0) (db_tasks d) = None"
  shows "refines d (snd (create_task su p d))"
proof (cases "fst (create_task su p d)")
  case (Inl f)
  then have "snd (create_task su p d) = d"
    by (auto simp: create_task_def Let_def split: sum.splits)
  then show ?thesis using assms(1) by (simp add: refines_same)
next
  case (Inr t)
  then have ok: "task_create_ok p = Inr True"
    by (auto simp: create_task_def bind_res_def Let_def split: sum.splits if_splits)
  then have "well_timed t" and t: "ta_id t = su_id su 0" and d: "snd (create_task su p d) = d\<lparr>db_tasks := db_tasks d @ [t]\<rparr>"
    using Inr
    by (auto simp: create_task_def Let_def well_timed_def task_create_ok_def datetime_le_def split: sum.splits if_splits)
  moreover have "db_tasks d @ [t] = put_row ta_id t (db_tasks d)"
    using assms(2) t by (simp add: put_row_new find_row_None)
  ultimately show ?thesis using refines_save [OF assms(1), of t] by (simp add: save_task_def)
qed

lemma changed_task_Inr:
  assumes "changed_task su p old = Inr t" and "task_update_ok p" and "well_timed old"
  shows "well_timed t"
proof -
  obtain start_at end_at where "start_at < end_at" "ta_start t = start_at" "ta_end t = end_at"
    and s: "ta_status t = (case tu_status p of Some (Some s) \<Rightarrow> s | _ \<Rightarrow> ta_status old)"
    using assms(1) by (auto simp: changed_task_def bind_res_Inr split: if_splits)
  moreover have "ta_status t \<in> set TASK_STATUSES"
    using assms(2,3) s by (auto simp: task_update_ok_def given_ok_def well_timed_def split: option.splits)
  ultimately show ?thesis by (simp add: well_timed_def)
qed

lemma update_refines:
  assumes "list_all well_timed (db_tasks d)"
  shows "refines d (snd (update_task su i p d))"
proof (cases "task_update_ok p")
  case True
  show ?thesis
  proof (cases "bind_res (get_task_row d i) (\<lambda>task.
      bind_res (known_course d (case tu_course p of Some c \<Rightarrow> opt_str c | None \<Rightarrow> VNone)) (\<lambda>_. changed_task su p task))")
    case (Inr t)
    then obtain old where "find_row ta_id i (db_tasks d) = Some old" "changed_task su p old = Inr t"
      by (auto simp: bind_res_Inr get_task_row_def split: option.splits)
    then have "well_timed t" using changed_task_Inr True well_timed_found [OF assms] by blast
    then show ?thesis using refines_save [OF assms] by (simp add: update_task_def True Inr)
  qed (simp add: update_task_def True refines_same [OF assms])
qed (simp add: update_task_def refines_same [OF assms])

lemma upsert_refines:
  assumes "list_all well_timed (db_tasks d)" and "task_upsert su data st d = Done st' d'"
  shows "refines d d'"
proof -
  obtain t where "d' = save_task t d" "ta_start t < ta_end t" "hashed_in (VStr (ta_status t)) TASK_STATUSES = Inr True"
    using assms(2)
    by (auto simp: task_upsert_def Let_def hashed_in_def split: sum.splits if_splits bool.splits pyval.splits)
  then show ?thesis using refines_save [OF assms(1), of t] by (simp add: well_timed_def hashed_in_def)
qed

lemma store_questions_tasks: "store_questions su z n elements d = Inr d' \<Longrightarrow> db_tasks d' = db_tasks d"
  by (induction elements arbitrary: n d) (fastforce simp: bind_res_Inr Let_def)+

lemma quiz_create_tasks: "quiz_create su data st d = Done st' d' \<Longrightarrow> db_tasks d' = db_tasks d"
  using quiz_create_stored [of su data st d st' d'] by (auto dest: store_questions_tasks)

lemma event_tasks:
  "document_status su data st d = Done st' d' \<Longrightarrow> db_tasks d' = db_tasks d"
  "notification_create digest su data st d = Done st' d' \<Longrightarrow> db_tasks d' = db_tasks d"
  by (auto simp: document_status_def notification_create_def save_document_def Let_def
      split: option.splits if_splits sum.splits)

lemma task_delete_refines:
  assumes "list_all well_timed (db_tasks d)" and "task_delete data st d = Done st' d'"
  shows "refines d d'"
  using assms(2) refines_same [OF assms(1) refl] refines_drop [OF assms(1)]
  by (auto simp: task_delete_def split: option.splits if_splits)

lemma event_refines:
  assumes "list_all well_timed (db_tasks d)" and "apply_event digest su e st d = Done st' d'"
  shows "refines d d'"
  using assms(2) upsert_refines [OF assms(1)] task_delete_refines [OF assms(1)] refines_same [OF assms(1) refl]
  by (auto simp: apply_event_def Let_def intro: refines_same [OF assms(1)] dest: event_tasks quiz_create_tasks split: if_splits)



section \<open>Quizzes of the workflow\<close>

definition quiz_event :: "services \<Rightarrow> quiz \<Rightarrow> wstate \<Rightarrow> string option \<Rightarrow> string option \<Rightarrow> pydict" where
  \<comment> \<open>the data of the \<open>quiz_create\<close> event the workflow sends for a generated quiz\<close>
  "quiz_event svc z st course_id name = se_data (hd (w_events (quiz_result svc (quiz_dict z) st course_id name)))"

definition no_blank :: "question \<Rightarrow> bool" where
  "no_blank q \<longleftrightarrow> strip (q_prompt q) \<noteq> [] \<and> list_all (\<lambda>t. strip t \<noteq> []) (q_options q)"

lemma quiz_event_fields:
  "vget (quiz_event svc z st course_id name) ''questions'' = VList (map VDict (normalised_questions (quiz_dict z)))"
  "vget (quiz_event svc z st course_id name) ''source_collections'' = VList [VStr ''slides'']"
  by (simp_all add: quiz_event_def quiz_result_def finish_def event_of_def Let_def)

lemma dicts_of_map: "dicts_of (map (\<lambda>x. VDict (f x)) xs) = map f xs"
  by (induction xs) auto

lemma quiz_dict_lists:
  "py_iter (vget (quiz_dict z) ''questions'') = map (\<lambda>q. VDict (public_question q)) (qz_questions z)"
  "py_iter (vget (quiz_dict z) ''answer_key'') = map (\<lambda>q. VDict (answer_entry q)) (qz_questions z)"
  by (simp_all add: quiz_dict_def)

lemma normalised_quiz_questions:
  "normalised_questions (quiz_dict z) = map (\<lambda>q. normalised_question (quiz_dict z) (public_question q)) (qz_questions z)"
  by (simp add: normalised_questions_def quiz_dict_lists dicts_of_map)

lemma find_by_id:
  "distinct (map key xs) \<Longrightarrow> x \<in> set xs \<Longrightarrow> find (\<lambda>y. key y = key x) xs = Some x"
  by (induction xs) auto

lemma answer_found:
  assumes "distinct (map q_id (qz_questions z))" and "q \<in> set (qz_questions z)"
  shows "answer_for (quiz_dict z) (public_question q) = answer_entry q"
proof -
  let ?key = "\<lambda>e. py_str (vget e ''id'')"
  let ?es = "rev (map answer_entry (qz_questions z))"
  have key: "?key (answer_entry q) = q_id q" for q by (simp add: answer_entry_def)
  have "map ?key ?es = rev (map q_id (qz_questions z))" by (simp add: rev_map key)
  then have "find (\<lambda>e. ?key e = ?key (answer_entry q)) ?es = Some (answer_entry q)"
    using assms by (intro find_by_id) auto
  moreover have "?key (public_question q) = q_id q" by (simp add: public_question_def)
  ultimately show ?thesis by (simp add: answer_for_def quiz_dict_lists dicts_of_map key)
qed

lemma workflow_question_accepted:
  assumes "distinct (map q_id (qz_questions z))" and q: "q \<in> set (qz_questions z)" and ok: "question_ok q"
  shows "(\<exists>p. question_options_of (VDict (normalised_question (quiz_dict z) (public_question q))) = Inr p) \<longleftrightarrow> no_blank q"
proof -
  obtain a b c e where options: "q_options q = [a, b, c, e]"
    using ok unfolding question_ok_def by (auto simp: length_Suc_conv numeral_eq_Suc)
  have "q_correct q \<in> set letters" using ok by (simp add: question_ok_def)
  then have correct: "upper_str (q_correct q) = q_correct q" "q_correct q \<in> set letters"
    by (auto simp: letters_def upper_str_def upper_char_def is_lower_def code_def)
  have ids: "option_id 0 = ''A''" "option_id (Suc 0) = ''B''" "option_id (Suc (Suc 0)) = ''C''" "option_id (Suc (Suc (Suc 0))) = ''D''"
    by (simp_all add: option_id_def letters_def)
  let ?n = "normalised_question (quiz_dict z) (public_question q)"
  let ?o = "\<lambda>k t. [(''option_id'', VStr k), (''text'', VStr t)] :: pydict"
  have entries: "vget ?n ''options'' = VList [VDict (?o ''A'' a), VDict (?o ''B'' b), VDict (?o ''C'' c), VDict (?o ''D'' e)]"
    by (simp add: normalised_question_def public_question_def options texts_def option_entry_def ids Let_def numeral_eq_Suc)
  have rest: "vget_default ?n ''prompt'' (VStr []) = VStr (q_prompt q)"
    "vget_default ?n ''correct_option_id'' (VStr []) = VStr (q_correct q)"
    using correct(1) answer_found [OF assms(1) q]
    by (simp_all add: normalised_question_def Let_def) (simp_all add: public_question_def answer_entry_def)
  have "strip ''A'' \<noteq> []" "strip ''B'' \<noteq> []" "strip ''C'' \<noteq> []" "strip ''D'' \<noteq> []" by code_simp+
  then have "mcq_ok ?n [?o ''A'' a, ?o ''B'' b, ?o ''C'' c, ?o ''D'' e] = no_blank q"
    using correct(2) by (auto simp: mcq_ok_def option_ids_def rest no_blank_def options letters_def)
  then show ?thesis
    by (simp add: question_options_of_def py_or_def entries)
qed

lemma store_questions_iff:
  "(\<exists>d'. store_questions su quiz_id n elements d = Inr d') \<longleftrightarrow> list_all (\<lambda>e. \<exists>p. question_options_of e = Inr p) elements"
proof (induction elements arbitrary: n d)
  case (Cons e es)
  then show ?case by (cases "question_options_of e") (auto simp: Let_def split: prod.splits)
qed simp

text \<open>C9 (equivalence): the quiz the workflow generates and the quiz the API stores agree: the event of a generated quiz is
  accepted exactly when no prompt and no option is blank, for a known course.\<close>

theorem generated_quiz_stored_iff_no_blank:
  assumes "generate_quiz llm state material course n topics = Inr (Ready z)"
    and "known_course d (vget (quiz_event svc z wst course_id name) ''course_id'') = Inr ()"
  shows "(\<exists>st' d'. quiz_create su (quiz_event svc z wst course_id name) st d = Done st' d') \<longleftrightarrow>
    list_all no_blank (qz_questions z)"
proof -
  have z: "list_all question_ok (qz_questions z)" "distinct (map q_id (qz_questions z))" "qz_questions z \<noteq> []"
    using generated_quiz [OF assms(1)] by auto
  let ?es = "map (\<lambda>q. VDict (normalised_question (quiz_dict z) (public_question q))) (qz_questions z)"
  have fields: "vget (quiz_event svc z wst course_id name) ''questions'' = VList ?es"
    by (simp add: quiz_event_fields normalised_quiz_questions comp_def)
  have "unknown_collection [VStr ''slides''] = Inr False" by code_simp
  then obtain D links where create: "quiz_create su (quiz_event svc z wst course_id name) st d =
      (case store_questions su (su_id su 0) 0 ?es D of
         Inl f \<Rightarrow> Failed f d (Some d) | Inr d' \<Rightarrow> Done (st\<lparr>cs_links := links\<rparr>) d')"
    using z(3) assms(2)
    by (simp add: quiz_create_def fields quiz_event_fields(2) py_or_def Let_def del: unknown_collection.simps)
  have "(\<exists>st' d'. quiz_create su (quiz_event svc z wst course_id name) st d = Done st' d') \<longleftrightarrow>
      (\<exists>d'. store_questions su (su_id su 0) 0 ?es D = Inr d')"
    unfolding create by (cases "store_questions su (su_id su 0) 0 ?es D") auto
  also have "\<dots> \<longleftrightarrow> list_all (\<lambda>e. \<exists>p. question_options_of e = Inr p) ?es"
    by (rule store_questions_iff)
  also have "\<dots> \<longleftrightarrow> list_all no_blank (qz_questions z)"
    using workflow_question_accepted [OF z(2)] z(1) by (auto simp: list_all_iff)
  finally show ?thesis .
qed

definition example_run :: wstate where
  "example_run = fresh_state (ingest_request ''r'' []) [] True ''quiz me''"

theorem generated_quiz_stored_iff_no_blank_witness:
  "\<forall>svc. \<exists>z st' d'. generate_quiz None None example_material None (VInt 1) (VStr ''root'') = Inr (Ready z)
     \<and> quiz_create (example_draws ''a'') (quiz_event svc z example_run None None) (new_chat_state VNone) empty_db = Done st' d'"
proof
  fix svc
  let ?r = "generate_quiz None None example_material None (VInt 1) (VStr ''root'')"
  have p: "map_option (\<lambda>z. list_all no_blank (qz_questions z)) (the_quiz ?r) = Some True" by code_simp
  then obtain z where z: "?r = Inr (Ready z)" by (auto simp: the_quiz_def split: sum.splits quiz_outcome.splits)
  have "vget (quiz_event svc z example_run None None) ''course_id'' = VNone"
    by (simp add: quiz_event_def quiz_result_def finish_def event_of_def Let_def first_truthy_id_def example_run_def fresh_state_def
        ingest_request_def first_course_id_def course_dicts_def py_or_def opt_str_def)
  then have "known_course empty_db (vget (quiz_event svc z example_run None None) ''course_id'') = Inr ()"
    by (simp add: known_course_def)
  from generated_quiz_stored_iff_no_blank [OF z this, of "example_draws ''a''" "new_chat_state VNone"]
  show "\<exists>z st' d'. ?r = Inr (Ready z)
     \<and> quiz_create (example_draws ''a'') (quiz_event svc z example_run None None) (new_chat_state VNone) empty_db = Done st' d'"
    using p z by (auto simp: the_quiz_def)
qed

end
