(* ===== verification/Startup.thy ===== *)
theory Startup
  imports ApiProperties
begin

text \<open>
  The start of the API (\<open>lifespan\<close> of \<open>backend/main.py\<close>): a document that was still being processed when
  the server stopped is handed to a new ingest worker. The workers run concurrently; each commits once, so
  their effect is that of running them one after the other in the order in which they finish.
\<close>

definition pending_document_ids :: "db \<Rightarrow> string list" where
  "pending_document_ids d = map do_id (filter (\<lambda>r. do_status r = ''processing'') (db_documents d))"

definition resume_ingests ::
  "(string \<Rightarrow> string) \<Rightarrow> (pydict \<Rightarrow> exn option) \<Rightarrow> (pydict \<Rightarrow> stream) \<Rightarrow> (string \<Rightarrow> nat \<Rightarrow> draws) \<Rightarrow> (string \<Rightarrow> draws)
    \<Rightarrow> string list \<Rightarrow> db \<Rightarrow> db"
where
  \<comment> \<open>\<open>finished\<close> lists the documents in the order in which their workers finish\<close>
  "resume_ingests digest index_course deliver feed su finished d =
     foldl (\<lambda>d i. snd (process_document_ingest digest index_course deliver (feed i) (su i) i d)) d finished"

lemma set_pending: "set (pending_document_ids d) = {do_id r |r. r \<in> set (db_documents d) \<and> do_status r = ''processing''}"
  by (auto simp: pending_document_ids_def)

lemma save_document_documents:
  assumes "keys_ok do_id (db_documents d)" "find_row do_id (do_id r') (db_documents d) = Some r" "do_status r' \<noteq> ''processing''"
  shows "keys_ok do_id (db_documents (save_document r' d))"
    "set (pending_document_ids (save_document r' d)) = set (pending_document_ids d) - {do_id r'}"
    "map do_id (db_documents (save_document r' d)) = map do_id (db_documents d)"
proof -
  show "keys_ok do_id (db_documents (save_document r' d))"
    using assms(1) by (simp add: save_document_def keys_ok_put)
  show "set (pending_document_ids (save_document r' d)) = set (pending_document_ids d) - {do_id r'}"
    using assms(3) by (auto simp: set_pending save_document_def set_put_row_eq [OF assms(1)])
  show "map do_id (db_documents (save_document r' d)) = map do_id (db_documents d)"
  proof -
    have "r \<in> set (db_documents d)" "do_id r' = do_id r" using find_row_Some [OF assms(2)] by simp_all
    from map_put_row [OF assms(1) this this(2)] show ?thesis by (simp add: save_document_def)
  qed
qed

lemma resume_settles:
  assumes "keys_ok do_id (db_documents d)" "set finished \<subseteq> do_id ` set (db_documents d)" "[] \<notin> set finished"
    and deliver: "deliver = (\<lambda>payload. gateway_stream svc gw (ingest_request request_id payload))"
  shows "set (pending_document_ids (resume_ingests digest index_course deliver feed su finished d)) =
      set (pending_document_ids d) - set finished
    \<and> map do_id (db_documents (resume_ingests digest index_course deliver feed su finished d)) = map do_id (db_documents d)"
  using assms(1-3)
proof (induction finished arbitrary: d)
  case (Cons i rest)
  have i: "i \<noteq> []" using Cons.prems(3) by auto
  obtain r where r: "find_row do_id i (db_documents d) = Some r"
    using Cons.prems(2) find_row_None [of do_id i "db_documents d"] by (cases "find_row do_id i (db_documents d)") auto
  obtain r' where r': "process_document_ingest digest index_course deliver (feed i) (su i) i d = (None, save_document r' d)"
      "do_id r' = i" "do_status r' \<noteq> ''processing''"
    using ingest_saves [OF r i, of digest index_course svc gw request_id "feed i" "su i"] by (auto simp: deliver split: option.splits)
  have found: "find_row do_id (do_id r') (db_documents d) = Some r" using r r'(2) by simp
  note saved = save_document_documents [OF Cons.prems(1) found r'(3)]
  have "do_id ` set (db_documents (save_document r' d)) = do_id ` set (db_documents d)"
    using saved(3) by (metis list.set_map)
  then show ?case
    using Cons.IH [of "save_document r' d"] Cons.prems saved r'(1,2) by (auto simp: resume_ingests_def)
qed (simp add: resume_ingests_def)



end
