(* ===== verification/Responses.thy ===== *)
theory Responses
  imports QuizBank
begin

text \<open>
  The response models of \<open>backend/schemas.py\<close>: FastAPI validates what a handler returns, and an answer
  that does not fit its model becomes an internal error. \<open>SemesterOut\<close>, \<open>CourseOut\<close> and \<open>TaskOut\<close> inherit
  the bounds of the corresponding inputs, so rows that came in another way can make a page unreadable.
\<close>

section \<open>Response models\<close>

definition semester_out_ok :: "semester_row \<Rightarrow> bool" where
  "semester_out_ok s \<longleftrightarrow> text_within 200 (sem_name s) \<and> text_within 80 (sem_timezone s) \<and> \<not> sem_end s < sem_start s"

definition course_out_ok :: "course_row \<Rightarrow> bool" where
  "course_out_ok c \<longleftrightarrow> text_within 80 (co_code c) \<and> text_within 200 (co_name c) \<and> color_ok (co_color c)"

definition document_out_ok :: "document_row \<Rightarrow> bool" where
  "document_out_ok r \<longleftrightarrow> do_collection r \<in> set ALLOWED_COLLECTIONS"

definition task_out_ok :: "task_row \<Rightarrow> bool" where
  "task_out_ok t \<longleftrightarrow> text_within 300 (ta_title t) \<and> ta_status t \<in> set TASK_STATUSES
     \<and> ta_origin t \<in> set [''student'', ''supervisor''] \<and> \<not> ta_end t \<le> ta_start t"

definition invalid_response :: fault where
  \<comment> \<open>\<open>ResponseValidationError\<close>, which no handler catches\<close>
  "invalid_response = Raised (OtherError ''ResponseValidationError'')"

definition responding :: "('a \<Rightarrow> bool) \<Rightarrow> 'a answer \<Rightarrow> 'a answer" where
  \<comment> \<open>a handler with a \<open>response_model\<close>\<close>
  "responding ok r = bind_res r (\<lambda>v. if ok v then Inr v else Inl invalid_response)"

definition semester_response :: "db \<Rightarrow> semester_row option answer" where
  "semester_response d = responding (\<lambda>s. list_all semester_out_ok (case s of None \<Rightarrow> [] | Some s \<Rightarrow> [s])) (Inr (active_semester d))"

definition courses_response :: "db \<Rightarrow> course_row list answer" where
  "courses_response d = responding (list_all course_out_ok) (Inr (ordered_courses d))"

definition documents_response :: "string \<Rightarrow> string option \<Rightarrow> db \<Rightarrow> document_row list answer" where
  "documents_response course_id collection d = responding (list_all document_out_ok) (list_documents course_id collection d)"

definition plan_response ::
  "datetime option \<Rightarrow> datetime option \<Rightarrow> string option \<Rightarrow> string option \<Rightarrow> db
    \<Rightarrow> (semester_row option \<times> task_row list \<times> nat \<times> nat \<times> rat) answer"
where
  "plan_response from_at to_at course_id wanted d =
     responding (\<lambda>(s, tasks, _). list_all semester_out_ok (case s of None \<Rightarrow> [] | Some s \<Rightarrow> [s]) \<and> list_all task_out_ok tasks)
       (get_plan from_at to_at course_id wanted d)"

definition task_response :: "task_row answer \<times> db \<Rightarrow> task_row answer \<times> db" where
  \<comment> \<open>the answer of \<open>create_task\<close> and \<open>update_task\<close>; the commit has happened before\<close>
  "task_response r = map_prod (responding task_out_ok) id r"

section \<open>Readable rows\<close>

definition pages :: "db \<Rightarrow> semester_row list \<times> course_row list \<times> document_row list \<times> task_row list" where
  "pages d = (db_semesters d, db_courses d, db_documents d, db_tasks d)"

definition readable :: "db \<Rightarrow> bool" where
  "readable d \<longleftrightarrow> list_all semester_out_ok (db_semesters d) \<and> list_all course_out_ok (db_courses d)
     \<and> list_all document_out_ok (db_documents d) \<and> list_all task_out_ok (db_tasks d)"

lemma readable_pages: "readable d \<Longrightarrow> pages d' = pages d \<Longrightarrow> readable d'"
  by (simp add: readable_def pages_def)

lemma readable_empty: "readable empty_db"
  by (simp add: readable_def empty_db_def)

lemma list_all_put_row: "list_all P rows \<Longrightarrow> P r \<Longrightarrow> list_all P (put_row key r rows)"
  using set_put_row [of key r rows] by (auto simp: list_all_iff)

lemma list_all_del_row: "list_all P rows \<Longrightarrow> list_all P (del_row key k rows)"
  by (simp add: list_all_iff del_row_def)

lemma list_all_found: "list_all P rows \<Longrightarrow> find_row key k rows = Some r \<Longrightarrow> P r"
  using find_row_Some [of key k rows r] by (auto simp: list_all_iff)

lemma list_all_sort: "list_all P (sort_key f rows) = list_all P rows"
  by (simp add: list_all_iff)

lemma list_all_filterI: "list_all P rows \<Longrightarrow> list_all P (filter Q rows)"
  by (simp add: list_all_iff)

lemmas readable_intros = list_all_put_row list_all_del_row list_all_filterI

text \<open>Every operation that leaves the four tables alone.\<close>

lemma operation_pages [simp]:
  "pages (snd (delete_quiz i d)) = pages d"
  "pages (snd (start_attempt su i d)) = pages d"
  "pages (snd (submit_answer su i q selected d)) = pages d"
  "pages (snd (complete_attempt su i d)) = pages d"
  "pages (snd (update_notification su i payload d)) = pages d"
  "pages (read_all_notifications now d) = pages d"
  by (simp_all add: delete_quiz_def cascade_quiz_def start_attempt_def submit_answer_def complete_attempt_def update_notification_def
      read_all_notifications_def pages_def Let_def split: sum.splits option.splits prod.splits)

lemma store_questions_pages: "store_questions su z n elements d = Inr d' \<Longrightarrow> pages d' = pages d"
  by (induction elements arbitrary: n d) (fastforce simp: bind_res_Inr Let_def pages_def)+

lemma quiz_create_pages: "quiz_create su data st d = Done st' d' \<Longrightarrow> pages d' = pages d"
  using quiz_create_stored [of su data st d st' d'] by (auto dest: store_questions_pages simp: pages_def)

lemma notification_create_pages: "notification_create digest su data st d = Done st' d' \<Longrightarrow> pages d' = pages d"
  by (auto simp: notification_create_def pages_def Let_def split: sum.splits if_splits)

subsection \<open>Semester, courses, documents\<close>

lemma put_semester_readable:
  assumes "readable d"
  shows "readable (snd (put_semester su p d))"
proof -
  have "list_all semester_out_ok (map (\<lambda>s. if sem_id s = i \<or> \<not> sem_active s then s else s\<lparr>sem_active := False, sem_updated := n\<rparr>)
      (db_semesters d))" for i n
    using assms by (auto simp: readable_def list_all_iff semester_out_ok_def)
  then show ?thesis
    using assms by (auto simp: put_semester_def Let_def readable_def semester_input_ok_def semester_out_ok_def intro!: list_all_put_row)
qed

lemma create_course_readable: "readable d \<Longrightarrow> readable (snd (create_course su p d))"
  by (simp add: create_course_def Let_def readable_def course_create_ok_def course_out_ok_def split: option.splits)

lemma update_course_readable:
  assumes "readable d"
  shows "readable (snd (update_course su i p d))"
proof (cases "get_course_row d i")
  case (Inr c)
  then have "course_out_ok c"
    using assms list_all_found [of course_out_ok "db_courses d" co_id i]
    by (auto simp: get_course_row_def readable_def split: option.splits)
  then show ?thesis
    using assms
    by (auto simp: update_course_def Inr Let_def readable_def course_update_ok_def course_out_ok_def given_ok_def
        intro!: list_all_put_row split: option.splits)
qed (simp add: update_course_def assms)

lemma delete_course_readable: "readable d \<Longrightarrow> readable (snd (delete_course i d))"
  by (auto simp: delete_course_def readable_def intro: list_all_del_row split: sum.splits)

lemma upload_readable: "readable d \<Longrightarrow> readable (fst (snd (upload_document cfg su i c file d fs)))"
  by (simp add: upload_document_def Let_def readable_def document_out_ok_def split: sum.splits prod.splits)

lemma save_document_readable:
  "readable d \<Longrightarrow> find_row do_id i (db_documents d) = Some r \<Longrightarrow> do_collection r' = do_collection r \<Longrightarrow> readable (save_document r' d)"
  using list_all_found [of document_out_ok "db_documents d" do_id i r]
  by (auto simp: readable_def save_document_def document_out_ok_def intro!: list_all_put_row)

lemma document_readable:
  assumes "readable d"
  shows "readable (snd (retry_document su i d))" "readable (settle_document su i s e d)" "readable (settle_ready su i d)"
  using assms save_document_readable [OF assms]
  by (auto simp: retry_document_def settle_document_def settle_ready_def get_document_row_def Let_def split: option.splits)

lemma document_deleted_readable: "readable d \<Longrightarrow> readable (d\<lparr>db_documents := del_row do_id i (db_documents d)\<rparr>)"
  by (simp add: readable_def list_all_del_row)

lemma document_status_readable:
  assumes "readable d" "document_status su data st d = Done st' d'"
  shows "readable d'"
  using assms save_document_readable [OF assms(1)]
  by (auto simp: document_status_def Let_def split: option.splits if_splits)

subsection \<open>Tasks\<close>

lemma create_task_readable:
  assumes "readable d"
  shows "readable (snd (create_task su p d))"
proof (cases "task_create_ok p")
  case (Inr ok)
  then show ?thesis
    using assms
    by (auto simp: create_task_def Let_def readable_def task_out_ok_def task_create_ok_def datetime_le_def
        split: sum.splits if_splits)
qed (simp add: create_task_def assms)

lemma changed_task_readable:
  "changed_task su p old = Inr t \<Longrightarrow> task_update_ok p \<Longrightarrow> task_out_ok old \<Longrightarrow> task_out_ok t"
  by (auto simp: changed_task_def bind_res_Inr task_update_ok_def given_ok_def task_out_ok_def split: if_splits option.splits)

lemma save_task_readable: "readable d \<Longrightarrow> task_out_ok t \<Longrightarrow> readable (save_task t d)"
  by (auto simp: readable_def save_task_def intro: list_all_put_row)

lemma update_task_readable:
  assumes "readable d"
  shows "readable (snd (update_task su i p d))"
proof (cases "task_update_ok p")
  case True
  show ?thesis
  proof (cases "bind_res (get_task_row d i) (\<lambda>task.
      bind_res (known_course d (case tu_course p of Some c \<Rightarrow> opt_str c | None \<Rightarrow> VNone)) (\<lambda>_. changed_task su p task))")
    case (Inr t)
    then obtain old where old: "find_row ta_id i (db_tasks d) = Some old" "changed_task su p old = Inr t"
      by (auto simp: bind_res_Inr get_task_row_def split: option.splits)
    then have "task_out_ok t"
      using assms True list_all_found [OF _ old(1), of task_out_ok] changed_task_readable by (auto simp: readable_def)
    then show ?thesis using assms save_task_readable by (simp add: update_task_def True Inr)
  qed (simp add: update_task_def True assms)
qed (simp add: update_task_def assms)

lemma delete_task_readable: "readable d \<Longrightarrow> readable (snd (delete_task i d))"
  by (auto simp: delete_task_def readable_def intro: list_all_del_row split: sum.splits)

lemma task_delete_readable: "readable d \<Longrightarrow> task_delete data st d = Done st' d' \<Longrightarrow> readable d'"
  by (auto simp: task_delete_def readable_def intro: list_all_del_row split: option.splits if_splits)

definition title_fits :: "sup_event \<Rightarrow> bool" where
  \<comment> \<open>a title the event gives has the length \<open>TaskOut\<close> admits\<close>
  "title_fits e = (case map_of (se_data e) ''title'' of Some v \<Rightarrow> text_within 300 (py_str v) | None \<Rightarrow> True)"

lemma task_upsert_stored:
  assumes "task_upsert su data st d = Done st' d'"
  obtains t where "d' = save_task t d" "ta_start t < ta_end t" "ta_status t \<in> set TASK_STATUSES" "ta_origin t = ''supervisor''"
    "case map_of data ''title'' of Some v \<Rightarrow> ta_title t = py_str v
       | None \<Rightarrow> ta_title t = ''Study task'' \<or> (\<exists>old \<in> set (db_tasks d). ta_title t = ta_title old)"
proof -
  let ?found = "if truthy (vget data ''id'') then find_row ta_id (py_str (vget data ''id'')) (db_tasks d) else None"
  define old where "old = (case ?found of Some t \<Rightarrow> t | None \<Rightarrow> blank_task su (if truthy (vget data ''id'') then py_str (vget data ''id'') else su_id su 0))"
  have title: "case map_of data ''title'' of Some v \<Rightarrow> py_str (vget_default data ''title'' (py_or (VStr (ta_title old)) (VStr ''Study task''))) = py_str v
      | None \<Rightarrow> py_str (vget_default data ''title'' (py_or (VStr (ta_title old)) (VStr ''Study task''))) = ''Study task''
         \<or> (\<exists>o' \<in> set (db_tasks d). py_str (vget_default data ''title'' (py_or (VStr (ta_title old)) (VStr ''Study task''))) = ta_title o')"
    using find_row_Some [of ta_id "py_str (vget data ''id'')" "db_tasks d"]
    by (auto simp: vget_default_def dict_get_def py_or_def old_def blank_task_def split: option.splits if_splits)
  obtain t where "d' = save_task t d" "ta_start t < ta_end t" "hashed_in (VStr (ta_status t)) TASK_STATUSES = Inr True"
    "ta_origin t = ''supervisor''"
    "ta_title t = py_str (vget_default data ''title'' (py_or (VStr (ta_title old)) (VStr ''Study task'')))"
    using assms unfolding task_upsert_def old_def [symmetric] Let_def
    by (auto simp: hashed_in_def split: sum.splits if_splits bool.splits pyval.splits)
  then show thesis using title by (intro that [of t]) (auto simp: hashed_in_def split: option.splits)
qed

lemma task_upsert_readable:
  assumes "readable d" "task_upsert su (se_data e) st d = Done st' d'" "title_fits e"
  shows "readable d'"
proof -
  obtain t where t: "d' = save_task t d" "ta_start t < ta_end t" "ta_status t \<in> set TASK_STATUSES" "ta_origin t = ''supervisor''"
    and title: "case map_of (se_data e) ''title'' of Some v \<Rightarrow> ta_title t = py_str v
       | None \<Rightarrow> ta_title t = ''Study task'' \<or> (\<exists>old \<in> set (db_tasks d). ta_title t = ta_title old)"
    using assms(2) by (rule task_upsert_stored)
  have "text_within 300 (ta_title t)"
    using title assms(1,3)
    by (auto simp: title_fits_def readable_def list_all_iff task_out_ok_def text_within_def split: option.splits)
  then show ?thesis
    using t assms(1) save_task_readable by (simp add: task_out_ok_def)
qed

lemma event_readable:
  assumes "readable d" "apply_event digest su e st d = Done st' d'" "se_kind e = ''task_upsert'' \<longrightarrow> title_fits e"
  shows "readable d'"
  using assms(2,3) document_status_readable [OF assms(1)] task_upsert_readable [OF assms(1)] task_delete_readable [OF assms(1)]
    readable_pages [OF assms(1) quiz_create_pages] readable_pages [OF assms(1) notification_create_pages] assms(1)
  by (auto simp: apply_event_def Let_def split: if_splits)

section \<open>Pages over time\<close>

text \<open>The requests of students and the events of a supervisor whose task titles fit.\<close>

inductive page_step :: "db \<Rightarrow> db \<Rightarrow> bool" where
  "apply_event digest su e st d = Done st' d' \<Longrightarrow> se_kind e = ''task_upsert'' \<longrightarrow> title_fits e \<Longrightarrow> page_step d d'"
| "page_step d (settle_document su i s e d)"
| "page_step d (settle_ready su i d)"
| "page_step d (d\<lparr>db_documents := del_row do_id i (db_documents d)\<rparr>)"
| "page_step d (fst (snd (upload_document cfg su i c file d fs)))"
| "page_step d (snd (retry_document su i d))"
| "page_step d (snd (put_semester su p d))"
| "page_step d (snd (create_course su p1 d))"
| "page_step d (snd (update_course su i p2 d))"
| "page_step d (snd (delete_course i d))"
| "page_step d (snd (create_task su p3 d))"
| "page_step d (snd (update_task su i p4 d))"
| "page_step d (snd (delete_task i d))"
| "page_step d (snd (delete_quiz i d))"
| "page_step d (snd (start_attempt su i d))"
| "page_step d (snd (submit_answer su i q selected d))"
| "page_step d (snd (complete_attempt su i d))"
| "page_step d (snd (update_notification su i payload d))"
| "page_step d (read_all_notifications now d)"

lemma page_step_readable: "page_step d d' \<Longrightarrow> readable d \<Longrightarrow> readable d'"
  by (induction rule: page_step.induct)
    (blast intro: event_readable document_readable document_deleted_readable upload_readable put_semester_readable
      create_course_readable update_course_readable delete_course_readable create_task_readable update_task_readable
      delete_task_readable readable_pages operation_pages)+

lemma page_steps_readable: "page_step\<^sup>*\<^sup>* d d' \<Longrightarrow> readable d \<Longrightarrow> readable d'"
  by (induction rule: rtranclp_induct) (auto intro: page_step_readable)

lemma active_semester_member: "active_semester d = Some s \<Longrightarrow> s \<in> set (db_semesters d)"
proof -
  assume "active_semester d = Some s"
  then have "s \<in> set (sort_key (\<lambda>s. - sem_created s) (filter sem_active (db_semesters d)))"
    unfolding active_semester_def by (auto split: list.splits simp del: set_sort)
  then show ?thesis by simp
qed

lemma active_semester_ok: "readable d \<Longrightarrow> list_all semester_out_ok (case active_semester d of None \<Rightarrow> [] | Some s \<Rightarrow> [s])"
  using active_semester_member [of d] by (auto simp: readable_def list_all_iff split: option.splits)

lemma responding_ok: "(\<And>v. r = Inr v \<Longrightarrow> ok v) \<Longrightarrow> responding ok r = r"
  by (cases r) (auto simp: responding_def)

lemma plan_readable: "readable d \<Longrightarrow> plan_response a b c s d = get_plan a b c s d"
  using active_semester_ok [of d] unfolding plan_response_def
  by (intro responding_ok) (auto simp: get_plan_def Let_def readable_def ordered_tasks_def list_all_iff split: if_splits)


definition revise_event :: "string \<Rightarrow> sup_event" where
  "revise_event title =
     event_of ''task_upsert'' [(''id'', VStr ''t1''), (''title'', VStr title), (''start_at'', stamp 3), (''end_at'', stamp 5)]"

definition revise_task :: "string \<Rightarrow> task_row" where
  \<comment> \<open>the task \<open>revise_event\<close> stores\<close>
  "revise_task title = \<lparr>ta_id = ''t1'', ta_course = None, ta_title = title, ta_notes = None, ta_start = 3, ta_end = 5,
     ta_status = ''todo'', ta_origin = ''supervisor'', ta_created = 0, ta_updated = 0\<rparr>"

lemma revise_stored:
  "apply_event digest \<lparr>su_id = (\<lambda>n. ''a''), su_now = (\<lambda>n. 0)\<rparr> (revise_event title) st empty_db =
     Done (st\<lparr>cs_plan_changed := True\<rparr>) (empty_db\<lparr>db_tasks := [revise_task title]\<rparr>)"
  by (simp add: apply_event_def revise_event_def event_of_def task_upsert_def known_course_def iso_datetime_def stamp_def
      instant_of_stamp text_column_def opt_str_def blank_task_def find_row_def empty_db_def revise_task_def hashed_in_def
      TASK_STATUSES_def py_or_def save_task_def Let_def)


text \<open>C26 (error): a supervisor's task whose title is empty or longer than 300 characters is stored, and from then on the
  plan page fails as a whole, for every task and without a filter.\<close>

theorem unfitting_title_breaks_plan:
  assumes "apply_event digest su e st d = Done st' d'" and "se_kind e = ''task_upsert''" and "\<not> title_fits e"
  shows "plan_response None None None None d' = Inl invalid_response
    \<and> (\<exists>t \<in> set (db_tasks d'). \<not> text_within 300 (ta_title t))"
proof -
  have up: "task_upsert su (se_data e) st d = Done st' d'"
    using assms(1,2) by (simp add: apply_event_def)
  obtain t where t: "d' = save_task t d"
    and title: "case map_of (se_data e) ''title'' of Some v \<Rightarrow> ta_title t = py_str v
       | None \<Rightarrow> ta_title t = ''Study task'' \<or> (\<exists>old \<in> set (db_tasks d). ta_title t = ta_title old)"
    using up by (rule task_upsert_stored)
  have long: "\<not> text_within 300 (ta_title t)"
    using title assms(3) by (auto simp: title_fits_def split: option.splits)
  have m: "t \<in> set (db_tasks d')" using t put_row_same by (simp add: save_task_def)
  then have "\<not> list_all task_out_ok (ordered_tasks d')"
    using long by (auto simp: ordered_tasks_def list_all_iff task_out_ok_def)
  then have "plan_response None None None None d' = Inl invalid_response"
    by (simp add: plan_response_def responding_def get_plan_def Let_def)
  then show ?thesis using m long by blast
qed

theorem unfitting_title_breaks_plan_witness:
  "plan_response None None None None (empty_db\<lparr>db_tasks := [revise_task []]\<rparr>) = Inl invalid_response"
  using unfitting_title_breaks_plan [OF revise_stored [of id "[]" "new_chat_state VNone"]]
  by (simp add: revise_event_def event_of_def title_fits_def text_within_def)

end
