(* ===== verification/Adapter.thy ===== *)
theory Adapter
  imports Model
begin

text \<open>
  The boundaries of the backend: the OpenRouter adapter with its retry loop (\<open>backend/config.py\<close>), the
  loading of the supervisor gateway (\<open>backend/supervisor_contract.py\<close>) and the reverse proxy that adds
  the API key (\<open>open_webui/routers/nahaj.py\<close>). What the network answers is the function \<open>post\<close> from
  the number of the attempt to the exchange.
\<close>

section \<open>The model adapter\<close>

definition adapter_messages :: "pyval \<Rightarrow> pyval" where
  \<comment> \<open>\<open>_messages\<close> of a text or of a list of mappings; other objects have no attributes to read here\<close>
  "adapter_messages messages =
     (case messages of
        VStr s \<Rightarrow> VList [VDict [(''role'', VStr ''user''), (''content'', VStr s)]]
      | v \<Rightarrow> VList (map (\<lambda>m. case m of
            VDict d \<Rightarrow> VDict [(''role'', VStr (py_str (py_or (vget d ''role'') (VStr ''user'')))),
              (''content'', VStr (py_str (vget_default d ''content'' (VStr []))))]
          | _ \<Rightarrow> VDict [(''role'', VStr ''user''), (''content'', VStr [])]) (py_iter v)))"

fun strict_json_schema :: "pyval \<Rightarrow> pyval" where
  \<comment> \<open>every object schema requires all its properties and allows no others\<close>
  "strict_json_schema (VDict d) =
     (let r = map (\<lambda>(k, v). (k, strict_json_schema v)) d
      in VDict (case vget r ''properties'' of
           VDict p \<Rightarrow> dict_set ''additionalProperties'' (VBool False)
             (dict_set ''required'' (VList (map (VStr \<circ> fst) p)) r)
         | _ \<Rightarrow> r))"
| "strict_json_schema (VList xs) = VList (map strict_json_schema xs)"
| "strict_json_schema v = v"

definition request_payload :: "string \<Rightarrow> rat \<Rightarrow> pyval \<Rightarrow> pydict option \<Rightarrow> pydict" where
  "request_payload model temperature messages response_format =
     [(''model'', VStr model), (''messages'', adapter_messages messages), (''temperature'', VFloat temperature)] @
     (case response_format of None \<Rightarrow> [] | Some f \<Rightarrow> [(''response_format'', VDict f)])"

text \<open>
  One exchange: the transport fails, or the server answers with a status, whether it is an error, and
  a body that is JSON or not. \<open>Caught\<close> are the exceptions the loop retries after, with their text.
\<close>

record response =
  rs_status :: int
  rs_is_error :: bool
  rs_json :: "string + pyval"

type_synonym exchange = "string + response"

datatype attempt_error = Caught string | Uncaught exn

definition item :: "pyval \<Rightarrow> string \<Rightarrow> attempt_error + pyval" where
  \<comment> \<open>\<open>v[k]\<close> for a text key\<close>
  "item v k =
     (case v of
        VDict d \<Rightarrow> (case map_of d k of Some w \<Rightarrow> Inr w | None \<Rightarrow> Inl (Caught (repr_str k)))
      | _ \<Rightarrow> Inl (Caught ''TypeError''))"

definition first_item :: "pyval \<Rightarrow> attempt_error + pyval" where
  \<comment> \<open>\<open>v[0]\<close>\<close>
  "first_item v =
     (case v of
        VList (x # xs) \<Rightarrow> Inr x
      | VList [] \<Rightarrow> Inl (Caught ''list index out of range'')
      | VStr (c # cs) \<Rightarrow> Inr (VStr [c])
      | VStr [] \<Rightarrow> Inl (Caught ''string index out of range'')
      | VDict d \<Rightarrow> Inl (Caught ''0'')
      | _ \<Rightarrow> Inl (Caught ''TypeError''))"

definition content_of :: "pyval \<Rightarrow> attempt_error + pyval" where
  \<comment> \<open>\<open>message.get("content", "")\<close>; \<open>AttributeError\<close> is not among the exceptions caught\<close>
  "content_of message =
     (case message of
        VDict d \<Rightarrow> Inr (vget_default d ''content'' (VStr []))
      | _ \<Rightarrow> Inl (Uncaught (OtherError ''AttributeError'')))"

definition content_text :: "pyval \<Rightarrow> string" where
  "content_text content =
     (case content of
        VList items \<Rightarrow> concat (map (\<lambda>x. case x of VDict d \<Rightarrow> py_str (vget_default d ''text'' (VStr [])) | v \<Rightarrow> py_str v) items)
      | v \<Rightarrow> py_str v)"

definition error_detail :: "pyval \<Rightarrow> string" where
  \<comment> \<open>\<open>message or "request failed"\<close>\<close>
  "error_detail body =
     (case body of
        VDict d \<Rightarrow> (case vget_default d ''error'' (VDict []) of
            VDict e \<Rightarrow> if truthy (vget e ''message'') then py_str (vget e ''message'') else ''request failed''
          | _ \<Rightarrow> ''request failed'')
      | _ \<Rightarrow> ''request failed'')"

definition read_exchange :: "exchange \<Rightarrow> attempt_error + string" where
  "read_exchange ex =
     (case ex of
        Inl e \<Rightarrow> Inl (Caught e)
      | Inr response \<Rightarrow>
          (case rs_json response of
             Inl e \<Rightarrow> Inl (Caught e)
           | Inr body \<Rightarrow>
               if rs_is_error response
               then Inl (Caught (''OpenRouter returned HTTP '' @ int_str (rs_status response) @ '': '' @ error_detail body))
               else bind_res (item body ''choices'') (\<lambda>choices. bind_res (first_item choices) (\<lambda>choice.
                 bind_res (item choice ''message'') (\<lambda>message. bind_res (content_of message) (\<lambda>content.
                   if strip (content_text content) = [] then Inl (Caught ''OpenRouter returned an empty response.'')
                   else Inr (strip (content_text content))))))))"

fun attempts_from :: "(nat \<Rightarrow> exchange) \<Rightarrow> nat \<Rightarrow> nat \<Rightarrow> string \<Rightarrow> string result \<times> nat" where
  \<comment> \<open>the attempts left, the number of posts made, the text of the last error; the result and the posts in all\<close>
  "attempts_from post 0 n last_error = (Inl (RuntimeError last_error), n)"
| "attempts_from post (Suc left) n last_error =
     (case read_exchange (post n) of
        Inr text \<Rightarrow> (Inr text, Suc n)
      | Inl (Uncaught e) \<Rightarrow> (Inl e, Suc n)
      | Inl (Caught e) \<Rightarrow> attempts_from post left (Suc n) e)"

definition adapter_request :: "(nat \<Rightarrow> exchange) \<Rightarrow> int \<Rightarrow> string result \<times> nat" where
  \<comment> \<open>\<open>_request\<close>: its result and the number of posts\<close>
  "adapter_request post max_retries = attempts_from post (nat (max_retries + 1)) 0 ''OpenRouter request failed.''"

definition adapter_invoke :: "(nat \<Rightarrow> exchange) \<Rightarrow> int \<Rightarrow> reply result" where
  \<comment> \<open>\<open>OpenRouterChatModel.invoke\<close>\<close>
  "adapter_invoke post max_retries =
     map_sum id (\<lambda>text. Mapping_reply [(''content'', VStr text)]) (fst (adapter_request post max_retries))"

text \<open>The settings of the adapter and how it is configured; \<open>validate\<close> is \<open>model_validate_json\<close> of a schema.\<close>

record adapter =
  ad_key :: string
  ad_model :: string
  ad_temperature :: rat
  ad_timeout :: int
  ad_max_retries :: int

definition structured_format :: "string \<Rightarrow> pyval \<Rightarrow> pydict" where
  "structured_format name schema =
     [(''type'', VStr ''json_schema''),
      (''json_schema'', VDict [(''name'', VStr name), (''strict'', VBool True), (''schema'', strict_json_schema schema)])]"

definition structured_invoke ::
  "adapter \<Rightarrow> (pydict \<Rightarrow> nat \<Rightarrow> exchange) \<Rightarrow> string \<Rightarrow> pyval \<Rightarrow> (string \<Rightarrow> 'a result) \<Rightarrow> pyval \<Rightarrow> 'a result"
where
  \<comment> \<open>\<open>_StructuredOpenRouterModel.invoke\<close>\<close>
  "structured_invoke ad post name schema validate messages =
     bind_res (fst (adapter_request
        (post (request_payload (ad_model ad) (ad_temperature ad) messages (Some (structured_format name schema)))) (ad_max_retries ad)))
       validate"

definition make_config :: "(string \<Rightarrow> string option) \<Rightarrow> adapter result" where
  \<comment> \<open>\<open>config.__init__\<close>; \<open>env\<close> is \<open>os.getenv\<close>\<close>
  "make_config env =
     (let given = (\<lambda>k v. case env k of Some t \<Rightarrow> t | None \<Rightarrow> v);
          real = (\<lambda>k v. case parse_float (given k v) of Some x \<Rightarrow> Inr x | None \<Rightarrow> Inl (ValueError ''could not convert string to float''));
          whole = (\<lambda>k v. case parse_int (given k v) of Some n \<Rightarrow> Inr n | None \<Rightarrow> Inl (ValueError ''invalid literal for int()''))
      in if given ''OPENROUTER_API_KEY'' [] = [] \<or> given ''OPENROUTER_MODEL'' [] = []
         then Inl (ValueError ''OPENROUTER_API_KEY and OPENROUTER_MODEL are required.'')
         else bind_res (real ''AGENT_TEMPERATURE'' ''0'') (\<lambda>temperature.
              bind_res (whole ''AGENT_TIMEOUT_SECONDS'' ''45'') (\<lambda>timeout.
              bind_res (whole ''AGENT_MAX_RETRIES'' ''2'') (\<lambda>max_retries.
                Inr \<lparr>ad_key = given ''OPENROUTER_API_KEY'' [], ad_model = given ''OPENROUTER_MODEL'' [],
                  ad_temperature = temperature, ad_timeout = timeout, ad_max_retries = max_retries\<rparr>))))"

section \<open>The supervisor gateway\<close>

text \<open>The gateway in use and the factory path it came from; \<open>load\<close> imports and calls a factory.\<close>

type_synonym 'g loaded = "('g \<times> string) option"

definition get_supervisor ::
  "(string \<Rightarrow> string \<Rightarrow> 'g option) \<Rightarrow> ('g \<Rightarrow> bool) \<Rightarrow> string \<Rightarrow> 'g loaded \<Rightarrow> 'g result \<times> 'g loaded"
where
  "get_supervisor load has_handle env current =
     (let factory_path = strip env
      in if factory_path = [] then
           (Inl (SupervisorUnavailable (''The supervisor gateway is not configured. Set SUPERVISOR_FACTORY to the '' @
              ''agentic system's gateway factory.'')), None)
         else case (case current of Some (g, p) \<Rightarrow> if p = factory_path then Some g else None | None \<Rightarrow> None) of
           Some g \<Rightarrow> (Inr g, current)
         | None \<Rightarrow>
             (case partition_at (CHR '':'') factory_path of
                (module_name, separator, attr_name) \<Rightarrow>
                  if \<not> separator \<or> module_name = [] \<or> attr_name = []
                  then (Inl (SupervisorUnavailable ''SUPERVISOR_FACTORY must use module.path:factory_name''), current)
                  else case load module_name attr_name of
                    None \<Rightarrow> (Inl (SupervisorUnavailable ''The supervisor gateway could not be loaded.''), current)
                  | Some g \<Rightarrow>
                      if has_handle g then (Inr g, Some (g, factory_path))
                      else (Inl (SupervisorUnavailable ''The supervisor gateway must expose an async handle method.''), current)))"

section \<open>The reverse proxy\<close>

definition hop_by_hop :: "string list" where
  "hop_by_hop =
     [''connection'', ''keep-alive'', ''proxy-authenticate'', ''proxy-authorization'', ''te'', ''trailers'',
      ''transfer-encoding'', ''upgrade'', ''content-length'']"

definition upstream_url :: "string \<Rightarrow> string \<Rightarrow> string \<Rightarrow> string" where
  \<comment> \<open>\<open>base_url\<close> is \<open>NAHAJ_API_URL\<close>\<close>
  "upstream_url base_url path query =
     (let base = rev (dropWhile (\<lambda>c. c = CHR ''/'') (rev base_url));
          url = base @ ''/'' @ dropWhile (\<lambda>c. c = CHR ''/'') path
      in if query = [] then url else url @ ''?'' @ query)"

type_synonym headers = "(string, string) dict"

definition forward_headers :: "string \<Rightarrow> (string \<times> string) list \<Rightarrow> headers" where
  "forward_headers key items =
     (let kept = foldl (\<lambda>d (name, value).
            if casefold name \<in> set [''host'', ''authorization'', ''content-length''] then d else dict_set name value d) [] items
      in if key = [] then kept else dict_set ''Authorization'' (''Bearer '' @ key) kept)"

definition response_headers :: "(string \<times> string) list \<Rightarrow> headers" where
  "response_headers items =
     foldl (\<lambda>d (name, value). if casefold name \<in> set hop_by_hop then d else dict_set name value d) [] items"

text \<open>One request through the proxy; \<open>send\<close> is the exchange with the API, \<open>None\<close> when it raises.\<close>

record proxy_request =
  px_method :: string
  px_url :: string
  px_headers :: headers
  px_body :: string

record upstream =
  up_status :: int
  up_headers :: "(string \<times> string) list"
  up_chunks :: "string list"

datatype resource = Client | Upstream

definition proxy ::
  "string \<Rightarrow> string \<Rightarrow> (proxy_request \<Rightarrow> upstream option) \<Rightarrow> string \<Rightarrow> string \<Rightarrow> string \<Rightarrow> (string \<times> string) list \<Rightarrow> string
    \<Rightarrow> (int \<times> headers \<times> string list) option \<times> resource list"
where
  \<comment> \<open>the answer, \<open>None\<close> when the exchange raised, and what is closed after it, in order\<close>
  "proxy base_url key send verb path query items body =
     (case send \<lparr>px_method = verb, px_url = upstream_url base_url path query, px_headers = forward_headers key items, px_body = body\<rparr> of
        None \<Rightarrow> (None, [Client])
      | Some u \<Rightarrow> (Some (up_status u, response_headers (up_headers u), up_chunks u), [Upstream, Client]))"

section \<open>Properties\<close>

lemma attempts_from_spec:
  assumes "attempts_from post left n err = (r, m)"
  shows "n \<le> m \<and> m \<le> n + left \<and> (\<forall>k. n \<le> k \<and> Suc k < m \<longrightarrow> (\<exists>e. read_exchange (post k) = Inl (Caught e))) \<and>
    (case r of
       Inr text \<Rightarrow> n < m \<and> read_exchange (post (m - 1)) = Inr text
     | Inl e \<Rightarrow> (n < m \<and> read_exchange (post (m - 1)) = Inl (Uncaught e)) \<or>
         (m = n + left \<and> (\<forall>k. n \<le> k \<and> k < m \<longrightarrow> (\<exists>e. read_exchange (post k) = Inl (Caught e)))))"
  using assms
proof (induction post left n err rule: attempts_from.induct)
  case (2 post left n err)
  show ?case
  proof (cases "read_exchange (post n)")
    case (Inr reply)
    then show ?thesis using 2(2) by auto
  next
    case (Inl a)
    show ?thesis
    proof (cases a)
      case (Caught e)
      have ih: "attempts_from post left (Suc n) e = (r, m)" using 2(2) Inl Caught by simp
      have here: "\<exists>e. read_exchange (post n) = Inl (Caught e)" using Inl Caught by blast
      have split: "n \<le> k \<longleftrightarrow> k = n \<or> Suc n \<le> k" for k by auto
      show ?thesis
        using 2(1) [OF Inl Caught ih] here unfolding split by (cases r) auto
    next
      case (Uncaught e)
      then show ?thesis using 2(2) Inl by auto
    qed
  qed
qed auto

lemma read_exchange_text: "read_exchange ex = Inr text \<Longrightarrow> text \<noteq> [] \<and> strip text = text"
  by (auto simp: read_exchange_def bind_res_Inr strip_idem split: sum.splits if_splits)


definition answering :: "pyval \<Rightarrow> exchange" where
  \<comment> \<open>a response with this content\<close>
  "answering content = Inr \<lparr>rs_status = 200, rs_is_error = False, rs_json = Inr (VDict [(''choices'', VList [VDict
     [(''message'', VDict [(''content'', content)])]])])\<rparr>"


text \<open>A \<open>null\<close> content, which a model sends with a refusal or a tool call, is not taken for an empty response.\<close>

lemma null_content_is_text:
  "read_exchange (answering VNone) = Inr ''None''"
  by code_simp

lemma dict_set_filter:
  "filter (\<lambda>(k, v). P k) (dict_set k v d) = (if P k then dict_set k v (filter (\<lambda>(k, v). P k) d) else filter (\<lambda>(k, v). P k) d)"
  by (induction k v d rule: dict_set.induct) auto

lemma forwarded_kept:
  "filter (\<lambda>(k, v). casefold k = ''authorization'')
     (foldl (\<lambda>d (name, value). if casefold name \<in> set [''host'', ''authorization'', ''content-length''] then d else dict_set name value d) acc items)
   = filter (\<lambda>(k, v). casefold k = ''authorization'') acc"
  by (induction items arbitrary: acc) (auto simp: dict_set_filter [of "\<lambda>k. casefold k = ''authorization''"])

text \<open>C28 (safety): the proxy never passes the credentials of the browser on: whatever headers a request carries, in any
  spelling, the API receives the server's key as the only authorization, and none when no key is set.\<close>

theorem browser_credentials_replaced:
  "filter (\<lambda>(k, v). casefold k = ''authorization'') (forward_headers key items)
     = (if key = [] then [] else [(''Authorization'', ''Bearer '' @ key)])"
proof -
  have "casefold ''Authorization'' = ''authorization''" by code_simp
  then show ?thesis
    by (simp add: forward_headers_def Let_def forwarded_kept [of "[]", simplified]
        dict_set_filter [of "\<lambda>k. casefold k = ''authorization''"])
qed

text \<open>The schema handed to the model is closed once and for all.\<close>

lemma map_of_strict: "map_of (map (\<lambda>(k, v). (k, strict_json_schema v)) d) k = map_option strict_json_schema (map_of d k)"
  by (induction d) auto

lemma strict_schema_closed:
  assumes "strict_json_schema (VDict d) = VDict e" "map_of d ''properties'' = Some (VDict p)" "map_of p ''properties'' = None"
  shows "map_of e ''additionalProperties'' = Some (VBool False)
    \<and> map_of e ''required'' = Some (VList (map (VStr \<circ> fst) p))"
  using assms by (auto simp: Let_def vget_def map_of_strict comp_def case_prod_beta)

end
