(* ===== verification/Embedding.thy ===== *)
theory Embedding
  imports PyFloat PyRegex "HOL-Library.Multiset"
begin

text \<open>
  \<open>LocalHashEmbeddingFunction\<close> of \<open>backend/rag_ingestion.py\<close>: a text becomes a vector of 256 floats, every
  word adding or subtracting one at the position its BLAKE2b digest selects, divided by the vector's
  length. The digest is the parameter \<open>blake2b\<close> from a word to the eight bytes as a number.
\<close>

section \<open>Square roots\<close>

function isqrt :: "nat \<Rightarrow> nat" where
  "isqrt n = (if n = 0 then 0 else let r = 2 * isqrt (n div 4) in if (r + 1) * (r + 1) \<le> n then r + 1 else r)"
  by pat_completeness auto
termination by (relation "measure id") auto

declare isqrt.simps [simp del]

definition math_sqrt :: "rat \<Rightarrow> rat" where
  \<comment> \<open>\<open>math.sqrt\<close> of 0 and of numbers from 1 on: sixty binary places and the mark of a remainder decide the rounding\<close>
  "math_sqrt x =
     (let n = nat \<lfloor>x * 4 ^ 60\<rfloor>; r = isqrt n
      in fl64 ((of_nat r + (if of_nat (r * r) = x * 4 ^ 60 then 0 else 1 / 2)) / 2 ^ 60))"

lemma isqrt_bounds: "isqrt n * isqrt n \<le> n \<and> n < (isqrt n + 1) * (isqrt n + 1)"
proof (induction n rule: isqrt.induct)
  case (1 n)
  show ?case
  proof (cases "n = 0")
    case False
    define r where "r = 2 * isqrt (n div 4)"
    have s: "isqrt n = (if (r + 1) * (r + 1) \<le> n then r + 1 else r)"
      using False by (subst isqrt.simps) (simp add: Let_def r_def)
    have "isqrt (n div 4) * isqrt (n div 4) \<le> n div 4" "n div 4 < (isqrt (n div 4) + 1) * (isqrt (n div 4) + 1)"
      using 1 False by auto
    then have "4 * (isqrt (n div 4) * isqrt (n div 4)) \<le> n" "n < 4 * ((isqrt (n div 4) + 1) * (isqrt (n div 4) + 1))"
      by linarith+
    then have "r * r \<le> n" "n < (r + 2) * (r + 2)" by (simp_all add: r_def algebra_simps)
    then show ?thesis by (auto simp: s)
  qed (simp add: isqrt.simps)
qed

lemma isqrt_ge: "k * k \<le> n \<Longrightarrow> k \<le> isqrt n"
  using isqrt_bounds [of n] mult_le_mono [of "isqrt n + 1" k "isqrt n + 1" k] by fastforce

lemma math_sqrt_ge:
  assumes "of_int (k * k) \<le> x" "0 \<le> k" "k < 2 ^ 53"
  shows "of_int k \<le> math_sqrt x"
proof -
  define n where "n = nat \<lfloor>x * 4 ^ 60\<rfloor>"
  have "of_int (k * k * 4 ^ 60) \<le> x * 4 ^ 60"
    using assms(1) by (simp add: mult_right_mono)
  then have "k * k * 4 ^ 60 \<le> \<lfloor>x * 4 ^ 60\<rfloor>" by (simp only: le_floor_iff)
  moreover have "int ((nat k * 2 ^ 60) * (nat k * 2 ^ 60)) = k * k * 4 ^ 60"
    using assms(2) by simp
  ultimately have "(nat k * 2 ^ 60) * (nat k * 2 ^ 60) \<le> n" unfolding n_def by linarith
  then have "nat k * 2 ^ 60 \<le> isqrt n" by (rule isqrt_ge)
  then have "of_nat (nat k * 2 ^ 60) \<le> (of_nat (isqrt n) :: rat)" by (simp only: of_nat_le_iff)
  then have "of_int k * 2 ^ 60 \<le> (of_nat (isqrt n) :: rat)" using assms(2) by simp
  then have "of_int k \<le> (of_nat (isqrt n) + (if of_nat (isqrt n * isqrt n) = x * 4 ^ 60 then 0 else 1 / 2)) / (2 ^ 60 :: rat)"
    by (subst pos_le_divide_eq) (auto intro: add_increasing2)
  then show ?thesis
    using fl64_ge_of_int [of k] assms(2,3) by (simp add: math_sqrt_def n_def Let_def)
qed

section \<open>The embedding\<close>

definition dimensions :: nat where
  "dimensions = 256"

definition word_tokens :: "string \<Rightarrow> string list" where
  \<comment> \<open>\<open>re.findall(r"\w+", text.casefold())\<close>\<close>
  "word_tokens text = rx_findall (many1 (Chr WordC)) (casefold text)"

definition position :: "nat \<Rightarrow> nat" where
  "position digest = (digest div 2) mod dimensions"

definition sign_of :: "nat \<Rightarrow> int" where
  "sign_of digest = (if odd digest then -1 else 1)"

definition add_token :: "(string \<Rightarrow> nat) \<Rightarrow> rat list \<Rightarrow> string \<Rightarrow> rat list" where
  "add_token blake2b vector token =
     (let i = position (blake2b token) in vector[i := fadd (vector ! i) (of_int (sign_of (blake2b token)))])"

definition token_vector :: "(string \<Rightarrow> nat) \<Rightarrow> string list \<Rightarrow> rat list" where
  "token_vector blake2b ts = foldl (add_token blake2b) (replicate dimensions 0) ts"

definition magnitude :: "rat list \<Rightarrow> rat" where
  \<comment> \<open>\<open>sqrt(sum(value * value for value in vector)) or 1.0\<close>\<close>
  "magnitude vector =
     (let squares = map (\<lambda>v. fmul v v) vector; m = math_sqrt (float_sum_from (hd squares) 0 (tl squares))
      in if m = 0 then 1 else m)"

definition embed :: "(string \<Rightarrow> nat) \<Rightarrow> string \<Rightarrow> rat list" where
  "embed blake2b text =
     (let vector = token_vector blake2b (word_tokens text) in map (\<lambda>v. fdiv v (magnitude vector)) vector)"

section \<open>What it computes\<close>

text \<open>Sums of fewer than \<open>2 ^ 53\<close> signs are exact, so the order of the words does not matter.\<close>

definition weight :: "(string \<Rightarrow> nat) \<Rightarrow> nat \<Rightarrow> string \<Rightarrow> int" where
  "weight blake2b i token = (if position (blake2b token) = i then sign_of (blake2b token) else 0)"

lemma weight_bound: "\<bar>weight b i t\<bar> \<le> 1"
  by (simp add: weight_def sign_of_def)

lemma weights_bound: "\<bar>\<Sum>t\<leftarrow>ts. weight b i t\<bar> \<le> int (length ts)"
proof (induction ts)
  case (Cons t ts)
  then show ?case using weight_bound [of b i t] by simp
qed simp

lemma fadd_of_int: "\<bar>a + b\<bar> < 2 ^ 53 \<Longrightarrow> fadd (of_int a) (of_int b) = of_int (a + b)"
  using fl64_of_int [of "a + b"] by (simp add: fadd_def)

lemma token_vector_exact:
  assumes "length ts < 2 ^ 53"
  shows "token_vector b ts = map (\<lambda>i. of_int (\<Sum>t\<leftarrow>ts. weight b i t)) [0..<dimensions]"
  using assms
proof (induction ts rule: rev_induct)
  case Nil
  show ?case by (simp add: token_vector_def map_replicate_const)
next
  case (snoc t ts)
  let ?v = "map (\<lambda>i. of_int (\<Sum>t\<leftarrow>ts. weight b i t)) [0..<dimensions] :: rat list"
  have p: "position (b t) < dimensions" by (simp add: position_def dimensions_def)
  have "\<bar>(\<Sum>u\<leftarrow>ts. weight b (position (b t')) u) + sign_of (b t')\<bar> < 2 ^ 53" for t'
  proof -
    have "int (length ts) + 1 < 2 ^ 53" using snoc.prems by simp
    then show ?thesis using weights_bound [of b "position (b t')" ts] unfolding sign_of_def by (auto split: if_splits)
  qed
  then have "fadd (?v ! position (b t)) (of_int (sign_of (b t))) = of_int ((\<Sum>u\<leftarrow>ts. weight b (position (b t)) u) + sign_of (b t))"
    using p by (subst fadd_of_int [symmetric]) simp_all
  moreover have "token_vector b (ts @ [t]) = add_token b ?v t"
    using snoc.IH snoc.prems by (simp add: token_vector_def)
  ultimately show ?case
    using p by (auto simp: add_token_def Let_def weight_def intro!: nth_equalityI simp: nth_list_update)
qed

lemma sum_list_mset: "mset xs = mset ys \<Longrightarrow> (\<Sum>x\<leftarrow>xs. f x) = (\<Sum>y\<leftarrow>ys. f y :: int)"
  by (metis mset_map sum_mset_sum_list)

lemma token_vector_perm:
  assumes "mset ts = mset us" "length ts < 2 ^ 53"
  shows "token_vector b ts = token_vector b us"
proof -
  have "length us = length ts" using mset_eq_length [OF assms(1)] by simp
  then show ?thesis
    using token_vector_exact [of ts b] token_vector_exact [of us b] assms(2)
      sum_list_mset [OF assms(1), of "weight b i" for i] by simp
qed

text \<open>The squared length is an exact integer when there are fewer than \<open>2 ^ 26\<close> words.\<close>

lemma float_sum_exact:
  assumes "list_all (\<lambda>k. 0 \<le> k) ks" "0 \<le> a" "a + sum_list ks < 2 ^ 53"
  shows "float_sum_from (of_int a) 0 (map of_int ks) = of_int (a + sum_list ks)"
  using assms
proof (induction ks arbitrary: a)
  case (Cons k ks)
  have k: "0 \<le> k" "0 \<le> sum_list ks" using Cons.prems(1) by (auto simp: list_all_iff intro!: sum_list_nonneg)
  then have t: "fadd (of_int a) (of_int k) = of_int (a + k)"
    using Cons.prems by (intro fadd_of_int) auto
  have "fsub (of_int a) (of_int (a + k)) = - of_int k" "fsub (of_int k) (of_int (a + k)) = - of_int a"
    using fl64_of_int [of "- k"] fl64_of_int [of "- a"] k Cons.prems(2,3) by (simp_all add: fsub_def)
  then have "fadd (fsub (of_int a) (of_int (a + k))) (of_int k) = 0" "fadd (fsub (of_int k) (of_int (a + k))) (of_int a) = 0"
    by (simp_all add: fadd_def)
  then show ?case
    using Cons.IH [of "a + k"] Cons.prems k t by (simp add: Let_def fadd_def add.assoc)
qed simp

lemma embed_length [simp]: "length (embed b text) = dimensions"
proof -
  have "length (token_vector b ts) = dimensions" for ts
    by (induction ts rule: rev_induct) (simp_all add: token_vector_def add_token_def Let_def)
  then show ?thesis by (simp add: embed_def Let_def)
qed

lemma weights_total: "(\<Sum>i<dimensions. \<bar>\<Sum>t\<leftarrow>ts. weight b i t\<bar>) \<le> int (length ts)"
proof (induction ts)
  case (Cons t ts)
  have "(\<Sum>i<dimensions. \<bar>weight b i t\<bar>) = (\<Sum>i<dimensions. if position (b t) = i then 1 else 0)"
    by (intro sum.cong) (simp_all add: weight_def sign_of_def)
  also have "\<dots> = 1" using mod_less_divisor [of 256 "b t div 2"] by (simp add: position_def dimensions_def)
  finally have one: "(\<Sum>i<dimensions. \<bar>weight b i t\<bar>) = 1" .
  have "(\<Sum>i<dimensions. \<bar>\<Sum>t\<leftarrow>t # ts. weight b i t\<bar>)
      \<le> (\<Sum>i<dimensions. \<bar>weight b i t\<bar> + \<bar>\<Sum>t\<leftarrow>ts. weight b i t\<bar>)"
    by (intro sum_mono) simp
  then show ?case using Cons one by (simp add: sum.distrib)
qed simp

lemma squares_total:
  assumes "length ts < 2 ^ 26"
  shows "(\<Sum>i<dimensions. (\<Sum>t\<leftarrow>ts. weight b i t) * (\<Sum>t\<leftarrow>ts. weight b i t)) < 2 ^ 53"
proof -
  let ?w = "\<lambda>i. \<Sum>t\<leftarrow>ts. weight b i t" and ?n = "int (length ts)"
  have "(\<Sum>i<dimensions. ?w i * ?w i) \<le> (\<Sum>i<dimensions. ?n * \<bar>?w i\<bar>)"
  proof (intro sum_mono)
    fix i
    have "?w i * ?w i = \<bar>?w i\<bar> * \<bar>?w i\<bar>" by simp
    also have "\<dots> \<le> ?n * \<bar>?w i\<bar>" by (intro mult_right_mono weights_bound) simp
    finally show "?w i * ?w i \<le> ?n * \<bar>?w i\<bar>" .
  qed
  also have "\<dots> = ?n * (\<Sum>i<dimensions. \<bar>?w i\<bar>)" by (simp add: sum_distrib_left)
  also have "\<dots> \<le> ?n * ?n" by (intro mult_left_mono weights_total) simp
  also have "\<dots> \<le> 2 ^ 26 * 2 ^ 26" using assms by (intro mult_mono) auto
  finally show ?thesis by simp
qed

lemma magnitude_ge:
  assumes "length ts < 2 ^ 26" and "v \<in> set (token_vector b ts)"
  shows "\<bar>v\<bar> \<le> magnitude (token_vector b ts)"
proof -
  define ws where "ws = map (\<lambda>i. \<Sum>t\<leftarrow>ts. weight b i t) [0..<dimensions]"
  let ?sq = "map (\<lambda>w. w * w) ws"
  have vec: "token_vector b ts = map of_int ws"
    using token_vector_exact [of ts b] assms(1) by (simp add: ws_def comp_def)
  have total: "sum_list ?sq < 2 ^ 53"
    using squares_total [OF assms(1), of b]
    by (simp add: ws_def comp_def interv_sum_list_conv_sum_set_nat lessThan_atLeast0)
  have small: "w * w \<le> sum_list ?sq" if "w \<in> set ws" for w
    using that by (intro member_le_sum_list) auto
  have sq: "map (\<lambda>v. fmul v v) (token_vector b ts) = map of_int ?sq"
  proof -
    have "fmul (of_int w) (of_int w) = of_int (w * w)" if "w \<in> set ws" for w
      using fl64_of_int [of "w * w"] small [OF that] total by (simp add: fmul_def)
    then show ?thesis by (simp add: vec)
  qed
  obtain k ks where c: "?sq = k # ks" by (cases ws) (auto simp: ws_def dimensions_def)
  have nonneg: "list_all (\<lambda>k. 0 \<le> k) (k # ks)" unfolding c [symmetric] by (simp add: list_all_iff)
  then have "float_sum_from (of_int k) 0 (map of_int ks) = of_int (k + sum_list ks)"
    using total c by (intro float_sum_exact) auto
  then have mag: "magnitude (token_vector b ts) =
      (if math_sqrt (of_int (sum_list ?sq)) = 0 then 1 else math_sqrt (of_int (sum_list ?sq)))"
    by (simp add: magnitude_def Let_def sq c)
  obtain w where w: "w \<in> set ws" "v = of_int w" using assms(2) by (auto simp: vec)
  have "w * w < 2 ^ 53" using small [OF w(1)] total by linarith
  then have "\<bar>w\<bar> < 2 ^ 53"
    using mult_mono [of "2 ^ 53" "\<bar>w\<bar>" "2 ^ 53" "\<bar>w\<bar>"] by (cases "\<bar>w\<bar> < 2 ^ 53") auto
  then have "of_int \<bar>w\<bar> \<le> math_sqrt (of_int (sum_list ?sq))"
    using small [OF w(1)] by (intro math_sqrt_ge) (simp_all flip: of_int_mult)
  then show ?thesis using mag w(2) by auto
qed

lemma magnitude_pos: "length ts < 2 ^ 26 \<Longrightarrow> 0 < magnitude (token_vector b ts)"
proof -
  assume a: "length ts < 2 ^ 26"
  have "token_vector b ts \<noteq> []"
    using token_vector_exact [of ts b] a by (simp add: dimensions_def)
  then obtain v where "v \<in> set (token_vector b ts)" by (meson list.set_sel(1))
  then have "0 \<le> magnitude (token_vector b ts)" using magnitude_ge [OF a] by (meson abs_ge_zero order_trans)
  moreover have "magnitude (token_vector b ts) \<noteq> 0" by (simp add: magnitude_def Let_def)
  ultimately show ?thesis by simp
qed

text \<open>C24 (equivalence): the embedding of a text of fewer than \<open>2 ^ 26\<close> words depends on its words and how often they
  occur, not on their order, and is a vector of 256 numbers between -1 and 1.\<close>

theorem embedding_is_bag_of_words:
  assumes "mset (word_tokens s) = mset (word_tokens t)" and "length (word_tokens s) < 2 ^ 26"
  shows "embed blake2b s = embed blake2b t \<and> length (embed blake2b s) = 256
    \<and> list_all (\<lambda>x. \<bar>x\<bar> \<le> 1) (embed blake2b s)"
proof (intro conjI)
  show "embed blake2b s = embed blake2b t"
    using token_vector_perm [OF assms(1)] assms(2) by (simp add: embed_def)
  show "length (embed blake2b s) = 256" by (simp add: dimensions_def)
  have "\<bar>fdiv v (magnitude (token_vector blake2b (word_tokens s)))\<bar> \<le> 1"
    if v: "v \<in> set (token_vector blake2b (word_tokens s))" for v
  proof -
    let ?m = "magnitude (token_vector blake2b (word_tokens s))"
    have "\<bar>v / ?m\<bar> \<le> 1"
      using magnitude_ge [OF assms(2) v] magnitude_pos [OF assms(2), of blake2b] by (simp add: abs_divide)
    then have "v / ?m \<le> 1" "- 1 \<le> v / ?m" unfolding abs_le_iff by linarith+
    then show ?thesis
      using fl64_le_of_int [of "v / ?m" 1] fl64_ge_of_int [of "-1" "v / ?m"] by (simp add: fdiv_def abs_le_iff)
  qed
  then show "list_all (\<lambda>x. \<bar>x\<bar> \<le> 1) (embed blake2b s)" by (auto simp: embed_def Let_def list_all_iff)
qed

theorem embedding_is_bag_of_words_witness:
  "embed (\<lambda>w. 3 * length w) ''Red black tree'' = embed (\<lambda>w. 3 * length w) ''tree, black-red!''"
proof -
  have "word_tokens ''Red black tree'' = [''red'', ''black'', ''tree'']"
    "word_tokens ''tree, black-red!'' = [''tree'', ''black'', ''red'']"
    by code_simp+
  then show ?thesis
    using embedding_is_bag_of_words [of "''Red black tree''" "''tree, black-red!''" "\<lambda>w. 3 * length w"] by simp
qed

end
