(* ===== verification/Readers.thy ===== *)
theory Readers
  imports RagIngestion PyPath "HOL-Library.Multiset"
begin

text \<open>
  How the text of an uploaded file is read (\<open>CourseIngestor._read_document\<close>, \<open>_read_office_xml\<close>) and how
  many slides or pages it has (\<open>_slide_count\<close> of \<open>backend/main.py\<close>). A package is the list of its entries
  with the element tree of each (\<open>None\<close> where it is not well-formed XML). Decoding a text file, unpacking
  a package and reading the pages of a PDF are parameters.
\<close>

section \<open>Office packages\<close>

datatype xml = Element (xml_tag: string) (xml_text: "string option") (xml_children: "xml list")

fun iter_elements :: "xml \<Rightarrow> xml list" where
  \<comment> \<open>\<open>root.iter()\<close>: the element and its descendants in document order\<close>
  "iter_elements (Element t s cs) = Element t s cs # concat (map iter_elements cs)"

type_synonym package = "(string \<times> xml option) list"

definition local_name :: "string \<Rightarrow> string" where
  \<comment> \<open>\<open>tag.rsplit("}", 1)[-1]\<close>\<close>
  "local_name tag = rev (takeWhile (\<lambda>c. c \<noteq> CHR ''}'') (rev tag))"

definition text_runs :: "xml \<Rightarrow> string list" where
  \<comment> \<open>the words of one part: the stripped text of its text elements\<close>
  "text_runs part =
     concat (map (\<lambda>e. case xml_text e of
         Some t \<Rightarrow> if local_name (xml_tag e) \<in> set [''t'', ''instrText''] \<and> strip t \<noteq> [] then [strip t] else []
       | None \<Rightarrow> []) (iter_elements part))"

definition slide_rx :: rx where
  \<comment> \<open>\<open>ppt/slides/slide\d+\.xml\<close>\<close>
  "slide_rx = seqs [lit ''ppt/slides/slide'', many1 (Chr DigitC), lit ''.xml'']"

definition is_slide :: "string \<Rightarrow> bool" where
  "is_slide name = rx_fullmatch slide_rx name"

definition slide_number :: "string \<Rightarrow> int" where
  \<comment> \<open>\<open>int(re.search(r"(\d+)", name).group(1))\<close>\<close>
  "slide_number name =
     (case rx_findall (many1 (Chr DigitC)) name of
        [] \<Rightarrow> 0 | ds # _ \<Rightarrow> (case parse_int ds of Some n \<Rightarrow> n | None \<Rightarrow> 0))"

definition part_names :: "string \<Rightarrow> string list \<Rightarrow> string list" where
  "part_names sfx names =
     (if sfx = ''.docx'' then filter (\<lambda>n. n = ''word/document.xml'') names
      else sort_key slide_number (filter is_slide names))"

definition read_part :: "package \<Rightarrow> string \<Rightarrow> xml option" where
  \<comment> \<open>\<open>archive.read(name)\<close> takes the last entry of that name\<close>
  "read_part p name = (case map_of (rev p) name of Some x \<Rightarrow> x | None \<Rightarrow> None)"

definition read_office_xml :: "package option \<Rightarrow> string \<Rightarrow> string" where
  \<comment> \<open>empty when the file is no package or a part is not well-formed\<close>
  "read_office_xml archive sfx =
     (case archive of
        None \<Rightarrow> []
      | Some p \<Rightarrow>
          (let parts = map (read_part p) (part_names sfx (map fst p))
           in if None \<in> set parts then []
              else join [newline, newline]
                     (map (join '' '') (filter (\<lambda>ws. ws \<noteq> []) (map (text_runs \<circ> the) parts)))))"

section \<open>Files\<close>

record readers =
  rd_file :: "string \<Rightarrow> string option"               \<comment> \<open>the bytes of the file at a path, if it is one\<close>
  rd_decode :: "string \<Rightarrow> string"                    \<comment> \<open>UTF-8, errors ignored\<close>
  rd_pages :: "string \<Rightarrow> string list option"         \<comment> \<open>the pages of a PDF; \<open>None\<close> when the reader raises\<close>
  rd_package :: "string \<Rightarrow> package option"

definition file_text :: "readers \<Rightarrow> string \<Rightarrow> string" where
  "file_text rd path =
     (case rd_file rd path of
        None \<Rightarrow> []
      | Some content \<Rightarrow>
          (let sfx = casefold (path_suffix path)
           in if sfx \<in> set [''.txt'', ''.md'', ''.markdown'', ''.html'', ''.htm''] then rd_decode rd content
              else if sfx = ''.pdf'' then
                (case rd_pages rd content of None \<Rightarrow> [] | Some pages \<Rightarrow> join [newline, newline] pages)
              else if sfx \<in> set [''.docx'', ''.pptx''] then read_office_xml (rd_package rd content) sfx
              else []))"

definition read_course_document :: "readers \<Rightarrow> pydict \<Rightarrow> string" where
  \<comment> \<open>\<open>_read_document\<close> with its file readers\<close>
  "read_course_document rd document = read_document (file_text rd) document"

definition slide_count :: "readers \<Rightarrow> string \<Rightarrow> int option" where
  \<comment> \<open>\<open>_slide_count\<close> of a stored path\<close>
  "slide_count rd path =
     (case rd_file rd path of
        None \<Rightarrow> None
      | Some content \<Rightarrow>
          (let sfx = casefold (path_suffix path)
           in if sfx = ''.pptx'' then
                map_option (\<lambda>p. int (length (filter is_slide (map fst p)))) (rd_package rd content)
              else if sfx = ''.pdf'' then map_option (\<lambda>pages. int (length pages)) (rd_pages rd content)
              else None))"

section \<open>Opening a collection\<close>

text \<open>The Chroma client, over the handles \<open>'c\<close> of collections; deleting and creating again is \<open>cl_recreate\<close>.\<close>

record 'c client =
  cl_get_or_create :: "string \<Rightarrow> 'c result"
  cl_get :: "string \<Rightarrow> 'c result"
  cl_count :: "'c \<Rightarrow> nat"
  cl_recreate :: "string \<Rightarrow> 'c result"

definition open_collection :: "'c client \<Rightarrow> string \<Rightarrow> 'c result" where
  \<comment> \<open>\<open>CourseIngestor.collection\<close>: an empty collection made with another embedding is made anew\<close>
  "open_collection client course_id =
     (let name = collection_name course_id
      in case cl_get_or_create client name of
           Inl (ValueError message) \<Rightarrow>
             if \<not> contains ''embedding function conflict'' (casefold message) then Inl (ValueError message)
             else bind_res (cl_get client name) (\<lambda>existing.
               if cl_count client existing \<noteq> 0 then Inl (ValueError message) else cl_recreate client name)
         | r \<Rightarrow> r)"

lemma open_collection_keeps_rows:
  assumes "cl_get client (collection_name course_id) = Inr c" "cl_count client c \<noteq> 0"
  shows "open_collection (client\<lparr>cl_recreate := f\<rparr>) course_id = open_collection (client\<lparr>cl_recreate := g\<rparr>) course_id"
  using assms by (simp add: open_collection_def Let_def split: sum.splits exn.splits)

section \<open>The order of slides\<close>

lemma sort_key_perm:
  assumes "mset xs = mset ys" "inj_on f (set xs)" "distinct xs"
  shows "sort_key f xs = sort_key f ys"
proof -
  have set: "set ys = set xs" using mset_eq_setD [OF assms(1)] by simp
  have "map f (sort_key f xs) = map f (sort_key f ys)"
    by (rule sorted_distinct_set_unique)
      (use assms set mset_eq_imp_distinct_iff [OF assms(1)] in \<open>auto simp: distinct_map\<close>)
  then show ?thesis
    by (rule map_inj_on) (use assms(2) set in simp)
qed

lemma read_part_perm:
  assumes "mset p = mset q" "distinct (map fst p)"
  shows "read_part p = read_part q"
proof -
  have "mset (map fst p) = mset (map fst q)" using assms(1) by simp
  then have d: "distinct (map fst q)" using assms(2) mset_eq_imp_distinct_iff by blast
  have "map_of (rev p) = map_of (rev q)"
    using assms d mset_eq_setD [OF assms(1)] by (intro map_of_eqI) (auto simp: rev_map [symmetric] map_of_eq_Some_iff)
  then show ?thesis by (simp add: read_part_def fun_eq_iff)
qed

text \<open>The slides of a presentation are read by their number, in whatever order the package lists them.\<close>

theorem slides_read_by_number:
  assumes "mset p = mset q" and "distinct (map fst p)" and "inj_on slide_number (set (filter is_slide (map fst p)))"
  shows "read_office_xml (Some p) ''.pptx'' = read_office_xml (Some q) ''.pptx''"
proof -
  have "mset (filter is_slide (map fst p)) = mset (filter is_slide (map fst q))"
    using assms(1) by (metis mset_filter mset_map)
  then have "part_names ''.pptx'' (map fst p) = part_names ''.pptx'' (map fst q)"
    using sort_key_perm [OF _ assms(3) distinct_filter [OF assms(2)]] by (simp add: part_names_def)
  then show ?thesis
    using read_part_perm [OF assms(1,2)] by (simp add: read_office_xml_def)
qed

lemma slides_10_after_2:
  "part_names ''.pptx'' [''ppt/slides/slide10.xml'', ''ppt/media/a.png'', ''ppt/slides/slide2.xml'', ''ppt/slides/_rels/slide2.xml.rels'']
     = [''ppt/slides/slide2.xml'', ''ppt/slides/slide10.xml'']"
  by code_simp

end
