(* ===== verification/Streaming.thy ===== *)
theory Streaming
  imports PyText
begin

text \<open>
  The stream a chat answer travels through on its way from the provider to the browser
  (\<open>stream_chunks_handler\<close> of \<open>utils/misc.py\<close> in Open WebUI): network chunks are reassembled to
  lines, and lines over a limit are dropped without being buffered. Bytes are characters; the
  generator is the list of what it yields.
\<close>

section \<open>Splitting at newlines\<close>

text \<open>\<open>data.split(b'\n')\<close>: one part more than there are newlines.\<close>

fun split_newline :: "string \<Rightarrow> string list" where
  "split_newline [] = [[]]"
| "split_newline (c # cs) =
     (if c = newline then [] # split_newline cs
      else (c # hd (split_newline cs)) # tl (split_newline cs))"

lemma split_newline_neq_Nil [simp]: "split_newline s \<noteq> []"
  by (cases s) auto

lemma split_newline_single: "newline \<notin> set s \<Longrightarrow> split_newline s = [s]"
  by (induction s) auto

lemma split_newline_append:
  "split_newline (s @ t) =
     butlast (split_newline s) @ (last (split_newline s) @ hd (split_newline t)) # tl (split_newline t)"
proof (induction s)
  case (Cons c s)
  obtain l ls where s: "split_newline s = l # ls"
    using split_newline_neq_Nil [of s] by (meson neq_Nil_conv)
  show ?case
    using Cons s by (cases ls) auto
qed simp

lemma newline_last_split: "newline \<notin> set (last (split_newline s))"
proof (induction s)
  case (Cons c s)
  obtain l ls where "split_newline s = l # ls"
    using split_newline_neq_Nil [of s] by (meson neq_Nil_conv)
  then show ?case using Cons by (cases ls) auto
qed simp

lemma tl_split_newline: "tl (split_newline s) = [] \<longleftrightarrow> newline \<notin> set s"
  by (induction s) auto

section \<open>The line reader\<close>

text \<open>
  \<open>CHAT_STREAM_RESPONSE_CHUNK_MAX_BUFFER_SIZE\<close>: unset or not positive stands for no limit.
\<close>

definition max_buffer_size :: "int option \<Rightarrow> nat option" where
  "max_buffer_size setting =
     (case setting of None \<Rightarrow> None | Some n \<Rightarrow> if n \<le> 0 then None else Some (nat n))"

definition too_long :: "nat option \<Rightarrow> string \<Rightarrow> bool" where
  "too_long limit line = (case limit of None \<Rightarrow> False | Some n \<Rightarrow> n < length line)"

record line_reader =
  lr_buffer :: string
  lr_dropping :: bool

definition line_reader_start :: line_reader where
  "line_reader_start = \<lparr>lr_buffer = [], lr_dropping = False\<rparr>"

text \<open>The loop over the completed lines: what is yielded, and whether a tail is still to be dropped.\<close>

fun yield_lines :: "nat option \<Rightarrow> bool \<Rightarrow> string list \<Rightarrow> string list \<times> bool" where
  "yield_lines limit dropping [] = ([], dropping)"
| "yield_lines limit dropping (line # lines) =
     (if dropping then yield_lines limit False lines
      else let (out, d) = yield_lines limit dropping lines
           in ((if too_long limit line then out else (line @ [newline]) # out), d))"

definition stream_chunk :: "nat option \<Rightarrow> string \<Rightarrow> line_reader \<Rightarrow> string list \<times> line_reader" where
  "stream_chunk limit data st =
     (if data = [] then ([], st)
      else let buffer = lr_buffer st @ data;
               parts = split_newline buffer;
               (out, dropping) = (if newline \<in> set data
                                  then yield_lines limit (lr_dropping st) (butlast parts)
                                  else ([], lr_dropping st));
               rest = (if newline \<in> set data then last parts else buffer)
           in (out, if too_long limit rest then \<lparr>lr_buffer = [], lr_dropping = True\<rparr>
                    else \<lparr>lr_buffer = rest, lr_dropping = dropping\<rparr>))"

fun stream_from :: "nat option \<Rightarrow> line_reader \<Rightarrow> string list \<Rightarrow> string list" where
  "stream_from limit st [] = (if lr_buffer st \<noteq> [] \<and> \<not> lr_dropping st then [lr_buffer st] else [])"
| "stream_from limit st (data # chunks) =
     (let (out, st') = stream_chunk limit data st in out @ stream_from limit st' chunks)"

definition stream_chunks_handler :: "int option \<Rightarrow> string list \<Rightarrow> string list" where
  "stream_chunks_handler setting chunks = stream_from (max_buffer_size setting) line_reader_start chunks"

text \<open>The reader after a list of chunks, as a state.\<close>

fun reader_after :: "nat option \<Rightarrow> line_reader \<Rightarrow> string list \<Rightarrow> line_reader" where
  "reader_after limit st [] = st"
| "reader_after limit st (data # chunks) = reader_after limit (snd (stream_chunk limit data st)) chunks"

section \<open>What the reader promises\<close>

text \<open>
  The specification does not know chunks: the complete lines that are not too long, each with its
  newline, then what stands behind the last newline, if that is not too long either.
\<close>

definition short_lines :: "nat option \<Rightarrow> string list \<Rightarrow> string list" where
  "short_lines limit lines = map (\<lambda>l. l @ [newline]) (filter (\<lambda>l. \<not> too_long limit l) lines)"

definition whole_lines :: "nat option \<Rightarrow> string \<Rightarrow> string list" where
  "whole_lines limit bytes =
     (let parts = split_newline bytes; rest = last parts
      in short_lines limit (butlast parts) @ (if rest \<noteq> [] \<and> \<not> too_long limit rest then [rest] else []))"

text \<open>
  The reader and the bytes of the unfinished line it has seen: it holds all of them, or it holds a
  part of them and the line is already too long.
\<close>

definition reads :: "nat option \<Rightarrow> line_reader \<Rightarrow> string \<Rightarrow> bool" where
  "reads limit st line \<longleftrightarrow>
     \<not> too_long limit (lr_buffer st) \<and> newline \<notin> set line \<and>
     (if lr_dropping st then too_long limit line \<and> suffix (lr_buffer st) line else lr_buffer st = line)"

lemma too_long_append: "too_long limit s \<Longrightarrow> too_long limit (s @ t)" "too_long limit t \<Longrightarrow> too_long limit (s @ t)"
  by (auto simp: too_long_def split: option.splits)

lemma too_long_Nil [simp]: "\<not> too_long limit []"
  by (simp add: too_long_def split: option.splits)

lemma too_long_suffix: "suffix s t \<Longrightarrow> too_long limit s \<Longrightarrow> too_long limit t"
  by (auto simp: suffix_def intro: too_long_append)

lemma yield_lines_eq:
  "yield_lines limit dropping lines =
     (short_lines limit (if dropping then tl lines else lines), dropping \<and> lines = [])"
  by (induction limit dropping lines rule: yield_lines.induct) (auto simp: short_lines_def)

text \<open>One chunk: the lines it completes are yielded, and the reader knows the line that is still open.\<close>

lemma stream_chunk_reads:
  assumes "reads limit st line"
  shows "fst (stream_chunk limit data st) = short_lines limit (butlast (split_newline (line @ data)))"
    and "reads limit (snd (stream_chunk limit data st)) (last (split_newline (line @ data)))"
proof -
  let ?b = "lr_buffer st" and ?d = "lr_dropping st"
  obtain p ps where d: "split_newline data = p # ps"
    using split_newline_neq_Nil [of data] by (meson neq_Nil_conv)
  have lnl: "newline \<notin> set line" and bnl: "newline \<notin> set ?b"
    using assms set_mono_suffix by (fastforce simp: reads_def split: if_splits)+
  have sl: "split_newline (line @ data) = (line @ p) # ps"
    and sb: "split_newline (?b @ data) = (?b @ p) # ps"
    by (simp_all add: split_newline_append split_newline_single lnl bnl d)
  have suf: "suffix ?b line" using assms by (auto simp: reads_def split: if_splits)
  have nl: "newline \<in> set data \<longleftrightarrow> ps \<noteq> []"
    using tl_split_newline [of data] d by simp
  have last_nl: "newline \<notin> set (last (split_newline (line @ data)))"
    by (rule newline_last_split)
  show "fst (stream_chunk limit data st) = short_lines limit (butlast (split_newline (line @ data)))"
  proof (cases "ps = []")
    case True
    then show ?thesis
      by (cases "data = []") (simp_all add: stream_chunk_def Let_def nl sl short_lines_def split_newline_single lnl)
  next
    case False
    then have "data \<noteq> []" "newline \<in> set data" using nl by auto
    then show ?thesis
      using assms False
      by (auto simp: stream_chunk_def Let_def yield_lines_eq sl sb short_lines_def reads_def too_long_append)
  qed
  show "reads limit (snd (stream_chunk limit data st)) (last (split_newline (line @ data)))"
  proof (cases "ps = []")
    case True
    then have pd: "p = data" using d nl split_newline_single [of data] by simp
    show ?thesis
      using assms suf last_nl True
      by (auto simp: stream_chunk_def Let_def nl sl pd reads_def too_long_append suffix_def)
  next
    case False
    then have "data \<noteq> []" "newline \<in> set data" using nl by auto
    then show ?thesis
      using assms False last_nl
      by (auto simp: stream_chunk_def Let_def yield_lines_eq sl sb reads_def)
  qed
qed

lemma whole_lines_append:
  "newline \<notin> set line \<Longrightarrow> whole_lines limit (line @ s @ t) =
     short_lines limit (butlast (split_newline (line @ s))) @
       whole_lines limit (last (split_newline (line @ s)) @ t)"
proof -
  let ?r = "last (split_newline (line @ s))"
  obtain p ps where t: "split_newline t = p # ps"
    using split_newline_neq_Nil [of t] by (meson neq_Nil_conv)
  have r: "split_newline (?r @ t) = (?r @ p) # ps"
    using split_newline_append [of ?r t] by (simp add: split_newline_single newline_last_split t)
  have "split_newline ((line @ s) @ t) = butlast (split_newline (line @ s)) @ (?r @ p) # ps"
    using split_newline_append [of "line @ s" t] by (simp add: t)
  then show ?thesis
    using r by (simp add: whole_lines_def Let_def short_lines_def butlast_append)
qed

lemma stream_from_whole_lines:
  "reads limit st line \<Longrightarrow> stream_from limit st chunks = whole_lines limit (line @ concat chunks)"
proof (induction chunks arbitrary: st line)
  case Nil
  then have "split_newline line = [line]" by (simp add: reads_def split_newline_single)
  then show ?case
    using Nil by (auto simp: whole_lines_def reads_def short_lines_def split: if_splits)
next
  case (Cons data chunks)
  have nl: "newline \<notin> set line" using Cons.prems by (simp add: reads_def)
  show ?case
    using Cons.IH [OF stream_chunk_reads(2) [OF Cons.prems]] stream_chunk_reads(1) [OF Cons.prems, of data]
    by (simp add: whole_lines_append [OF nl] case_prod_unfold Let_def)
qed

lemma reads_start [simp]: "reads limit line_reader_start []"
  by (simp add: reads_def line_reader_start_def)

text \<open>C29 (equivalence): the lines a client receives depend on the bytes of the answer and not on how the
  network cuts them into chunks: they are the complete lines within the limit, and the rest behind the
  last newline if it is within the limit.\<close>

theorem lines_independent_of_chunks:
  "stream_chunks_handler setting chunks = whole_lines (max_buffer_size setting) (concat chunks)"
  unfolding stream_chunks_handler_def using stream_from_whole_lines [OF reads_start] by simp

text \<open>Without a limit no byte is lost, none is added and none changes its place.\<close>

lemma concat_split_newline:
  "concat (map (\<lambda>l. l @ [newline]) (butlast (split_newline s))) @ last (split_newline s) = s"
proof (induction s)
  case (Cons c s)
  obtain l ls where s: "split_newline s = l # ls"
    using split_newline_neq_Nil [of s] by (meson neq_Nil_conv)
  show ?case using Cons s by (cases ls) auto
qed simp

lemma concat_whole_lines: "concat (whole_lines None bytes) = bytes"
  using concat_split_newline [of bytes]
  by (auto simp: whole_lines_def Let_def short_lines_def too_long_def)

text \<open>The reader never keeps more than the limit between two chunks.\<close>

lemma reader_after_reads:
  "reads limit st line \<Longrightarrow> \<exists>line'. reads limit (reader_after limit st chunks) line'"
  by (induction chunks arbitrary: st line) (auto dest: stream_chunk_reads(2))

theorem buffer_within_limit:
  "\<not> too_long limit (lr_buffer (reader_after limit line_reader_start chunks))"
  using reader_after_reads [OF reads_start, of limit chunks] by (auto simp: reads_def)

end
