(* ===== verification/RateLimit.thy ===== *)
theory RateLimit
  imports PyText
begin

text \<open>
  The rate limiter in front of the sign-in (\<open>utils/rate_limit.py\<close> of Open WebUI): a rolling window
  of buckets, kept in Redis or, when Redis is absent or fails, in the memory of the process. Redis
  is a parameter with the three commands the code sends; an instant is a number of seconds.
\<close>

section \<open>The limiter\<close>

record rate_limiter =
  rl_limit :: int
  rl_window :: int
  rl_bucket_size :: int
  rl_num_buckets :: int
  rl_enabled :: bool

definition make_rate_limiter :: "int \<Rightarrow> int \<Rightarrow> int \<Rightarrow> bool \<Rightarrow> rate_limiter result" where
  "make_rate_limiter limit window bucket_size enabled =
     (if bucket_size = 0 then Inl (OtherError ''ZeroDivisionError'')
      else Inr \<lparr>rl_limit = limit, rl_window = window, rl_bucket_size = bucket_size,
                rl_num_buckets = window div bucket_size, rl_enabled = enabled\<rparr>)"

definition signin_rate_limiter :: rate_limiter where
  "signin_rate_limiter =
     \<lparr>rl_limit = 5 * 3, rl_window = 60 * 3, rl_bucket_size = 60, rl_num_buckets = 3, rl_enabled = True\<rparr>"

lemma signin_limiter_made: "make_rate_limiter (5 * 3) (60 * 3) 60 True = Inr signin_rate_limiter"
  by (simp add: make_rate_limiter_def signin_rate_limiter_def)

definition current_bucket :: "rate_limiter \<Rightarrow> int \<Rightarrow> int" where
  "current_bucket rl now = now div rl_bucket_size rl"

section \<open>The buckets in memory\<close>

text \<open>\<open>_memory_store\<close>: for each key the counters of its buckets.\<close>

type_synonym bucket_store = "(string, (int, int) dict) dict"

definition drop_expired :: "int \<Rightarrow> (int, int) dict \<Rightarrow> (int, int) dict" where
  "drop_expired min_bucket store = filter (\<lambda>(b, c). \<not> b < min_bucket) store"

definition is_limited_memory :: "rate_limiter \<Rightarrow> int \<Rightarrow> string \<Rightarrow> bucket_store \<Rightarrow> bool \<times> bucket_store" where
  "is_limited_memory rl now key memory =
     (let now_bucket = current_bucket rl now;
          store = dict_get memory key [];
          store = dict_set now_bucket (dict_get store now_bucket 0 + 1) store;
          store = drop_expired (now_bucket - rl_num_buckets rl) store
      in (rl_limit rl < sum_list (map snd store), dict_set key store memory))"

definition get_count_memory :: "rate_limiter \<Rightarrow> int \<Rightarrow> string \<Rightarrow> bucket_store \<Rightarrow> int \<times> bucket_store" where
  "get_count_memory rl now key memory =
     (case map_of memory key of None \<Rightarrow> (0, memory)
      | Some store \<Rightarrow>
          let store = drop_expired (current_bucket rl now - rl_num_buckets rl) store
          in (sum_list (map snd store), dict_set key store memory))"

section \<open>The buckets in Redis\<close>

text \<open>The client: \<open>INCR\<close>, \<open>EXPIRE\<close> and \<open>MGET\<close>, each may fail.\<close>

record 'r redis_client =
  rd_incr :: "string \<Rightarrow> 'r \<Rightarrow> int result \<times> 'r"
  rd_expire :: "string \<Rightarrow> int \<Rightarrow> 'r \<Rightarrow> unit result \<times> 'r"
  rd_mget :: "string list \<Rightarrow> 'r \<Rightarrow> string option list result \<times> 'r"

definition bucket_key :: "string \<Rightarrow> string \<Rightarrow> int \<Rightarrow> string" where
  "bucket_key redis_prefix key bucket_index =
     redis_prefix @ '':ratelimit:'' @ casefold key @ '':'' @ int_str bucket_index"

definition bucket_keys :: "string \<Rightarrow> rate_limiter \<Rightarrow> string \<Rightarrow> int \<Rightarrow> string list" where
  "bucket_keys redis_prefix rl key now_bucket =
     map (\<lambda>i. bucket_key redis_prefix key (now_bucket - i)) [0..rl_num_buckets rl]"

fun sum_counts :: "string option list \<Rightarrow> int result" where
  \<comment> \<open>\<open>sum(int(c) for c in counts if c)\<close>\<close>
  "sum_counts [] = Inr 0"
| "sum_counts (None # cs) = sum_counts cs"
| "sum_counts (Some c # cs) =
     (if c = [] then sum_counts cs
      else case parse_int c of None \<Rightarrow> Inl (ValueError ''invalid literal for int()'')
           | Some i \<Rightarrow> bind_res (sum_counts cs) (\<lambda>rest. Inr (i + rest)))"

definition get_count_redis ::
  "'r redis_client \<Rightarrow> string \<Rightarrow> rate_limiter \<Rightarrow> int \<Rightarrow> string \<Rightarrow> 'r \<Rightarrow> int result \<times> 'r" where
  "get_count_redis client redis_prefix rl now key r =
     (case rd_mget client (bucket_keys redis_prefix rl key (current_bucket rl now)) r of
        (Inl e, r) \<Rightarrow> (Inl e, r)
      | (Inr counts, r) \<Rightarrow> (sum_counts counts, r))"

definition is_limited_redis ::
  "'r redis_client \<Rightarrow> string \<Rightarrow> rate_limiter \<Rightarrow> int \<Rightarrow> string \<Rightarrow> 'r \<Rightarrow> bool result \<times> 'r" where
  "is_limited_redis client redis_prefix rl now key r =
     (let now_bucket = current_bucket rl now; bkey = bucket_key redis_prefix key now_bucket
      in case rd_incr client bkey r of
           (Inl e, r) \<Rightarrow> (Inl e, r)
         | (Inr attempts, r) \<Rightarrow>
             (case (if attempts = 1 then rd_expire client bkey (rl_window rl + rl_bucket_size rl) r else (Inr (), r)) of
                (Inl e, r) \<Rightarrow> (Inl e, r)
              | (Inr _, r) \<Rightarrow>
                  (case rd_mget client (bucket_keys redis_prefix rl key now_bucket) r of
                     (Inl e, r) \<Rightarrow> (Inl e, r)
                   | (Inr counts, r) \<Rightarrow>
                       (bind_res (sum_counts counts) (\<lambda>total_count. Inr (rl_limit rl < total_count)), r))))"

section \<open>The public operations\<close>

text \<open>
  The clock is read once by the Redis variant and once more by the fallback. Without a Redis client
  only the memory is used.
\<close>

record 'r limiter_state =
  ls_memory :: bucket_store
  ls_redis :: 'r

definition is_limited ::
  "'r redis_client option \<Rightarrow> string \<Rightarrow> rate_limiter \<Rightarrow> int \<Rightarrow> int \<Rightarrow> string \<Rightarrow> 'r limiter_state \<Rightarrow> bool \<times> 'r limiter_state"
where
  "is_limited redis redis_prefix rl now again key st =
     (let fallback = (\<lambda>now st. case is_limited_memory rl now key (ls_memory st) of
                         (limited, memory) \<Rightarrow> (limited, st\<lparr>ls_memory := memory\<rparr>))
      in if \<not> rl_enabled rl then (False, st)
         else case redis of
                None \<Rightarrow> fallback now st
              | Some client \<Rightarrow>
                  (case is_limited_redis client redis_prefix rl now key (ls_redis st) of
                     (Inr limited, r) \<Rightarrow> (limited, st\<lparr>ls_redis := r\<rparr>)
                   | (Inl _, r) \<Rightarrow> fallback again (st\<lparr>ls_redis := r\<rparr>)))"

definition get_count ::
  "'r redis_client option \<Rightarrow> string \<Rightarrow> rate_limiter \<Rightarrow> int \<Rightarrow> int \<Rightarrow> string \<Rightarrow> 'r limiter_state \<Rightarrow> int \<times> 'r limiter_state"
where
  "get_count redis redis_prefix rl now again key st =
     (let fallback = (\<lambda>now st. case get_count_memory rl now key (ls_memory st) of
                         (used, memory) \<Rightarrow> (used, st\<lparr>ls_memory := memory\<rparr>))
      in if \<not> rl_enabled rl then (0, st)
         else case redis of
                None \<Rightarrow> fallback now st
              | Some client \<Rightarrow>
                  (case get_count_redis client redis_prefix rl now key (ls_redis st) of
                     (Inr used, r) \<Rightarrow> (used, st\<lparr>ls_redis := r\<rparr>)
                   | (Inl _, r) \<Rightarrow> fallback again (st\<lparr>ls_redis := r\<rparr>)))"

definition remaining ::
  "'r redis_client option \<Rightarrow> string \<Rightarrow> rate_limiter \<Rightarrow> int \<Rightarrow> int \<Rightarrow> string \<Rightarrow> 'r limiter_state \<Rightarrow> int \<times> 'r limiter_state"
where
  "remaining redis redis_prefix rl now again key st =
     (case get_count redis redis_prefix rl now again key st of (used, st) \<Rightarrow> (max 0 (rl_limit rl - used), st))"

section \<open>A sequence of calls without Redis\<close>

datatype limiter_call = Attempt string | Look string

datatype limiter_answer = Limited bool | Used int

fun answer_call :: "rate_limiter \<Rightarrow> int \<Rightarrow> limiter_call \<Rightarrow> unit limiter_state \<Rightarrow> limiter_answer \<times> unit limiter_state" where
  "answer_call rl now (Attempt key) st =
     (case is_limited None [] rl now now key st of (limited, st) \<Rightarrow> (Limited limited, st))"
| "answer_call rl now (Look key) st =
     (case get_count None [] rl now now key st of (used, st) \<Rightarrow> (Used used, st))"

fun answer_calls :: "rate_limiter \<Rightarrow> (int \<times> limiter_call) list \<Rightarrow> unit limiter_state \<Rightarrow> limiter_answer list" where
  "answer_calls rl [] st = []"
| "answer_calls rl ((now, c) # calls) st =
     (let (answer, st) = answer_call rl now c st in answer # answer_calls rl calls st)"

definition fresh_limiter :: "unit limiter_state" where
  "fresh_limiter = \<lparr>ls_memory = [], ls_redis = ()\<rparr>"

text \<open>
  The reference: the list of all attempts so far, counted from the oldest bucket of the window on.
\<close>

definition recent :: "rate_limiter \<Rightarrow> int \<Rightarrow> string \<Rightarrow> (int \<times> string) list \<Rightarrow> int" where
  "recent rl oldest key past =
     int (length (filter (\<lambda>(t, k). k = key \<and> oldest \<le> current_bucket rl t) past))"

definition oldest_bucket :: "rate_limiter \<Rightarrow> int \<Rightarrow> int" where
  "oldest_bucket rl now = current_bucket rl now - rl_num_buckets rl"

fun window_answers :: "rate_limiter \<Rightarrow> (int \<times> string) list \<Rightarrow> (int \<times> limiter_call) list \<Rightarrow> limiter_answer list" where
  "window_answers rl past [] = []"
| "window_answers rl past ((now, Attempt key) # calls) =
     Limited (rl_limit rl < recent rl (oldest_bucket rl now) key ((now, key) # past)) #
       window_answers rl ((now, key) # past) calls"
| "window_answers rl past ((now, Look key) # calls) =
     Used (recent rl (oldest_bucket rl now) key past) # window_answers rl past calls"

subsection \<open>The buckets count the attempts of the window\<close>

definition bucket_sum :: "int \<Rightarrow> (int, int) dict \<Rightarrow> int" where
  "bucket_sum oldest store = sum_list (map snd (drop_expired oldest store))"

definition counts_attempts :: "rate_limiter \<Rightarrow> (int \<times> string) list \<Rightarrow> int \<Rightarrow> bucket_store \<Rightarrow> bool" where
  "counts_attempts rl past now memory \<longleftrightarrow>
     (\<forall>key oldest. oldest_bucket rl now \<le> oldest \<longrightarrow>
        bucket_sum oldest (dict_get memory key []) = recent rl oldest key past)"

lemma bucket_sum_set:
  "bucket_sum oldest (dict_set b (dict_get store b 0 + 1) store) = bucket_sum oldest store + (if oldest \<le> b then 1 else 0)"
proof (induction store)
  case (Cons p store)
  obtain b' c where "p = (b', c)" by fastforce
  then show ?case using Cons by (auto simp: bucket_sum_def drop_expired_def dict_get_def)
qed (simp add: bucket_sum_def drop_expired_def dict_get_def)

lemma bucket_sum_drop: "m \<le> oldest \<Longrightarrow> bucket_sum oldest (drop_expired m store) = bucket_sum oldest store"
  unfolding bucket_sum_def drop_expired_def
  by (induction store) auto

lemma dict_get_dict_set: "dict_get (dict_set k v d) k' w = (if k' = k then v else dict_get d k' w)"
  by (simp add: dict_get_def)

lemma current_bucket_mono: "0 < rl_bucket_size rl \<Longrightarrow> t \<le> now \<Longrightarrow> current_bucket rl t \<le> current_bucket rl now"
  by (simp add: current_bucket_def zdiv_mono1)

lemma counts_attempts_later:
  "counts_attempts rl past t memory \<Longrightarrow> 0 < rl_bucket_size rl \<Longrightarrow> t \<le> now \<Longrightarrow> counts_attempts rl past now memory"
  unfolding counts_attempts_def oldest_bucket_def using current_bucket_mono [of rl t now] by fastforce

lemma attempt_counts:
  assumes "counts_attempts rl past now (ls_memory st)" "rl_enabled rl"
  shows "fst (answer_call rl now (Attempt key) st) =
           Limited (rl_limit rl < recent rl (oldest_bucket rl now) key ((now, key) # past))"
    and "counts_attempts rl ((now, key) # past) now (ls_memory (snd (answer_call rl now (Attempt key) st)))"
proof -
  let ?b = "current_bucket rl now" and ?store = "dict_get (ls_memory st) key []"
  let ?store1 = "dict_set ?b (dict_get ?store ?b 0 + 1) ?store"
  have set: "bucket_sum oldest ?store1 = recent rl oldest key ((now, key) # past)"
    if "oldest_bucket rl now \<le> oldest" for oldest
    using assms(1) that by (simp add: counts_attempts_def bucket_sum_set recent_def)
  show "fst (answer_call rl now (Attempt key) st) =
           Limited (rl_limit rl < recent rl (oldest_bucket rl now) key ((now, key) # past))"
    using set [of "oldest_bucket rl now"] assms(2)
    by (simp add: is_limited_def is_limited_memory_def Let_def bucket_sum_def oldest_bucket_def)
  show "counts_attempts rl ((now, key) # past) now (ls_memory (snd (answer_call rl now (Attempt key) st)))"
    using set assms
    by (auto simp: is_limited_def is_limited_memory_def Let_def counts_attempts_def dict_get_dict_set
        bucket_sum_drop oldest_bucket_def recent_def)
qed

lemma look_counts:
  assumes "counts_attempts rl past now (ls_memory st)" "rl_enabled rl"
  shows "fst (answer_call rl now (Look key) st) = Used (recent rl (oldest_bucket rl now) key past)"
    and "counts_attempts rl past now (ls_memory (snd (answer_call rl now (Look key) st)))"
proof -
  have "bucket_sum (oldest_bucket rl now) (dict_get (ls_memory st) key []) = recent rl (oldest_bucket rl now) key past"
    using assms(1) by (simp add: counts_attempts_def)
  then show "fst (answer_call rl now (Look key) st) = Used (recent rl (oldest_bucket rl now) key past)"
    using assms(2)
    by (auto simp: get_count_def get_count_memory_def Let_def bucket_sum_def oldest_bucket_def dict_get_def
        drop_expired_def split: option.splits)
  show "counts_attempts rl past now (ls_memory (snd (answer_call rl now (Look key) st)))"
    using assms
    by (auto simp: get_count_def get_count_memory_def Let_def counts_attempts_def dict_get_def
        bucket_sum_drop oldest_bucket_def split: option.splits)
qed

lemma answer_calls_window:
  "counts_attempts rl past t (ls_memory st) \<Longrightarrow> rl_enabled rl \<Longrightarrow> 0 < rl_bucket_size rl \<Longrightarrow>
   sorted (t # map fst calls) \<Longrightarrow> answer_calls rl calls st = window_answers rl past calls"
proof (induction rl past calls arbitrary: t st rule: window_answers.induct)
  case (2 rl past now key calls)
  have c: "counts_attempts rl past now (ls_memory st)"
    using 2 counts_attempts_later [of rl past t] by simp
  show ?case
    using attempt_counts [OF c 2(3), of key] 2(1) [OF attempt_counts(2) [OF c 2(3)]] 2(3,4,5)
    by (simp add: case_prod_unfold Let_def)
next
  case (3 rl past now key calls)
  have c: "counts_attempts rl past now (ls_memory st)"
    using 3 counts_attempts_later [of rl past t] by simp
  show ?case
    using look_counts [OF c 3(3), of key] 3(1) [OF look_counts(2) [OF c 3(3)]] 3(3,4,5)
    by (simp add: case_prod_unfold Let_def)
qed simp

lemma counts_attempts_start: "counts_attempts rl [] now []"
  by (simp add: counts_attempts_def bucket_sum_def drop_expired_def dict_get_def recent_def)

text \<open>As long as the clock does not run backwards, the limiter answers like the reference.\<close>

theorem limiter_is_window:
  assumes "rl_enabled rl" "0 < rl_bucket_size rl" "sorted (map fst calls)"
  shows "answer_calls rl calls fresh_limiter = window_answers rl [] calls"
proof (cases calls)
  case (Cons c cs)
  then show ?thesis
    using answer_calls_window [of rl "[]" "fst c" fresh_limiter calls] assms
    by (simp add: fresh_limiter_def counts_attempts_start)
qed simp

subsection \<open>How many attempts get through\<close>

definition let_through :: "rate_limiter \<Rightarrow> string \<Rightarrow> int \<Rightarrow> (int \<times> limiter_call) list \<Rightarrow> limiter_answer list \<Rightarrow> int" where
  "let_through rl key first_bucket calls answers =
     int (length (filter (\<lambda>((t, c), a). c = Attempt key \<and> a = Limited False \<and>
            first_bucket \<le> current_bucket rl t \<and> current_bucket rl t \<le> first_bucket + rl_num_buckets rl)
          (zip calls answers)))"

lemma recent_Cons:
  "recent rl oldest key ((t, k) # past) =
     recent rl oldest key past + (if k = key \<and> oldest \<le> current_bucket rl t then 1 else 0)"
  by (simp add: recent_def)

lemma recent_antimono: "b \<le> b' \<Longrightarrow> recent rl b' key past \<le> recent rl b key past"
  unfolding recent_def by (induction past) auto

lemma window_lets_through:
  "let_through rl key lo calls (window_answers rl past calls) \<le> max 0 (rl_limit rl - recent rl lo key past)"
proof (induction rl past calls rule: window_answers.induct)
  case (2 rl past now k calls)
  show ?case
  proof (cases "k = key \<and> lo \<le> current_bucket rl now \<and> current_bucket rl now \<le> lo + rl_num_buckets rl")
    case True
    then have "recent rl lo key ((now, k) # past) \<le> recent rl (oldest_bucket rl now) key ((now, k) # past)"
      by (intro recent_antimono) (simp add: oldest_bucket_def)
    then show ?thesis using True 2 by (auto simp: let_through_def recent_Cons split: if_splits)
  next
    case False
    then show ?thesis using 2 by (auto simp: let_through_def recent_Cons split: if_splits)
  qed
qed (auto simp: let_through_def)



text \<open>A key without attempts in the window gets through again, whatever came before.\<close>

theorem idle_key_gets_through:
  assumes "rl_enabled rl" "0 < rl_bucket_size rl" "1 \<le> rl_limit rl" "sorted (map fst calls @ [now])"
    and "recent rl (oldest_bucket rl now) key (rev [(t, k). (t, Attempt k) \<leftarrow> calls]) = 0"
  shows "last (answer_calls rl (calls @ [(now, Attempt key)]) fresh_limiter) = Limited False"
proof -
  have "window_answers rl past (cs @ [(now, Attempt key)]) = window_answers rl past cs @
          [Limited (rl_limit rl < recent rl (oldest_bucket rl now) key
             ((now, key) # rev [(t, k). (t, Attempt k) \<leftarrow> cs] @ past))]" for past cs
    by (induction rl past cs rule: window_answers.induct) auto
  from this [of "[]" calls] show ?thesis
    using limiter_is_window [of rl "calls @ [(now, Attempt key)]"] assms by (simp add: recent_Cons)
qed

end
