(* ===== verification/Permissions.thy ===== *)
theory Permissions
  imports PyVal
begin

text \<open>
  The permissions of Open WebUI, which hosts the chat (\<open>utils/access_control/__init__.py\<close>, the
  defaults of \<open>config.py\<close>, the groups of \<open>models/groups.py\<close>): nested dictionaries of booleans, from
  the environment, from the configuration an administrator edits, and from groups. The dictionary
  that \<open>fill_missing_permissions\<close> changes in place is the value it returns; the deep copy through
  JSON is the identity on JSON values.
\<close>

section \<open>The defaults\<close>

definition user_permission_settings :: "(string \<times> string) list" where
  \<comment> \<open>\<open>USER_PERMISSIONS_\<close>... and what it is when the environment does not set it\<close>
  "user_permission_settings =
     [(''WORKSPACE_MODELS_ACCESS'', ''False''),
      (''WORKSPACE_KNOWLEDGE_ACCESS'', ''False''),
      (''WORKSPACE_PROMPTS_ACCESS'', ''False''),
      (''WORKSPACE_TOOLS_ACCESS'', ''False''),
      (''WORKSPACE_SKILLS_ACCESS'', ''False''),
      (''WORKSPACE_MODELS_IMPORT'', ''False''),
      (''WORKSPACE_MODELS_EXPORT'', ''False''),
      (''WORKSPACE_PROMPTS_IMPORT'', ''False''),
      (''WORKSPACE_PROMPTS_EXPORT'', ''False''),
      (''WORKSPACE_TOOLS_IMPORT'', ''False''),
      (''WORKSPACE_TOOLS_EXPORT'', ''False''),
      (''WORKSPACE_SKILLS_IMPORT'', ''False''),
      (''WORKSPACE_SKILLS_EXPORT'', ''False''),
      (''WORKSPACE_MODELS_ALLOW_SHARING'', ''False''),
      (''WORKSPACE_MODELS_ALLOW_PUBLIC_SHARING'', ''False''),
      (''WORKSPACE_KNOWLEDGE_ALLOW_SHARING'', ''False''),
      (''WORKSPACE_KNOWLEDGE_ALLOW_PUBLIC_SHARING'', ''False''),
      (''WORKSPACE_PROMPTS_ALLOW_SHARING'', ''False''),
      (''WORKSPACE_PROMPTS_ALLOW_PUBLIC_SHARING'', ''False''),
      (''WORKSPACE_TOOLS_ALLOW_SHARING'', ''False''),
      (''WORKSPACE_TOOLS_ALLOW_PUBLIC_SHARING'', ''False''),
      (''WORKSPACE_SKILLS_ALLOW_SHARING'', ''False''),
      (''WORKSPACE_SKILLS_ALLOW_PUBLIC_SHARING'', ''False''),
      (''NOTES_ALLOW_SHARING'', ''False''),
      (''NOTES_ALLOW_PUBLIC_SHARING'', ''False''),
      (''FOLDERS_ALLOW_SHARING'', ''False''),
      (''CALENDAR_ALLOW_PUBLIC_SHARING'', ''False''),
      (''ACCESS_GRANTS_ALLOW_USERS'', ''True''),
      (''ACCESS_GRANTS_ALLOW_GROUPS'', ''True''),
      (''CHAT_CONTROLS'', ''True''),
      (''CHAT_VALVES'', ''True''),
      (''CHAT_SYSTEM_PROMPT'', ''True''),
      (''CHAT_PARAMS'', ''True''),
      (''CHAT_FILE_UPLOAD'', ''True''),
      (''CHAT_WEB_UPLOAD'', ''True''),
      (''CHAT_DELETE'', ''True''),
      (''CHAT_DELETE_MESSAGE'', ''True''),
      (''CHAT_CONTINUE_RESPONSE'', ''True''),
      (''CHAT_REGENERATE_RESPONSE'', ''True''),
      (''CHAT_RATE_RESPONSE'', ''True''),
      (''CHAT_EDIT'', ''True''),
      (''CHAT_SHARE'', ''True''),
      (''CHAT_ALLOW_PUBLIC_SHARING'', ''False''),
      (''CHAT_ALLOW_OPEN_SHARING'', ''False''),
      (''CHAT_EXPORT'', ''True''),
      (''CHAT_IMPORT'', ''True''),
      (''CHAT_STT'', ''True''),
      (''CHAT_TTS'', ''True''),
      (''CHAT_CALL'', ''True''),
      (''CHAT_MULTIPLE_MODELS'', ''True''),
      (''CHAT_TEMPORARY'', ''True''),
      (''CHAT_TEMPORARY_ENFORCED'', ''False''),
      (''FEATURES_DIRECT_TOOL_SERVERS'', ''False''),
      (''FEATURES_WEB_SEARCH'', ''True''),
      (''FEATURES_IMAGE_GENERATION'', ''True''),
      (''FEATURES_CODE_INTERPRETER'', ''True''),
      (''FEATURES_FOLDERS'', ''True''),
      (''FEATURES_NOTES'', ''True''),
      (''FEATURES_CHANNELS'', ''True''),
      (''FEATURES_API_KEYS'', ''False''),
      (''FEATURES_MEMORIES'', ''True''),
      (''FEATURES_AUTOMATIONS'', ''False''),
      (''FEATURES_CALENDAR'', ''True''),
      (''FEATURES_USER_WEBHOOKS'', ''False''),
      (''SETTINGS_INTERFACE'', ''True'')]"

definition permission_setting :: "(string \<Rightarrow> string option) \<Rightarrow> string \<Rightarrow> pyval" where
  \<comment> \<open>\<open>os.getenv('USER_PERMISSIONS_...', default).lower() == 'true'\<close>\<close>
  "permission_setting env name =
     VBool (casefold (case env (''USER_PERMISSIONS_'' @ name) of Some s \<Rightarrow> s
                      | None \<Rightarrow> dict_get user_permission_settings name []) = ''true'')"

definition default_user_permissions :: "(string \<Rightarrow> string option) \<Rightarrow> pydict" where
  "default_user_permissions env =
     [(''workspace'', VDict
        [(''models'', permission_setting env ''WORKSPACE_MODELS_ACCESS''),
         (''knowledge'', permission_setting env ''WORKSPACE_KNOWLEDGE_ACCESS''),
         (''prompts'', permission_setting env ''WORKSPACE_PROMPTS_ACCESS''),
         (''tools'', permission_setting env ''WORKSPACE_TOOLS_ACCESS''),
         (''skills'', permission_setting env ''WORKSPACE_SKILLS_ACCESS''),
         (''models_import'', permission_setting env ''WORKSPACE_MODELS_IMPORT''),
         (''models_export'', permission_setting env ''WORKSPACE_MODELS_EXPORT''),
         (''prompts_import'', permission_setting env ''WORKSPACE_PROMPTS_IMPORT''),
         (''prompts_export'', permission_setting env ''WORKSPACE_PROMPTS_EXPORT''),
         (''tools_import'', permission_setting env ''WORKSPACE_TOOLS_IMPORT''),
         (''tools_export'', permission_setting env ''WORKSPACE_TOOLS_EXPORT''),
         (''skills_import'', permission_setting env ''WORKSPACE_SKILLS_IMPORT''),
         (''skills_export'', permission_setting env ''WORKSPACE_SKILLS_EXPORT'')]),
      (''sharing'', VDict
        [(''models'', permission_setting env ''WORKSPACE_MODELS_ALLOW_SHARING''),
         (''public_models'', permission_setting env ''WORKSPACE_MODELS_ALLOW_PUBLIC_SHARING''),
         (''knowledge'', permission_setting env ''WORKSPACE_KNOWLEDGE_ALLOW_SHARING''),
         (''public_knowledge'', permission_setting env ''WORKSPACE_KNOWLEDGE_ALLOW_PUBLIC_SHARING''),
         (''prompts'', permission_setting env ''WORKSPACE_PROMPTS_ALLOW_SHARING''),
         (''public_prompts'', permission_setting env ''WORKSPACE_PROMPTS_ALLOW_PUBLIC_SHARING''),
         (''tools'', permission_setting env ''WORKSPACE_TOOLS_ALLOW_SHARING''),
         (''public_tools'', permission_setting env ''WORKSPACE_TOOLS_ALLOW_PUBLIC_SHARING''),
         (''skills'', permission_setting env ''WORKSPACE_SKILLS_ALLOW_SHARING''),
         (''public_skills'', permission_setting env ''WORKSPACE_SKILLS_ALLOW_PUBLIC_SHARING''),
         (''notes'', permission_setting env ''NOTES_ALLOW_SHARING''),
         (''public_notes'', permission_setting env ''NOTES_ALLOW_PUBLIC_SHARING''),
         (''folders'', permission_setting env ''FOLDERS_ALLOW_SHARING''),
         (''public_chats'', permission_setting env ''CHAT_ALLOW_PUBLIC_SHARING''),
         (''open_chats'', permission_setting env ''CHAT_ALLOW_OPEN_SHARING''),
         (''public_calendars'', permission_setting env ''CALENDAR_ALLOW_PUBLIC_SHARING'')]),
      (''access_grants'', VDict
        [(''allow_users'', permission_setting env ''ACCESS_GRANTS_ALLOW_USERS''),
         (''allow_groups'', permission_setting env ''ACCESS_GRANTS_ALLOW_GROUPS'')]),
      (''chat'', VDict
        [(''controls'', permission_setting env ''CHAT_CONTROLS''),
         (''valves'', permission_setting env ''CHAT_VALVES''),
         (''system_prompt'', permission_setting env ''CHAT_SYSTEM_PROMPT''),
         (''params'', permission_setting env ''CHAT_PARAMS''),
         (''file_upload'', permission_setting env ''CHAT_FILE_UPLOAD''),
         (''web_upload'', permission_setting env ''CHAT_WEB_UPLOAD''),
         (''delete'', permission_setting env ''CHAT_DELETE''),
         (''delete_message'', permission_setting env ''CHAT_DELETE_MESSAGE''),
         (''continue_response'', permission_setting env ''CHAT_CONTINUE_RESPONSE''),
         (''regenerate_response'', permission_setting env ''CHAT_REGENERATE_RESPONSE''),
         (''rate_response'', permission_setting env ''CHAT_RATE_RESPONSE''),
         (''edit'', permission_setting env ''CHAT_EDIT''),
         (''share'', permission_setting env ''CHAT_SHARE''),
         (''export'', permission_setting env ''CHAT_EXPORT''),
         (''import'', permission_setting env ''CHAT_IMPORT''),
         (''stt'', permission_setting env ''CHAT_STT''),
         (''tts'', permission_setting env ''CHAT_TTS''),
         (''call'', permission_setting env ''CHAT_CALL''),
         (''multiple_models'', permission_setting env ''CHAT_MULTIPLE_MODELS''),
         (''temporary'', permission_setting env ''CHAT_TEMPORARY''),
         (''temporary_enforced'', permission_setting env ''CHAT_TEMPORARY_ENFORCED'')]),
      (''features'', VDict
        [(''api_keys'', permission_setting env ''FEATURES_API_KEYS''),
         (''notes'', permission_setting env ''FEATURES_NOTES''),
         (''folders'', permission_setting env ''FEATURES_FOLDERS''),
         (''channels'', permission_setting env ''FEATURES_CHANNELS''),
         (''direct_tool_servers'', permission_setting env ''FEATURES_DIRECT_TOOL_SERVERS''),
         (''web_search'', permission_setting env ''FEATURES_WEB_SEARCH''),
         (''image_generation'', permission_setting env ''FEATURES_IMAGE_GENERATION''),
         (''code_interpreter'', permission_setting env ''FEATURES_CODE_INTERPRETER''),
         (''memories'', permission_setting env ''FEATURES_MEMORIES''),
         (''automations'', permission_setting env ''FEATURES_AUTOMATIONS''),
         (''calendar'', permission_setting env ''FEATURES_CALENDAR''),
         (''webhooks'', permission_setting env ''FEATURES_USER_WEBHOOKS'')]),
      (''settings'', VDict
        [(''interface'', permission_setting env ''SETTINGS_INTERFACE'')])]"

section \<open>Groups\<close>

record group_row =
  gr_id :: string
  gr_permissions :: "pydict option"
  gr_updated :: int

record member_row =
  gm_group :: string
  gm_user :: string

record group_tables =
  gt_groups :: "group_row list"
  gt_members :: "member_row list"

definition get_groups_by_member_id :: "group_tables \<Rightarrow> string \<Rightarrow> group_row list" where
  \<comment> \<open>the join, most recently updated first\<close>
  "get_groups_by_member_id tables user =
     sort_key (\<lambda>g. - gr_updated g)
       (concat (map (\<lambda>m. filter (\<lambda>g. gr_id g = gm_group m) (gt_groups tables))
          (filter (\<lambda>m. gm_user m = user) (gt_members tables))))"

definition group_permissions :: "group_row \<Rightarrow> pydict" where
  \<comment> \<open>\<open>group.permissions or {}\<close>\<close>
  "group_permissions g = (case gr_permissions g of None \<Rightarrow> [] | Some p \<Rightarrow> p)"

definition user_groups :: "group_tables \<Rightarrow> string \<Rightarrow> pydict list" where
  "user_groups tables user = map group_permissions (get_groups_by_member_id tables user)"

section \<open>Combining\<close>

function fill_missing_permissions :: "pydict \<Rightarrow> pydict \<Rightarrow> pydict" where
  "fill_missing_permissions permissions [] = permissions"
| "fill_missing_permissions permissions ((key, v) # defaults) =
     fill_missing_permissions
       (case map_of permissions key of
          None \<Rightarrow> dict_set key v permissions
        | Some w \<Rightarrow>
            (case v of
               VDict dv \<Rightarrow> (case w of VDict dw \<Rightarrow> dict_set key (VDict (fill_missing_permissions dw dv)) permissions
                            | _ \<Rightarrow> permissions)
             | _ \<Rightarrow> permissions))
       defaults"
  by pat_completeness auto
termination
  by (relation "measure (\<lambda>(p, d). size (VDict d))") auto

text \<open>
  Adding the entries of a group: on anything but a dictionary the first entry raises \<open>TypeError\<close>
  (\<open>in\<close>, subscription or assignment).
\<close>

function combine_permissions :: "pyval \<Rightarrow> pydict \<Rightarrow> pyval result" where
  "combine_permissions p [] = Inr p"
| "combine_permissions p ((key, v) # entries) =
     (case p of
        VDict d \<Rightarrow>
          (case v of
             VDict dv \<Rightarrow>
               bind_res (combine_permissions (case map_of d key of None \<Rightarrow> VDict [] | Some w \<Rightarrow> w) dv)
                 (\<lambda>w. combine_permissions (VDict (dict_set key w d)) entries)
           | _ \<Rightarrow> combine_permissions
                    (VDict (dict_set key (case map_of d key of None \<Rightarrow> v | Some w \<Rightarrow> py_or w v) d)) entries)
      | _ \<Rightarrow> Inl (TypeError ''permissions is not a dict''))"
  by pat_completeness auto
termination
  by (relation "measure (\<lambda>(p, d). size (VDict d))") auto

fun combine_groups :: "pyval \<Rightarrow> pydict list \<Rightarrow> pyval result" where
  "combine_groups p [] = Inr p"
| "combine_groups p (g # groups) = bind_res (combine_permissions p g) (\<lambda>p. combine_groups p groups)"

definition get_permissions :: "pydict list \<Rightarrow> pydict \<Rightarrow> pydict result" where
  "get_permissions groups default_permissions =
     bind_res (combine_groups (VDict default_permissions) groups)
       (\<lambda>p. Inr (fill_missing_permissions (as_dict p) default_permissions))"

section \<open>Checking\<close>

text \<open>\<open>permission_key.split('.')\<close>.\<close>

definition split_dots :: "string \<Rightarrow> string list" where
  "split_dots s = foldr (\<lambda>c parts. if c = CHR ''.'' then [] # parts else (c # hd parts) # tl parts) s [[]]"

text \<open>
  The traversal subscripts whatever it finds: on a string or list without the key the answer is no,
  with the key the subscription raises, and on other values \<open>in\<close> raises.
\<close>

fun get_permission :: "pyval \<Rightarrow> string list \<Rightarrow> bool result" where
  "get_permission v [] = Inr (truthy v)"
| "get_permission (VDict d) (key # keys) =
     (case map_of d key of None \<Rightarrow> Inr False | Some w \<Rightarrow> get_permission w keys)"
| "get_permission (VStr s) (key # keys) =
     (if contains key s then Inl (TypeError ''string indices must be integers'') else Inr False)"
| "get_permission (VList xs) (key # keys) =
     (if VStr key \<in> set xs then Inl (TypeError ''list indices must be integers'') else Inr False)"
| "get_permission v (key # keys) = Inl (TypeError ''argument is not iterable'')"

fun any_group_permits :: "pydict list \<Rightarrow> string list \<Rightarrow> bool result" where
  "any_group_permits [] keys = Inr False"
| "any_group_permits (g # groups) keys =
     bind_res (get_permission (VDict g) keys) (\<lambda>yes. if yes then Inr True else any_group_permits groups keys)"

definition has_permission ::
  "pydict \<Rightarrow> pydict list \<Rightarrow> string \<Rightarrow> pydict \<Rightarrow> bool result"
where
  "has_permission builtin groups permission_key default_permissions =
     (let keys = split_dots permission_key
      in bind_res (any_group_permits groups keys)
           (\<lambda>yes. if yes then Inr True
                  else get_permission (VDict (fill_missing_permissions default_permissions builtin)) keys))"

section \<open>Trees of booleans\<close>

text \<open>What the forms of the administrator store: dictionaries with distinct keys and boolean leaves.\<close>

fun bool_tree :: "pyval \<Rightarrow> bool" where
  "bool_tree (VBool b) = True"
| "bool_tree (VDict d) = (distinct (map fst d) \<and> list_all (\<lambda>(k, v). bool_tree v) d)"
| "bool_tree v = False"

text \<open>Two trees agree in shape where both are defined: no leaf meets a dictionary.\<close>

function same_shape :: "pydict \<Rightarrow> pydict \<Rightarrow> bool" where
  "same_shape d [] = True"
| "same_shape d ((k, v) # e) =
     ((case map_of d k of None \<Rightarrow> True
       | Some w \<Rightarrow> (case v of VDict f \<Rightarrow> (case w of VDict c \<Rightarrow> same_shape c f | _ \<Rightarrow> False) | _ \<Rightarrow> \<not> is_mapping w)) \<and>
      same_shape d e)"
  by pat_completeness auto
termination
  by (relation "measure (\<lambda>(p, d). size (VDict d))") auto

definition shape :: "pyval \<Rightarrow> pyval \<Rightarrow> bool" where
  "shape w v \<longleftrightarrow>
     (case v of VDict f \<Rightarrow> (case w of VDict c \<Rightarrow> same_shape c f | _ \<Rightarrow> False) | _ \<Rightarrow> \<not> is_mapping w)"

text \<open>A dictionary has every entry of another, down to the leaves.\<close>

function covers :: "pydict \<Rightarrow> pydict \<Rightarrow> bool" where
  "covers d [] = True"
| "covers d ((k, v) # e) =
     ((case map_of d k of None \<Rightarrow> False
       | Some w \<Rightarrow> (case v of VDict f \<Rightarrow> (case w of VDict c \<Rightarrow> covers c f | _ \<Rightarrow> True) | _ \<Rightarrow> True)) \<and>
      covers d e)"
  by pat_completeness auto
termination
  by (relation "measure (\<lambda>(p, d). size (VDict d))") auto

definition value_covers :: "pyval \<Rightarrow> pyval \<Rightarrow> bool" where
  "value_covers w v \<longleftrightarrow> (case v of VDict f \<Rightarrow> (case w of VDict c \<Rightarrow> covers c f | _ \<Rightarrow> True) | _ \<Rightarrow> True)"

definition grants :: "pyval \<Rightarrow> string list \<Rightarrow> bool" where
  "grants v keys \<longleftrightarrow> get_permission v keys = Inr True"

lemma shape_simps [simp]:
  "shape (VDict c) (VDict f) = same_shape c f" "shape (VBool b) v \<longleftrightarrow> \<not> is_mapping v"
  by (auto simp: shape_def split: pyval.splits)

lemma value_covers_simps [simp]:
  "value_covers (VDict c) (VDict f) = covers c f" "value_covers (VBool b) v"
  by (auto simp: value_covers_def split: pyval.splits)

lemma same_shape_iff:
  "same_shape d e \<longleftrightarrow> (\<forall>k v w. (k, v) \<in> set e \<longrightarrow> map_of d k = Some w \<longrightarrow> shape w v)"
proof (induction e)
  case (Cons p e)
  obtain k v where p: "p = (k, v)" by fastforce
  have "same_shape d (p # e) \<longleftrightarrow> (\<forall>w. map_of d k = Some w \<longrightarrow> shape w v) \<and> same_shape d e"
    by (simp add: p shape_def split: option.splits)
  then show ?case using Cons p by auto
qed simp

lemma covers_iff:
  "covers d e \<longleftrightarrow> (\<forall>k v. (k, v) \<in> set e \<longrightarrow> (\<exists>w. map_of d k = Some w \<and> value_covers w v))"
proof (induction e)
  case (Cons p e)
  obtain k v where p: "p = (k, v)" by fastforce
  have "covers d (p # e) \<longleftrightarrow> (\<exists>w. map_of d k = Some w \<and> value_covers w v) \<and> covers d e"
    by (simp add: p value_covers_def split: option.splits)
  then show ?case using Cons p by auto
qed simp

lemma dict_set_same: "map_of d k = Some w \<Longrightarrow> dict_set k w d = d"
  by (induction d) (auto split: if_splits)

lemma fill_missing_covered: "covers d e \<Longrightarrow> fill_missing_permissions d e = d"
  by (induction d e rule: fill_missing_permissions.induct)
    (auto split: option.splits pyval.splits simp: dict_set_same)

lemma bool_tree_VDict:
  "bool_tree (VDict d) \<longleftrightarrow> distinct (map fst d) \<and> (\<forall>k v. (k, v) \<in> set d \<longrightarrow> bool_tree v)"
  by (auto simp: list_all_iff)

lemma grants_simps [simp]:
  "grants v [] \<longleftrightarrow> truthy v"
  "grants (VDict d) (k # ks) \<longleftrightarrow> (\<exists>w. map_of d k = Some w \<and> grants w ks)"
  "grants (VBool b) (k # ks) \<longleftrightarrow> False"
  by (auto simp: grants_def split: option.splits)

text \<open>
  What combining two values promises: a tree that grants what either grants and clashes in shape
  with nothing that both fit.
\<close>

definition merges :: "pyval \<Rightarrow> pyval \<Rightarrow> pyval \<Rightarrow> bool" where
  "merges a b c \<longleftrightarrow>
     bool_tree c \<and> (\<forall>keys. grants c keys \<longleftrightarrow> grants a keys \<or> grants b keys) \<and>
     (\<forall>x. bool_tree x \<longrightarrow> shape a x \<longrightarrow> shape b x \<longrightarrow> shape c x) \<and>
     (\<forall>x. value_covers a x \<longrightarrow> value_covers c x)"

lemma in_dict_set: "q \<in> set (dict_set k v d) \<Longrightarrow> q = (k, v) \<or> q \<in> set d"
  by (induction k v d rule: dict_set.induct) (auto split: if_splits)

lemma bool_tree_dict_set: "bool_tree (VDict d) \<Longrightarrow> bool_tree w \<Longrightarrow> bool_tree (VDict (dict_set k w d))"
  unfolding bool_tree_VDict using distinct_dict_set in_dict_set by fastforce

lemma merges_step:
  assumes d: "bool_tree (VDict d)" and e: "bool_tree (VDict ((k, v) # e))"
    and w: "bool_tree w" "\<And>keys. grants w keys \<longleftrightarrow> (\<exists>a. map_of d k = Some a \<and> grants a keys) \<or> grants v keys"
      "\<And>x. bool_tree x \<Longrightarrow> \<forall>a. map_of d k = Some a \<longrightarrow> shape a x \<Longrightarrow> shape v x \<Longrightarrow> shape w x"
      "\<And>a x. map_of d k = Some a \<Longrightarrow> value_covers a x \<Longrightarrow> value_covers w x"
    and rest: "merges (VDict (dict_set k w d)) (VDict e) r"
  shows "merges (VDict d) (VDict ((k, v) # e)) r"
proof -
  have k: "map_of e k = None" using e by (simp add: bool_tree_VDict map_of_eq_None_iff)
  have "grants (VDict (dict_set k w d)) keys \<or> grants (VDict e) keys \<longleftrightarrow>
        grants (VDict d) keys \<or> grants (VDict ((k, v) # e)) keys" for keys
  proof (cases keys)
    case Nil
    then show ?thesis by (cases d) (auto split: if_splits)
  next
    case (Cons k' ks)
    then show ?thesis using w(2) k by (cases "k' = k") auto
  qed
  moreover have "shape (VDict (dict_set k w d)) x"
    if "bool_tree x" and sd: "shape (VDict d) x" and "shape (VDict ((k, v) # e)) x" for x
  proof -
    obtain f where x: "x = VDict f" using sd by (cases x) (auto simp: shape_def)
    have "shape w u" if "(k, u) \<in> set f" for u
    proof (rule w(3))
      show "bool_tree u" using that \<open>bool_tree x\<close> by (auto simp: x list_all_iff)
      show "\<forall>a. map_of d k = Some a \<longrightarrow> shape a u"
        using \<open>shape (VDict d) x\<close> that by (auto simp: x shape_def [of "VDict d"] same_shape_iff)
      show "shape v u"
        using \<open>shape (VDict ((k, v) # e)) x\<close> that
        by (auto simp: x shape_def [of "VDict ((k, v) # e)"] same_shape_iff)
    qed
    then show ?thesis
      using \<open>shape (VDict d) x\<close> by (auto simp: x shape_def [of "VDict d"] shape_def [of "VDict (dict_set k w d)"] same_shape_iff)
  qed
  moreover have "shape (VDict e) x" if "bool_tree x" and sd: "shape (VDict ((k, v) # e)) x" for x
  proof -
    obtain f where x: "x = VDict f" using sd by (cases x) (auto simp: shape_def)
    have "shape u' u" if "(k', u) \<in> set f" "map_of e k' = Some u'" for k' u u'
    proof -
      have "map_of ((k, v) # e) k' = Some u'" using that(2) k by auto
      then show ?thesis using sd that(1) unfolding x shape_simps same_shape_iff by blast
    qed
    then show ?thesis by (auto simp: x same_shape_iff)
  qed
  moreover have "value_covers (VDict (dict_set k w d)) x" if "value_covers (VDict d) x" for x
    using that w(4)
    by (cases x) (force simp: value_covers_def [of "VDict d"] value_covers_def [of "VDict (dict_set k w d)"] covers_iff)+
  ultimately show ?thesis using rest by (simp add: merges_def)
qed

lemma merges_Nil: "bool_tree (VDict d) \<Longrightarrow> merges (VDict d) (VDict []) (VDict d)"
proof -
  have "\<not> grants (VDict []) keys" for keys by (cases keys) auto
  then show "bool_tree (VDict d) \<Longrightarrow> ?thesis" by (simp add: merges_def)
qed

lemma combine_merges:
  "p = VDict d \<Longrightarrow> bool_tree p \<Longrightarrow> bool_tree (VDict e) \<Longrightarrow> same_shape d e \<Longrightarrow>
   \<exists>d'. combine_permissions p e = Inr (VDict d') \<and> merges p (VDict e) (VDict d')"
proof (induction p e arbitrary: d rule: combine_permissions.induct)
  case (1 p)
  then show ?case using merges_Nil by auto
next
  case (2 p key v entries)
  note d = "2.prems"(1)
  have bt: "bool_tree (VDict d)" "bool_tree v" "bool_tree (VDict entries)" and k: "key \<notin> fst ` set entries"
    using "2.prems"(2,3) by (auto simp: d bool_tree_VDict)
  have sh: "map_of d key = Some a \<Longrightarrow> shape a v" for a
    using "2.prems"(4) by (auto simp: same_shape_iff)
  have old: "map_of d key = Some a \<Longrightarrow> bool_tree a" for a
    using bt(1) by (auto simp: list_all_iff dest: map_of_SomeD)
  have step: "\<exists>d'. combine_permissions (VDict (dict_set key w d)) entries = Inr (VDict d') \<and>
                    merges p (VDict ((key, v) # entries)) (VDict d')"
    if ih: "\<And>d'. VDict (dict_set key w d) = VDict d' \<Longrightarrow> bool_tree (VDict (dict_set key w d)) \<Longrightarrow>
              bool_tree (VDict entries) \<Longrightarrow> same_shape d' entries \<Longrightarrow>
              \<exists>d''. combine_permissions (VDict (dict_set key w d)) entries = Inr (VDict d'') \<and>
                merges (VDict (dict_set key w d)) (VDict entries) (VDict d'')"
      and w: "bool_tree w" "\<And>keys. grants w keys \<longleftrightarrow> (\<exists>a. map_of d key = Some a \<and> grants a keys) \<or> grants v keys"
        "\<And>x. bool_tree x \<Longrightarrow> \<forall>a. map_of d key = Some a \<longrightarrow> shape a x \<Longrightarrow> shape v x \<Longrightarrow> shape w x"
        "\<And>a x. map_of d key = Some a \<Longrightarrow> value_covers a x \<Longrightarrow> value_covers w x"
    for w
  proof -
    have "bool_tree (VDict (dict_set key w d))"
      by (rule bool_tree_dict_set [OF bt(1) w(1)])
    moreover have "same_shape (dict_set key w d) entries"
      using "2.prems"(4) k by (force simp: same_shape_iff)
    ultimately obtain d'' where r: "combine_permissions (VDict (dict_set key w d)) entries = Inr (VDict d'')"
        "merges (VDict (dict_set key w d)) (VDict entries) (VDict d'')"
      using ih bt(3) by blast
    have "merges (VDict d) (VDict ((key, v) # entries)) (VDict d'')"
      by (rule merges_step [OF bt(1) "2.prems"(3) w r(2)])
    then show ?thesis using r(1) unfolding d by blast
  qed
  show ?case
  proof (cases v)
    case (VBool b)
    define w where "w = (case map_of d key of None \<Rightarrow> v | Some a \<Rightarrow> py_or a v)"
    have a: "\<exists>c. a = VBool c" if "map_of d key = Some a" for a
      using sh [OF that] old [OF that] VBool by (cases a) (auto simp: shape_def)
    have g: "grants (VBool c) keys \<longleftrightarrow> keys = [] \<and> c" for c keys
      by (cases keys) auto
    have c: "combine_permissions p ((key, v) # entries) = combine_permissions (VDict (dict_set key w d)) entries"
      unfolding w_def VBool d by simp
    show ?thesis
      unfolding c
    proof (rule step [of w])
      show "bool_tree w" using a by (auto simp: w_def VBool py_or_def split: option.splits)
      show "grants w keys \<longleftrightarrow> (\<exists>a. map_of d key = Some a \<and> grants a keys) \<or> grants v keys" for keys
        using a by (auto simp: w_def VBool py_or_def g split: option.splits)
      show "shape v x \<Longrightarrow> shape w x" for x
        using a by (auto simp: w_def VBool py_or_def shape_def split: option.splits pyval.splits)
      show "map_of d key = Some a \<Longrightarrow> value_covers a x \<Longrightarrow> value_covers w x" for a x
        using a by (auto simp: w_def VBool py_or_def)
    qed (use "2.IH"(2) [OF d VBool] VBool w_def in auto)
  next
    case (VDict dv)
    define base where "base = (case map_of d key of None \<Rightarrow> VDict [] | Some w \<Rightarrow> w)"
    obtain c where base: "base = VDict c" "bool_tree base" "same_shape c dv"
    proof (cases "map_of d key")
      case None
      then show ?thesis using that [of "[]"] by (simp add: base_def same_shape_iff)
    next
      case (Some a)
      then obtain c where "a = VDict c" "same_shape c dv"
        using sh [OF Some] VDict by (cases a) (auto simp: shape_def)
      then show ?thesis using that [of c] old [OF Some] Some by (simp add: base_def)
    qed
    obtain w where w: "combine_permissions base dv = Inr (VDict w)" "merges base v (VDict w)"
      using "2.IH"(7) [OF d VDict] base bt(2) VDict by (auto simp: base_def)
    have c: "combine_permissions p ((key, v) # entries) = combine_permissions (VDict (dict_set key (VDict w) d)) entries"
      using w(1) by (simp add: d VDict base_def)
    have empty: "\<not> grants (VDict []) keys" for keys by (cases keys) auto
    show ?thesis
      unfolding c
    proof (rule step [of "VDict w"])
      show "bool_tree (VDict w)" using w(2) by (simp add: merges_def)
      show "grants (VDict w) keys \<longleftrightarrow> (\<exists>a. map_of d key = Some a \<and> grants a keys) \<or> grants v keys" for keys
        using w(2) empty by (auto simp: merges_def base_def split: option.splits)
      show "bool_tree x \<Longrightarrow> \<forall>a. map_of d key = Some a \<longrightarrow> shape a x \<Longrightarrow> shape v x \<Longrightarrow> shape (VDict w) x" for x
      proof -
        assume x: "bool_tree x" "\<forall>a. map_of d key = Some a \<longrightarrow> shape a x" "shape v x"
        have "shape base x"
          using x(2,3) VDict
          by (cases x) (auto simp: base_def shape_def [of "VDict dv"] same_shape_iff [of "[]"] split: option.splits)
        then show "shape (VDict w) x" using w(2) x unfolding merges_def by blast
      qed
      show "map_of d key = Some a \<Longrightarrow> value_covers a x \<Longrightarrow> value_covers (VDict w) x" for a x
        using w(2) by (simp add: merges_def base_def)
    qed (use "2.IH"(8) [OF d VDict] in auto)
  qed (use bt(2) in auto)
qed

fun all_fit :: "pydict list \<Rightarrow> bool" where
  "all_fit [] = True"
| "all_fit (d # ds) = (list_all (same_shape d) ds \<and> all_fit ds)"

lemma combine_groups_merges:
  "bool_tree (VDict d) \<Longrightarrow> list_all (\<lambda>g. bool_tree (VDict g)) groups \<Longrightarrow> all_fit (d # groups) \<Longrightarrow>
   \<exists>p. combine_groups (VDict d) groups = Inr (VDict p) \<and> (\<forall>x. value_covers (VDict d) x \<longrightarrow> value_covers (VDict p) x) \<and>
     (\<forall>keys. grants (VDict p) keys \<longleftrightarrow> grants (VDict d) keys \<or> (\<exists>g\<in>set groups. grants (VDict g) keys))"
proof (induction groups arbitrary: d)
  case (Cons g groups)
  have sd: "same_shape d g" "list_all (same_shape g) groups" "list_all (same_shape d) groups"
    using Cons.prems(3) by auto
  obtain p where p: "combine_permissions (VDict d) g = Inr (VDict p)" "merges (VDict d) (VDict g) (VDict p)"
    using combine_merges [OF refl Cons.prems(1) _ sd(1)] Cons.prems(2) by auto
  have "same_shape p h" if "h \<in> set groups" for h
  proof -
    have "bool_tree (VDict h)" "same_shape d h" "same_shape g h"
      using sd that Cons.prems(2) by (auto simp: list_all_iff)
    moreover have "bool_tree (VDict h) \<longrightarrow> shape (VDict d) (VDict h) \<longrightarrow> shape (VDict g) (VDict h) \<longrightarrow>
        shape (VDict p) (VDict h)"
      using p(2) unfolding merges_def by blast
    ultimately show ?thesis by simp
  qed
  then obtain q where q: "combine_groups (VDict p) groups = Inr (VDict q)" "\<forall>x. value_covers (VDict p) x \<longrightarrow> value_covers (VDict q) x"
      "\<And>keys. grants (VDict q) keys \<longleftrightarrow> grants (VDict p) keys \<or> (\<exists>g\<in>set groups. grants (VDict g) keys)"
    using Cons.IH [of p] p(2) Cons.prems by (auto simp: merges_def list_all_iff)
  show ?case
    using p q by (auto simp: merges_def)
qed auto

lemma permission_setting_tree [simp]: "bool_tree (permission_setting env name)" "\<not> is_mapping (permission_setting env name)"
  by (simp_all add: permission_setting_def)

lemma default_user_permissions_tree: "bool_tree (VDict (default_user_permissions env))"
  by (simp add: default_user_permissions_def)

section \<open>The list of permissions and the check of one permission agree\<close>

lemma any_group_permits_iff:
  "any_group_permits groups keys = Inr b \<Longrightarrow> b \<longleftrightarrow> (\<exists>g\<in>set groups. grants (VDict g) keys)"
  by (induction groups) (auto simp: bind_res_Inr grants_def split: if_splits)

lemma covers_refl:
  "bool_tree v \<Longrightarrow> value_covers v v"
proof (induction v)
  case (VDict d)
  have "\<exists>w. map_of d k = Some w \<and> value_covers w v" if "(k, v) \<in> set d" for k v
    using VDict that by (intro exI [of _ v]) (auto simp: list_all_iff)
  then show ?case by (simp add: covers_iff)
qed (auto simp: value_covers_def)

text \<open>C31 (equivalence): when the configured permissions are complete (nothing is missing that the program's
  defaults have) and configuration and groups are trees of booleans of one shape, the list of permissions
  sent to the client grants a permission exactly when the check in front of each operation grants it.\<close>

theorem listed_permissions_enforced:
  assumes "bool_tree (VDict configured)" "list_all (\<lambda>g. bool_tree (VDict g)) groups" "all_fit (configured # groups)"
    and "fill_missing_permissions configured (default_user_permissions env) = configured"
    and "has_permission (default_user_permissions env) groups permission_key configured = Inr allowed"
  shows "\<exists>listed. get_permissions groups configured = Inr listed \<and>
           (get_permission (VDict listed) (split_dots permission_key) = Inr True \<longleftrightarrow> allowed)"
proof -
  obtain p where p: "combine_groups (VDict configured) groups = Inr (VDict p)"
      "\<forall>x. value_covers (VDict configured) x \<longrightarrow> value_covers (VDict p) x"
      "\<And>keys. grants (VDict p) keys \<longleftrightarrow> grants (VDict configured) keys \<or> (\<exists>g\<in>set groups. grants (VDict g) keys)"
    using combine_groups_merges [OF assms(1,2,3)] by blast
  have c: "covers p configured"
    using p(2) covers_refl [OF assms(1)] by (metis value_covers_simps(1))
  have "get_permissions groups configured = Inr p"
    using p(1) fill_missing_covered [OF c] by (simp add: get_permissions_def)
  moreover have "allowed \<longleftrightarrow> grants (VDict p) (split_dots permission_key)"
    using assms(4,5) any_group_permits_iff [of groups "split_dots permission_key"]
    by (auto simp: has_permission_def Let_def bind_res_Inr p(3) grants_def [of "VDict configured"] split: if_splits)
  ultimately show ?thesis by (auto simp: grants_def)
qed

lemma default_user_permissions_complete:
  "fill_missing_permissions (default_user_permissions env) (default_user_permissions env) = default_user_permissions env"
  using covers_refl [OF default_user_permissions_tree] by (simp add: fill_missing_covered)

lemma split_api_keys: "split_dots ''features.api_keys'' = [''features'', ''api_keys'']"
  by code_simp

lemma listed_permissions_enforced_witness:
  "\<exists>listed. get_permissions [[(''features'', VDict [(''api_keys'', VBool True)])]] (default_user_permissions (\<lambda>_. None)) = Inr listed \<and>
     (get_permission (VDict listed) (split_dots ''features.api_keys'') = Inr True \<longleftrightarrow> True)"
proof (rule listed_permissions_enforced [OF default_user_permissions_tree _ _ default_user_permissions_complete])
  show "all_fit [default_user_permissions (\<lambda>_. None), [(''features'', VDict [(''api_keys'', VBool True)])]]"
    by (simp add: default_user_permissions_def)
  show "has_permission (default_user_permissions (\<lambda>_. None)) [[(''features'', VDict [(''api_keys'', VBool True)])]]
          ''features.api_keys'' (default_user_permissions (\<lambda>_. None)) = Inr True"
    by (simp add: has_permission_def split_api_keys)
qed simp

text \<open>
  A configuration stored before a permission existed is not complete: the check fills the gap from the
  program's defaults, the list does not.
\<close>

lemma dict_set_fresh: "map_of d k = None \<Longrightarrow> dict_set k v d = d @ [(k, v)]"
  by (induction d) (auto split: if_splits)

lemma fill_missing_disjoint:
  "distinct (map fst p @ map fst d) \<Longrightarrow> fill_missing_permissions p d = p @ d"
proof (induction d arbitrary: p)
  case (Cons e d)
  obtain a b where e: "e = (a, b)" by fastforce
  have "map_of p a = None" using Cons.prems by (auto simp: e map_of_eq_None_iff)
  then show ?case
    using Cons.prems Cons.IH [of "p @ [(a, b)]"] by (auto simp: e dict_set_fresh)
qed simp

lemma unlisted_permission_granted:
  "has_permission (default_user_permissions (\<lambda>_. None)) [] ''chat.edit'' [] = Inr True" "get_permissions [] [] = Inr []"
proof -
  have "fill_missing_permissions [] (default_user_permissions (\<lambda>_. None)) = default_user_permissions (\<lambda>_. None)"
    using fill_missing_disjoint [of "[]"] default_user_permissions_tree by simp
  moreover have "split_dots ''chat.edit'' = [''chat'', ''edit'']" "permission_setting (\<lambda>_. None) ''CHAT_EDIT'' = VBool True"
    by code_simp+
  ultimately show "has_permission (default_user_permissions (\<lambda>_. None)) [] ''chat.edit'' [] = Inr True"
    by (simp add: has_permission_def) (simp add: default_user_permissions_def)
qed (simp add: get_permissions_def)

end
