(* ===== verification/AccessGrants.thy ===== *)
theory AccessGrants
  imports Permissions
begin

text \<open>
  Who may read and write what in Open WebUI (\<open>models/access_grants.py\<close>, the sharing checks of
  \<open>utils/access_control/__init__.py\<close>, the access routes of \<open>routers/knowledge.py\<close>): the grants sent by
  a client are validated and reduced to what the sender may share, stored one row per resource,
  principal and permission, and read by the checks in front of every operation.
\<close>

section \<open>Grants as clients send them\<close>

text \<open>An element of \<open>access_grants\<close>: a JSON value of a request, or an object with attributes (a Pydantic model).\<close>

datatype grant_item = Json pyval | Object pydict

definition item_get :: "grant_item \<Rightarrow> string \<Rightarrow> pyval" where
  \<comment> \<open>\<open>grant.get(k) if isinstance(grant, dict) else getattr(grant, k, None)\<close>\<close>
  "item_get g k = (case g of Json (VDict d) \<Rightarrow> vget d k | Json _ \<Rightarrow> VNone | Object d \<Rightarrow> vget d k)"

record plain_grant =
  pg_id :: string
  pg_principal_type :: string
  pg_principal_id :: string
  pg_permission :: string

definition grant_key :: "grant_item \<Rightarrow> (string \<times> string \<times> string) option" where
  \<comment> \<open>the conditions of \<open>normalize_access_grants\<close>, and the key of an element that passes them\<close>
  "grant_key g =
     (case (item_get g ''principal_type'', item_get g ''principal_id'', item_get g ''permission'') of
        (VStr ptype, VStr pid, VStr permission) \<Rightarrow>
          if ptype \<notin> {''user'', ''group'', ''anyone''} \<or> permission \<notin> {''read'', ''write''} \<or> pid = []
             \<or> (ptype = ''anyone'' \<and> (pid \<noteq> ''*'' \<or> permission \<noteq> ''read''))
          then None else Some (ptype, pid, permission)
      | _ \<Rightarrow> None)"

text \<open>The identifier a grant carries, or the one \<open>uuid4()\<close> returns when the loop is at the element.\<close>

definition grant_id :: "string \<Rightarrow> grant_item \<Rightarrow> string" where
  "grant_id fresh g = (case item_get g ''id'' of VStr i \<Rightarrow> if i = [] then fresh else i | _ \<Rightarrow> fresh)"

fun normalize_from ::
  "(nat \<Rightarrow> string) \<Rightarrow> nat \<Rightarrow> (string \<times> string \<times> string, plain_grant) dict \<Rightarrow> grant_item list \<Rightarrow>
   (string \<times> string \<times> string, plain_grant) dict"
where
  "normalize_from uuid n deduped [] = deduped"
| "normalize_from uuid n deduped (g # gs) =
     normalize_from uuid (Suc n)
       (case grant_key g of None \<Rightarrow> deduped
        | Some (ptype, pid, permission) \<Rightarrow>
            dict_set (ptype, pid, permission)
              \<lparr>pg_id = grant_id (uuid n) g, pg_principal_type = ptype, pg_principal_id = pid, pg_permission = permission\<rparr>
              deduped) gs"

definition normalize_access_grants :: "(nat \<Rightarrow> string) \<Rightarrow> grant_item list \<Rightarrow> plain_grant list" where
  "normalize_access_grants uuid gs = map snd (normalize_from uuid 0 [] gs)"

definition has_public_read_access_grant :: "(nat \<Rightarrow> string) \<Rightarrow> grant_item list \<Rightarrow> bool" where
  "has_public_read_access_grant uuid gs =
     list_ex (\<lambda>g. pg_principal_type g = ''user'' \<and> pg_principal_id g = ''*'' \<and> pg_permission g = ''read'')
       (normalize_access_grants uuid gs)"

definition has_public_write_access_grant :: "(nat \<Rightarrow> string) \<Rightarrow> grant_item list \<Rightarrow> bool" where
  "has_public_write_access_grant uuid gs =
     list_ex (\<lambda>g. pg_principal_type g = ''user'' \<and> pg_principal_id g = ''*'' \<and> pg_permission g = ''write'')
       (normalize_access_grants uuid gs)"

definition has_anyone_read_access_grant :: "(nat \<Rightarrow> string) \<Rightarrow> grant_item list \<Rightarrow> bool" where
  "has_anyone_read_access_grant uuid gs =
     list_ex (\<lambda>g. pg_principal_type g = ''anyone'' \<and> pg_principal_id g = ''*'' \<and> pg_permission g = ''read'')
       (normalize_access_grants uuid gs)"

definition has_user_access_grant :: "(nat \<Rightarrow> string) \<Rightarrow> grant_item list \<Rightarrow> bool" where
  "has_user_access_grant uuid gs =
     list_ex (\<lambda>g. pg_principal_type g = ''user'' \<and> pg_principal_id g \<noteq> ''*'') (normalize_access_grants uuid gs)"

definition strip_user_access_grants :: "grant_item list \<Rightarrow> grant_item list" where
  "strip_user_access_grants gs =
     filter (\<lambda>g. \<not> (item_get g ''principal_type'' = VStr ''user'' \<and> item_get g ''principal_id'' \<noteq> VStr ''*'')) gs"

definition strip_anyone_access_grants :: "grant_item list \<Rightarrow> grant_item list" where
  "strip_anyone_access_grants gs = filter (\<lambda>g. item_get g ''principal_type'' \<noteq> VStr ''anyone'') gs"

section \<open>What the sender may share\<close>

text \<open>
  \<open>filter_allowed_access_grants\<close>: \<open>may\<close> is the check of a permission of the sender. \<open>anyone_key\<close> is the
  permission for sharing without sign-in, when the route offers it.
\<close>

definition without_public :: "grant_item list \<Rightarrow> grant_item list" where
  "without_public gs =
     filter (\<lambda>g. \<not> (item_get g ''principal_type'' = VStr ''user'' \<and> item_get g ''principal_id'' = VStr ''*'')) gs"

definition without_groups :: "grant_item list \<Rightarrow> grant_item list" where
  "without_groups gs = filter (\<lambda>g. item_get g ''principal_type'' \<noteq> VStr ''group'') gs"

definition reduce_if ::
  "bool \<Rightarrow> bool result \<Rightarrow> (grant_item list \<Rightarrow> grant_item list) \<Rightarrow> grant_item list \<Rightarrow> grant_item list result"
where
  \<comment> \<open>\<open>if concerned and not await has_permission(...): access_grants = reduce(access_grants)\<close>\<close>
  "reduce_if concerned allowed reduce gs =
     (if concerned then bind_res allowed (\<lambda>yes. Inr (if yes then gs else reduce gs)) else Inr gs)"

definition filter_allowed_access_grants ::
  "(nat \<Rightarrow> string) \<Rightarrow> (string \<Rightarrow> bool result) \<Rightarrow> string \<Rightarrow> grant_item list \<Rightarrow> string \<Rightarrow> string option \<Rightarrow> grant_item list result"
where
  "filter_allowed_access_grants uuid may role gs public_key anyone_key =
     (if gs = [] then Inr gs
      else bind_res
        (reduce_if (has_anyone_read_access_grant uuid gs)
           (case anyone_key of None \<Rightarrow> Inr False
            | Some key \<Rightarrow> if key = [] then Inr False else if role = ''admin'' then Inr True else may key)
           strip_anyone_access_grants gs)
        (\<lambda>gs. if role = ''admin'' then Inr gs
              else bind_res
                (reduce_if (has_public_read_access_grant uuid gs \<or> has_public_write_access_grant uuid gs)
                   (may public_key) without_public gs)
                (\<lambda>gs. bind_res
                   (reduce_if (has_user_access_grant uuid gs) (may ''access_grants.allow_users'') strip_user_access_grants gs)
                   (\<lambda>gs. reduce_if (list_ex (\<lambda>g. item_get g ''principal_type'' = VStr ''group'') gs)
                            (may ''access_grants.allow_groups'') without_groups gs))))"

section \<open>The table of grants\<close>

record grant_row =
  ag_id :: string
  ag_resource_type :: string
  ag_resource_id :: string
  ag_principal_type :: string
  ag_principal_id :: string
  ag_permission :: string
  ag_created :: int

definition row_key :: "grant_row \<Rightarrow> string \<times> string \<times> string \<times> string \<times> string" where
  \<comment> \<open>the columns of \<open>uq_access_grant_grant\<close>\<close>
  "row_key r = (ag_resource_type r, ag_resource_id r, ag_principal_type r, ag_principal_id r, ag_permission r)"

definition of_resource :: "string \<Rightarrow> string \<Rightarrow> grant_row \<Rightarrow> bool" where
  "of_resource rtype rid r \<longleftrightarrow> ag_resource_type r = rtype \<and> ag_resource_id r = rid"

definition valid_table :: "grant_row list \<Rightarrow> bool" where
  \<comment> \<open>primary key and unique constraint\<close>
  "valid_table rows \<longleftrightarrow> distinct (map ag_id rows) \<and> distinct (map row_key rows)"

definition commit_rows :: "grant_row list \<Rightarrow> grant_row list result" where
  "commit_rows rows = (if valid_table rows then Inr rows else Inl (OtherError ''IntegrityError''))"

definition grant_access ::
  "string \<Rightarrow> int \<Rightarrow> string \<Rightarrow> string \<Rightarrow> string \<Rightarrow> string \<Rightarrow> string \<Rightarrow> grant_row list \<Rightarrow> (grant_row \<times> grant_row list) result"
where
  "grant_access uuid now rtype rid ptype pid permission rows =
     (case find (\<lambda>r. row_key r = (rtype, rid, ptype, pid, permission)) rows of
        Some r \<Rightarrow> Inr (r, rows)
      | None \<Rightarrow>
          let r = \<lparr>ag_id = uuid, ag_resource_type = rtype, ag_resource_id = rid, ag_principal_type = ptype,
                   ag_principal_id = pid, ag_permission = permission, ag_created = now\<rparr>
          in bind_res (commit_rows (rows @ [r])) (\<lambda>rows. Inr (r, rows)))"

definition revoke_access ::
  "string \<Rightarrow> string \<Rightarrow> string \<Rightarrow> string \<Rightarrow> string \<Rightarrow> grant_row list \<Rightarrow> bool \<times> grant_row list"
where
  "revoke_access rtype rid ptype pid permission rows =
     (let kept = filter (\<lambda>r. row_key r \<noteq> (rtype, rid, ptype, pid, permission)) rows
      in (length kept < length rows, kept))"

definition revoke_all_access :: "string \<Rightarrow> string \<Rightarrow> grant_row list \<Rightarrow> nat \<times> grant_row list" where
  "revoke_all_access rtype rid rows =
     (let kept = filter (\<lambda>r. \<not> of_resource rtype rid r) rows in (length rows - length kept, kept))"

definition set_access_grants ::
  "(nat \<Rightarrow> string) \<Rightarrow> (nat \<Rightarrow> string) \<Rightarrow> int \<Rightarrow> string \<Rightarrow> string \<Rightarrow> grant_item list \<Rightarrow> grant_row list \<Rightarrow>
   (grant_row list \<times> grant_row list) result"
where
  \<comment> \<open>the new rows and the table; \<open>row_uuid\<close> are the identifiers drawn for the rows\<close>
  "set_access_grants uuid row_uuid now rtype rid gs rows =
     (let new = map (\<lambda>(i, g). \<lparr>ag_id = row_uuid i, ag_resource_type = rtype, ag_resource_id = rid,
                    ag_principal_type = pg_principal_type g, ag_principal_id = pg_principal_id g,
                    ag_permission = pg_permission g, ag_created = now\<rparr>)
                  (enumerate_from 0 (normalize_access_grants uuid gs))
      in bind_res (commit_rows (filter (\<lambda>r. \<not> of_resource rtype rid r) rows @ new)) (\<lambda>rows. Inr (new, rows)))"

definition get_grants_by_resource :: "string \<Rightarrow> string \<Rightarrow> grant_row list \<Rightarrow> grant_row list" where
  "get_grants_by_resource rtype rid rows = filter (of_resource rtype rid) rows"

definition get_grants_by_resources :: "string \<Rightarrow> string list \<Rightarrow> grant_row list \<Rightarrow> (string, grant_row list) dict" where
  "get_grants_by_resources rtype rids rows =
     foldl (\<lambda>d r. if ag_resource_type r = rtype \<and> ag_resource_id r \<in> set rids
                  then dict_set (ag_resource_id r) (dict_get d (ag_resource_id r) [] @ [r]) d else d)
       (foldl (\<lambda>d rid. dict_set rid [] d) [] rids) rows"

section \<open>Reading the table\<close>

definition principal_matches :: "string \<Rightarrow> string list \<Rightarrow> grant_row \<Rightarrow> bool" where
  \<comment> \<open>public, the user, or one of the user's groups\<close>
  "principal_matches user groups r \<longleftrightarrow>
     (ag_principal_type r = ''user'' \<and> ag_principal_id r = ''*'') \<or>
     (ag_principal_type r = ''user'' \<and> ag_principal_id r = user) \<or>
     (groups \<noteq> [] \<and> ag_principal_type r = ''group'' \<and> ag_principal_id r \<in> set groups)"

definition group_ids :: "group_tables \<Rightarrow> string \<Rightarrow> string list option \<Rightarrow> string list" where
  \<comment> \<open>\<open>user_group_ids\<close>, looked up when the caller does not pass them\<close>
  "group_ids tables user given =
     (case given of Some ids \<Rightarrow> ids | None \<Rightarrow> map gr_id (get_groups_by_member_id tables user))"

definition has_access ::
  "group_tables \<Rightarrow> grant_row list \<Rightarrow> string \<Rightarrow> string \<Rightarrow> string \<Rightarrow> string \<Rightarrow> string list option \<Rightarrow> bool"
where
  "has_access tables rows user rtype rid permission given =
     list_ex (\<lambda>r. of_resource rtype rid r \<and> ag_permission r = permission \<and>
                  principal_matches user (group_ids tables user given) r) rows"

definition has_anyone_access :: "grant_row list \<Rightarrow> string \<Rightarrow> string \<Rightarrow> string \<Rightarrow> bool" where
  "has_anyone_access rows rtype rid permission =
     list_ex (\<lambda>r. row_key r = (rtype, rid, ''anyone'', ''*'', permission)) rows"

definition get_accessible_resource_ids ::
  "group_tables \<Rightarrow> grant_row list \<Rightarrow> string \<Rightarrow> string \<Rightarrow> string list \<Rightarrow> string \<Rightarrow> string list option \<Rightarrow> string list"
where
  \<comment> \<open>\<open>SELECT DISTINCT resource_id\<close>, as a list without duplicates\<close>
  "get_accessible_resource_ids tables rows user rtype rids permission given =
     (if rids = [] then []
      else remdups (map ag_resource_id
             (filter (\<lambda>r. ag_resource_type r = rtype \<and> ag_resource_id r \<in> set rids \<and> ag_permission r = permission \<and>
                          principal_matches user (group_ids tables user given) r) rows)))"

section \<open>Grants kept in a configuration\<close>

text \<open>
  \<open>has_access\<close> and \<open>has_connection_access\<close> of \<open>utils/access_control\<close>: grants of tool servers and arena
  models are JSON in the configuration; entries that are not dictionaries are skipped.
\<close>

fun config_grants :: "string \<Rightarrow> string \<Rightarrow> string list \<Rightarrow> pyval list \<Rightarrow> bool" where
  "config_grants user permission groups [] = False"
| "config_grants user permission groups (g # gs) =
     (case g of
        VDict d \<Rightarrow>
          if vget d ''permission'' \<noteq> VStr permission then config_grants user permission groups gs
          else if vget d ''principal_type'' = VStr ''user'' \<and>
                  (vget d ''principal_id'' = VStr ''*'' \<or> vget d ''principal_id'' = VStr user) then True
          else if vget d ''principal_type'' = VStr ''group'' \<and> groups \<noteq> [] \<and>
                  vget d ''principal_id'' \<in> VStr ` set groups then True
          else config_grants user permission groups gs
      | _ \<Rightarrow> config_grants user permission groups gs)"

definition has_config_access :: "group_tables \<Rightarrow> string \<Rightarrow> string \<Rightarrow> pyval list \<Rightarrow> string list option \<Rightarrow> bool" where
  "has_config_access tables user permission gs given =
     (gs \<noteq> [] \<and> config_grants user permission (group_ids tables user given) gs)"

section \<open>Lists of documents\<close>

record access_doc =
  dc_id :: string
  dc_owner :: string

definition grant_exists ::
  "grant_row list \<Rightarrow> string option \<Rightarrow> string list \<Rightarrow> string \<Rightarrow> string \<Rightarrow> access_doc \<Rightarrow> bool"
where
  "grant_exists rows user groups rtype permission d =
     list_ex (\<lambda>r. of_resource rtype (dc_id d) r \<and> ag_permission r = permission \<and>
        ((ag_principal_type r = ''user'' \<and> ag_principal_id r = ''*'') \<or>
         (case user of None \<Rightarrow> False
          | Some u \<Rightarrow> u \<noteq> [] \<and> ag_principal_type r = ''user'' \<and> ag_principal_id r = u) \<or>
         (groups \<noteq> [] \<and> ag_principal_type r = ''group'' \<and> ag_principal_id r \<in> set groups))) rows"

definition named_owner :: "string option \<Rightarrow> access_doc \<Rightarrow> bool" where
  "named_owner user d = (case user of None \<Rightarrow> False | Some u \<Rightarrow> u \<noteq> [] \<and> dc_owner d = u)"

definition has_read_only_permission_filter ::
  "grant_row list \<Rightarrow> string option \<Rightarrow> string list \<Rightarrow> string \<Rightarrow> access_doc list \<Rightarrow> access_doc list"
where
  "has_read_only_permission_filter rows user groups rtype docs =
     filter (\<lambda>d. grant_exists rows user groups rtype ''read'' d \<and>
                 \<not> grant_exists rows user groups rtype ''write'' d \<and> \<not> named_owner user d) docs"

definition has_permission_filter ::
  "grant_row list \<Rightarrow> string option \<Rightarrow> string list \<Rightarrow> string \<Rightarrow> string \<Rightarrow> access_doc list \<Rightarrow> access_doc list"
where
  \<comment> \<open>without a user and without groups the query is not restricted\<close>
  "has_permission_filter rows user groups rtype permission docs =
     (if permission = ''read_only'' then has_read_only_permission_filter rows user groups rtype docs
      else if groups = [] \<and> (user = None \<or> user = Some []) then docs
      else filter (\<lambda>d. grant_exists rows user groups rtype permission d \<or> named_owner user d) docs)"

section \<open>Access to models\<close>

record model_row =
  mo_id :: string
  mo_user :: string
  mo_base :: "string option"

definition get_model_by_id :: "model_row list \<Rightarrow> string \<Rightarrow> model_row option" where
  "get_model_by_id models i = find (\<lambda>m. mo_id m = i) models"

text \<open>The loop over \<open>base_model_id\<close>: \<open>readable\<close> is the check of one model.\<close>

function walk_base_models ::
  "model_row list \<Rightarrow> (model_row \<Rightarrow> bool) \<Rightarrow> string option \<Rightarrow> string list \<Rightarrow> string option \<Rightarrow> bool"
where
  "walk_base_models models readable role seen base =
     (case base of None \<Rightarrow> True
      | Some b \<Rightarrow>
          if b = [] \<or> b \<in> set seen then True
          else case get_model_by_id models b of
                 None \<Rightarrow> role = Some ''admin''
               | Some m \<Rightarrow> if readable m then walk_base_models models readable role (b # seen) (mo_base m) else False)"
  by pat_completeness auto
termination
proof (relation "measure (\<lambda>(models, readable, role, seen, base). card (set (map mo_id models) - set seen))", goal_cases)
  case (2 models readable role seen base b m)
  then have "b \<in> set (map mo_id models) - set seen"
    by (auto simp: get_model_by_id_def find_Some_iff)
  then have "set (map mo_id models) - set (b # seen) \<subset> set (map mo_id models) - set seen" by auto
  then show ?case by (simp add: psubset_card_mono)
qed simp

declare walk_base_models.simps [simp del]

definition readable_model :: "group_tables \<Rightarrow> grant_row list \<Rightarrow> string \<Rightarrow> string list option \<Rightarrow> model_row \<Rightarrow> bool" where
  "readable_model tables rows user given m \<longleftrightarrow>
     user = mo_user m \<or> has_access tables rows user ''model'' (mo_id m) ''read'' given"

definition has_base_model_access ::
  "group_tables \<Rightarrow> grant_row list \<Rightarrow> model_row list \<Rightarrow> string \<Rightarrow> model_row \<Rightarrow> string option \<Rightarrow> string list option \<Rightarrow> bool"
where
  "has_base_model_access tables rows models user m role given =
     walk_base_models models (readable_model tables rows user given) role [mo_id m] (mo_base m)"

record web_user =
  us_id :: string
  us_role :: string

definition has_connection_access ::
  "bool \<Rightarrow> group_tables \<Rightarrow> web_user \<Rightarrow> pydict \<Rightarrow> string list option \<Rightarrow> bool"
where
  \<comment> \<open>a connection without grants is for administrators only\<close>
  "has_connection_access bypass_admin tables user connection given =
     (if us_role user = ''admin'' \<and> bypass_admin then True
      else let gs = vget_default (as_dict (py_or (vget connection ''config'') (VDict []))) ''access_grants'' (VList [])
           in if \<not> truthy gs then us_role user = ''admin''
              else has_config_access tables (us_id user) ''read'' (py_iter gs)
                     (Some (group_ids tables (us_id user) given)))"

datatype http_failure = HTTP (http_status: int) (http_detail: string) | Escapes exn

type_synonym 'a http_reply = "http_failure + 'a"

definition check_model_access ::
  "group_tables \<Rightarrow> grant_row list \<Rightarrow> model_row list \<Rightarrow> web_user \<Rightarrow> model_row option \<Rightarrow> bool \<Rightarrow> unit http_reply"
where
  "check_model_access tables rows models user model bypass_filter =
     (if bypass_filter then Inr ()
      else case model of
             Some m \<Rightarrow>
               if us_role user \<noteq> ''admin'' then
                 (let groups = Some (group_ids tables (us_id user) None)
                  in if \<not> readable_model tables rows (us_id user) groups m then Inl (HTTP 403 ''Model not found'')
                     else if \<not> has_base_model_access tables rows models (us_id user) m (Some (us_role user)) groups
                     then Inl (HTTP 403 ''Model not found'')
                     else Inr ())
               else Inr ()
           | None \<Rightarrow> if us_role user \<noteq> ''admin'' then Inl (HTTP 403 ''Model not found'') else Inr ())"

section \<open>The access route of a knowledge base\<close>

definition not_found :: string where
  "not_found = ''We could not find what you'' @ [CHR 0x27] @ ''re looking for :/''"

definition access_prohibited :: string where
  "access_prohibited = ''You do not have permission to access this resource. '' @
     ''Please contact your administrator for assistance.''"

record access_db =
  ad_groups :: group_tables
  ad_grants :: "grant_row list"
  ad_knowledge :: "access_doc list"

definition may_user :: "(string \<Rightarrow> string option) \<Rightarrow> access_db \<Rightarrow> pydict \<Rightarrow> web_user \<Rightarrow> string \<Rightarrow> bool result" where
  \<comment> \<open>\<open>has_permission\<close> as the routes call it\<close>
  "may_user env db configured user key =
     has_permission (default_user_permissions env) (user_groups (ad_groups db) (us_id user)) key configured"

definition update_knowledge_access ::
  "(string \<Rightarrow> string option) \<Rightarrow> (nat \<Rightarrow> string) \<Rightarrow> (nat \<Rightarrow> string) \<Rightarrow> int \<Rightarrow> pydict \<Rightarrow> string \<Rightarrow> pydict list \<Rightarrow> web_user \<Rightarrow>
   access_db \<Rightarrow> (grant_row list \<times> access_db) http_reply"
where
  "update_knowledge_access env uuid row_uuid now configured kid sent user db =
     (case find (\<lambda>k. dc_id k = kid) (ad_knowledge db) of
        None \<Rightarrow> Inl (HTTP 404 not_found)
      | Some k \<Rightarrow>
          if dc_owner k \<noteq> us_id user
             \<and> \<not> has_access (ad_groups db) (ad_grants db) (us_id user) ''knowledge'' (dc_id k) ''write'' None
             \<and> us_role user \<noteq> ''admin''
          then Inl (HTTP 400 access_prohibited)
          else case filter_allowed_access_grants uuid (may_user env db configured user) (us_role user)
                      (map (\<lambda>g. Json (VDict g)) sent) ''sharing.public_knowledge'' None of
                 Inl e \<Rightarrow> Inl (Escapes e)
               | Inr allowed \<Rightarrow>
                   (case set_access_grants uuid row_uuid now ''knowledge'' kid allowed (ad_grants db) of
                      Inl e \<Rightarrow> Inl (Escapes e)
                    | Inr (new, rows) \<Rightarrow> Inr (new, db\<lparr>ad_grants := rows\<rparr>)))"

end
