(* ===== verification/AccessProperties.thy ===== *)
theory AccessProperties
  imports AccessGrants
begin

text \<open>
  What the access checks of Open WebUI promise: grants are stored as they were sent, reduced to what
  the sender may share; lists of documents agree with the check of each; a model is used only if the
  whole chain of models it rests on is readable.
\<close>

section \<open>Normalised grants\<close>

lemma dict_set_values:
  "(k, v) \<in> set (dict_set k' v' d) \<Longrightarrow> (k, v) = (k', v') \<or> (k, v) \<in> set d"
  using in_dict_set by fastforce

definition plain_key :: "plain_grant \<Rightarrow> string \<times> string \<times> string" where
  "plain_key g = (pg_principal_type g, pg_principal_id g, pg_permission g)"

lemma normalize_from_props:
  "distinct (map fst d) \<Longrightarrow> \<forall>(k, g)\<in>set d. plain_key g = k \<Longrightarrow>
   distinct (map fst (normalize_from uuid n d gs)) \<and>
   (\<forall>(k, g)\<in>set (normalize_from uuid n d gs). plain_key g = k) \<and>
   fst ` set (normalize_from uuid n d gs) = fst ` set d \<union> {k. \<exists>g\<in>set gs. grant_key g = Some k}"
proof (induction uuid n d gs rule: normalize_from.induct)
  case (2 uuid n d g gs)
  show ?case
  proof (cases "grant_key g")
    case None
    then show ?thesis using 2 by auto
  next
    case (Some k)
    obtain ptype pid permission where k: "k = (ptype, pid, permission)" by (cases k) auto
    let ?g = "\<lparr>pg_id = grant_id (uuid n) g, pg_principal_type = ptype, pg_principal_id = pid, pg_permission = permission\<rparr>"
    have "\<forall>(k', g')\<in>set (dict_set k ?g d). plain_key g' = k'"
      using 2(3) by (auto simp: plain_key_def k dest: in_dict_set)
    then show ?thesis
      using 2(1) distinct_dict_set [OF 2(2), of k ?g] Some by (auto simp: k fst_dict_set)
  qed
qed simp

lemma plain_key_normalize:
  "map plain_key (normalize_access_grants uuid gs) = map fst (normalize_from uuid 0 [] gs)"
  using normalize_from_props [of "[]" uuid 0 gs] by (auto simp: normalize_access_grants_def)

lemma distinct_normalize: "distinct (map plain_key (normalize_access_grants uuid gs))"
  using normalize_from_props [of "[]" uuid 0 gs] by (simp add: plain_key_normalize)

lemma set_normalize:
  "plain_key ` set (normalize_access_grants uuid gs) = {k. \<exists>g\<in>set gs. grant_key g = Some k}"
  using normalize_from_props [of "[]" uuid 0 gs] plain_key_normalize [of uuid gs] by (metis (lifting) empty_set image_empty list.map(1) list.set_map sup_bot_left distinct.simps(1) empty_iff)

lemma public_grant_iff:
  "has_public_read_access_grant uuid gs \<longleftrightarrow> (\<exists>g\<in>set gs. grant_key g = Some (''user'', ''*'', ''read''))"
  "has_public_write_access_grant uuid gs \<longleftrightarrow> (\<exists>g\<in>set gs. grant_key g = Some (''user'', ''*'', ''write''))"
  "has_anyone_read_access_grant uuid gs \<longleftrightarrow> (\<exists>g\<in>set gs. grant_key g = Some (''anyone'', ''*'', ''read''))"
  "has_user_access_grant uuid gs \<longleftrightarrow> (\<exists>g\<in>set gs. \<exists>pid permission. pid \<noteq> ''*'' \<and> grant_key g = Some (''user'', pid, permission))"
proof -
  have key: "(\<exists>g\<in>set (normalize_access_grants uuid gs). plain_key g = k) \<longleftrightarrow> (\<exists>g\<in>set gs. grant_key g = Some k)" for k
  proof -
    have "k \<in> plain_key ` set (normalize_access_grants uuid gs) \<longleftrightarrow> (\<exists>g\<in>set gs. grant_key g = Some k)"
      unfolding set_normalize by simp
    then show ?thesis by (auto simp: image_iff)
  qed
  show "has_public_read_access_grant uuid gs \<longleftrightarrow> (\<exists>g\<in>set gs. grant_key g = Some (''user'', ''*'', ''read''))"
    "has_public_write_access_grant uuid gs \<longleftrightarrow> (\<exists>g\<in>set gs. grant_key g = Some (''user'', ''*'', ''write''))"
    "has_anyone_read_access_grant uuid gs \<longleftrightarrow> (\<exists>g\<in>set gs. grant_key g = Some (''anyone'', ''*'', ''read''))"
    by (simp_all add: has_public_read_access_grant_def has_public_write_access_grant_def
        has_anyone_read_access_grant_def list_ex_iff plain_key_def flip: key)
  have "has_user_access_grant uuid gs \<longleftrightarrow>
      (\<exists>pid permission. pid \<noteq> ''*'' \<and> (\<exists>g\<in>set (normalize_access_grants uuid gs). plain_key g = (''user'', pid, permission)))"
    by (auto simp: has_user_access_grant_def list_ex_iff plain_key_def)
  then show "has_user_access_grant uuid gs \<longleftrightarrow>
      (\<exists>g\<in>set gs. \<exists>pid permission. pid \<noteq> ''*'' \<and> grant_key g = Some (''user'', pid, permission))"
    unfolding key by blast
qed

lemma grant_key_fields:
  "grant_key g = Some (ptype, pid, permission) \<Longrightarrow>
   item_get g ''principal_type'' = VStr ptype \<and> item_get g ''principal_id'' = VStr pid \<and>
   item_get g ''permission'' = VStr permission \<and> ptype \<in> {''user'', ''group'', ''anyone''} \<and>
   permission \<in> {''read'', ''write''} \<and> pid \<noteq> [] \<and> (ptype = ''anyone'' \<longrightarrow> pid = ''*'' \<and> permission = ''read'')"
  unfolding grant_key_def by (auto split: pyval.splits if_splits)

section \<open>What the sender may share\<close>

text \<open>An element that a reduction keeps although it concerns it needs the permission.\<close>

lemma reduce_if_keeps:
  assumes "reduce_if concerned allowed (filter P) gs = Inr gs'" "g \<in> set gs'"
    and "g \<in> set gs \<Longrightarrow> \<not> P g \<Longrightarrow> concerned"
  shows "g \<in> set gs \<and> (P g \<or> allowed = Inr True)"
  using assms unfolding reduce_if_def by (auto simp: bind_res_Inr split: if_splits)

lemma reductions_filter:
  "strip_anyone_access_grants = filter (\<lambda>g. item_get g ''principal_type'' \<noteq> VStr ''anyone'')"
  "without_groups = filter (\<lambda>g. item_get g ''principal_type'' \<noteq> VStr ''group'')"
  "without_public =
     filter (\<lambda>g. \<not> (item_get g ''principal_type'' = VStr ''user'' \<and> item_get g ''principal_id'' = VStr ''*''))"
  "strip_user_access_grants =
     filter (\<lambda>g. \<not> (item_get g ''principal_type'' = VStr ''user'' \<and> item_get g ''principal_id'' \<noteq> VStr ''*''))"
  by (simp_all add: fun_eq_iff strip_anyone_access_grants_def without_groups_def without_public_def
      strip_user_access_grants_def)

definition shareable :: "(string \<Rightarrow> bool result) \<Rightarrow> string \<Rightarrow> string \<times> string \<times> string \<Rightarrow> bool" where
  "shareable may public_key k \<longleftrightarrow>
     (case k of (ptype, pid, permission) \<Rightarrow>
        if ptype = ''user'' \<and> pid = ''*'' then may public_key = Inr True
        else if ptype = ''user'' then may ''access_grants.allow_users'' = Inr True
        else ptype = ''group'' \<and> may ''access_grants.allow_groups'' = Inr True)"

lemma filter_allowed_sound:
  assumes "filter_allowed_access_grants uuid may role gs public_key None = Inr gs'" "g \<in> set gs'" "grant_key g = Some k"
  shows "g \<in> set gs" "fst k \<noteq> ''anyone''" "role \<noteq> ''admin'' \<Longrightarrow> shareable may public_key k"
proof -
  obtain ptype pid permission where k: "k = (ptype, pid, permission)" by (cases k) auto
  note f = grant_key_fields [OF assms(3) [unfolded k]]
  have ne: "gs \<noteq> []" using assms(1,2) by (auto simp: filter_allowed_access_grants_def)
  obtain gs1 where g1: "reduce_if (has_anyone_read_access_grant uuid gs) (Inr False) strip_anyone_access_grants gs = Inr gs1"
      and r1: "(if role = ''admin'' then Inr gs1
              else bind_res
                (reduce_if (has_public_read_access_grant uuid gs1 \<or> has_public_write_access_grant uuid gs1)
                   (may public_key) without_public gs1)
                (\<lambda>gs. bind_res
                   (reduce_if (has_user_access_grant uuid gs) (may ''access_grants.allow_users'') strip_user_access_grants gs)
                   (\<lambda>gs. reduce_if (list_ex (\<lambda>g. item_get g ''principal_type'' = VStr ''group'') gs)
                            (may ''access_grants.allow_groups'') without_groups gs))) = Inr gs'"
    using assms(1) ne by (auto simp: filter_allowed_access_grants_def bind_res_Inr)
  have s1: "x \<in> set gs" and a1: "ptype = ''anyone'' \<Longrightarrow> x \<noteq> g" if "x \<in> set gs1" for x
    using reduce_if_keeps [OF g1 [unfolded reductions_filter] that] that assms(3) f
    by (auto simp: k public_grant_iff reduce_if_def split: if_splits)
  have "g \<in> set gs1 \<and> (role \<noteq> ''admin'' \<longrightarrow> shareable may public_key k)"
  proof (cases "role = ''admin''")
    case True
    then show ?thesis using r1 assms(2) by simp
  next
    case False
    obtain gs2 gs3 where
      g2: "reduce_if (has_public_read_access_grant uuid gs1 \<or> has_public_write_access_grant uuid gs1)
             (may public_key) without_public gs1 = Inr gs2"
      and g3: "reduce_if (has_user_access_grant uuid gs2) (may ''access_grants.allow_users'') strip_user_access_grants gs2 = Inr gs3"
      and g4: "reduce_if (list_ex (\<lambda>g. item_get g ''principal_type'' = VStr ''group'') gs3)
                 (may ''access_grants.allow_groups'') without_groups gs3 = Inr gs'"
      using r1 False by (auto simp: bind_res_Inr)
    have p4: "g \<in> set gs3 \<and> (item_get g ''principal_type'' \<noteq> VStr ''group'' \<or> may ''access_grants.allow_groups'' = Inr True)"
      by (rule reduce_if_keeps [OF g4 [unfolded reductions_filter] assms(2)]) (auto simp: list_ex_iff)
    have u3: "has_user_access_grant uuid gs2" if "g \<in> set gs2" "ptype = ''user''" "pid \<noteq> ''*''"
      using that assms(3) unfolding public_grant_iff k by blast
    have p3: "g \<in> set gs2 \<and> (\<not> (item_get g ''principal_type'' = VStr ''user'' \<and> item_get g ''principal_id'' \<noteq> VStr ''*'')
        \<or> may ''access_grants.allow_users'' = Inr True)"
      by (rule reduce_if_keeps [OF g3 [unfolded reductions_filter] conjunct1 [OF p4]]) (use u3 f in simp)
    have u2: "has_public_read_access_grant uuid gs1 \<or> has_public_write_access_grant uuid gs1"
      if "g \<in> set gs1" "ptype = ''user''" "pid = ''*''"
    proof -
      have "permission = ''read'' \<or> permission = ''write''" using f by simp
      then show ?thesis using that assms(3) unfolding public_grant_iff k by (elim disjE) auto
    qed
    have p2: "g \<in> set gs1 \<and> (\<not> (item_get g ''principal_type'' = VStr ''user'' \<and> item_get g ''principal_id'' = VStr ''*'')
        \<or> may public_key = Inr True)"
      by (rule reduce_if_keeps [OF g2 [unfolded reductions_filter] conjunct1 [OF p3]], rule u2) (use f in simp_all)
    have "ptype \<noteq> ''anyone''" using a1 [of g] p2 by blast
    moreover have "ptype \<in> {''user'', ''group'', ''anyone''}" using f by (elim conjE)
    ultimately have "ptype = ''user'' \<or> ptype = ''group''" by blast
    then show ?thesis using p2 p3 p4 f by (elim disjE) (auto simp: shareable_def k)
  qed
  then show "g \<in> set gs" "fst k \<noteq> ''anyone''" "role \<noteq> ''admin'' \<Longrightarrow> shareable may public_key k"
    using s1 a1 f by (auto simp: k)
qed

section \<open>Storing what was sent\<close>

definition new_rows :: "(nat \<Rightarrow> string) \<Rightarrow> int \<Rightarrow> string \<Rightarrow> string \<Rightarrow> plain_grant list \<Rightarrow> grant_row list" where
  "new_rows row_uuid now rtype rid gs =
     map (\<lambda>(i, g). \<lparr>ag_id = row_uuid i, ag_resource_type = rtype, ag_resource_id = rid,
            ag_principal_type = pg_principal_type g, ag_principal_id = pg_principal_id g,
            ag_permission = pg_permission g, ag_created = now\<rparr>) (enumerate_from 0 gs)"

lemma map_enumerate_const: "map (\<lambda>(i, g). f g) (enumerate_from n gs) = map f gs"
  by (induction gs arbitrary: n) simp_all

lemma map_enumerate_index: "map (\<lambda>(i, g). f i) (enumerate_from n gs) = map f [n..<n + length gs]"
  by (induction gs arbitrary: n) (simp_all add: upt_conv_Cons del: upt_Suc)

lemma map_enumerate_new_rows:
  "map row_key (new_rows row_uuid now rtype rid gs) = map (\<lambda>g. (rtype, rid, plain_key g)) gs"
  "map ag_id (new_rows row_uuid now rtype rid gs) = map row_uuid [0..<length gs]"
  using map_enumerate_const [of "\<lambda>g. (rtype, rid, plain_key g)" 0 gs] map_enumerate_index [of row_uuid 0 gs]
  by (simp_all add: new_rows_def row_key_def plain_key_def case_prod_unfold comp_def)

lemma set_access_grants_rows:
  fixes gs uuid rid rtype now
  assumes "valid_table rows" "inj row_uuid" "range row_uuid \<inter> ag_id ` set rows = {}"
  defines "new \<equiv> new_rows row_uuid now rtype rid (normalize_access_grants uuid gs)"
  shows "set_access_grants uuid row_uuid now rtype rid gs rows =
           Inr (new, filter (\<lambda>r. \<not> of_resource rtype rid r) rows @ new)"
    and "valid_table (filter (\<lambda>r. \<not> of_resource rtype rid r) rows @ new)"
    and "row_key ` set new = (\<lambda>k. (rtype, rid, k)) ` {k. \<exists>g\<in>set gs. grant_key g = Some k}"
proof -
  let ?norm = "normalize_access_grants uuid gs"
  show keys: "row_key ` set new = (\<lambda>k. (rtype, rid, k)) ` {k. \<exists>g\<in>set gs. grant_key g = Some k}"
  proof -
    have "row_key ` set new = set (map row_key new)" by simp
    also have "\<dots> = (\<lambda>k. (rtype, rid, k)) ` plain_key ` set ?norm"
      unfolding new_def map_enumerate_new_rows by (simp add: image_image)
    finally show ?thesis unfolding set_normalize .
  qed
  have ids: "ag_id ` set new \<subseteq> range row_uuid"
  proof -
    have "ag_id ` set new = set (map ag_id new)" by simp
    also have "\<dots> \<subseteq> range row_uuid" unfolding new_def map_enumerate_new_rows by auto
    finally show ?thesis .
  qed
  have d1: "distinct (map ag_id new)"
    unfolding new_def map_enumerate_new_rows using assms(2) by (simp add: distinct_map inj_on_def)
  have "map (\<lambda>g. (rtype, rid, plain_key g)) ?norm = map (\<lambda>k. (rtype, rid, k)) (map plain_key ?norm)" by simp
  then have d2: "distinct (map row_key new)"
    unfolding new_def map_enumerate_new_rows using distinct_normalize [of uuid gs]
    by (simp add: distinct_map inj_on_def del: map_map)
  have k2: "row_key r \<notin> row_key ` set new" if "\<not> of_resource rtype rid r" for r
    using that unfolding keys by (auto simp: row_key_def of_resource_def)
  show v: "valid_table (filter (\<lambda>r. \<not> of_resource rtype rid r) rows @ new)"
  proof -
    have "ag_id ` set (filter (\<lambda>r. \<not> of_resource rtype rid r) rows) \<subseteq> ag_id ` set rows" by auto
    then have "ag_id ` set (filter (\<lambda>r. \<not> of_resource rtype rid r) rows) \<inter> ag_id ` set new = {}"
      using assms(3) ids by blast
    moreover have "row_key ` set (filter (\<lambda>r. \<not> of_resource rtype rid r) rows) \<inter> row_key ` set new = {}"
      using k2 unfolding set_filter by blast
    ultimately show ?thesis
      using assms(1) d1 d2 unfolding valid_table_def map_append distinct_append set_map
      by (intro conjI distinct_map_filter) simp_all
  qed
  show "set_access_grants uuid row_uuid now rtype rid gs rows =
           Inr (new, filter (\<lambda>r. \<not> of_resource rtype rid r) rows @ new)"
    using v by (simp add: set_access_grants_def commit_rows_def Let_def new_def new_rows_def)
qed

definition grants_to :: "string \<Rightarrow> string list \<Rightarrow> string \<Rightarrow> grant_item \<Rightarrow> bool" where
  "grants_to user groups permission g \<longleftrightarrow>
     grant_key g \<in> {Some (''user'', ''*'', permission), Some (''user'', user, permission)} \<or>
     list_ex (\<lambda>i. grant_key g = Some (''group'', i, permission)) groups"

lemma has_access_keys:
  "has_access tables rows user rtype rid permission given \<longleftrightarrow>
     (\<exists>k\<in>row_key ` set rows. k = (rtype, rid, ''user'', ''*'', permission) \<or> k = (rtype, rid, ''user'', user, permission) \<or>
        (\<exists>i\<in>set (group_ids tables user given). k = (rtype, rid, ''group'', i, permission)))"
  by (auto simp: has_access_def list_ex_iff of_resource_def principal_matches_def row_key_def)

text \<open>C32 (functional): with fresh identifiers, storing grants for a resource succeeds whatever the client
  sent, duplicates and malformed entries included; the tables' constraints hold afterwards, the grants of
  other resources stay as they were, and the access check then answers exactly as the valid entries that
  were sent say.\<close>

theorem sent_grants_enforced:
  assumes "valid_table rows" "inj row_uuid" "range row_uuid \<inter> ag_id ` set rows = {}"
  shows "\<exists>new rows'. set_access_grants uuid row_uuid now rtype rid gs rows = Inr (new, rows') \<and> valid_table rows' \<and>
           filter (\<lambda>r. \<not> of_resource rtype rid r) rows' = filter (\<lambda>r. \<not> of_resource rtype rid r) rows \<and>
           (\<forall>user permission given. has_access tables rows' user rtype rid permission given \<longleftrightarrow>
              list_ex (grants_to user (group_ids tables user given) permission) gs)"
proof -
  let ?new = "new_rows row_uuid now rtype rid (normalize_access_grants uuid gs)"
  note s = set_access_grants_rows [OF assms, where now = now and rtype = rtype and rid = rid and uuid = uuid and gs = gs]
  have new: "of_resource rtype rid r" if "r \<in> set ?new" for r
    using that by (auto simp: new_rows_def of_resource_def)
  have "has_access tables (filter (\<lambda>r. \<not> of_resource rtype rid r) rows @ ?new) user rtype rid permission given \<longleftrightarrow>
      list_ex (grants_to user (group_ids tables user given) permission) gs" for user permission given
  proof -
    have "has_access tables (filter (\<lambda>r. \<not> of_resource rtype rid r) rows @ ?new) user rtype rid permission given \<longleftrightarrow>
        has_access tables ?new user rtype rid permission given"
      by (auto simp: has_access_def list_ex_iff)
    also have "\<dots> \<longleftrightarrow> list_ex (grants_to user (group_ids tables user given) permission) gs"
      unfolding has_access_keys s(3) by (auto simp: grants_to_def list_ex_iff)
    finally show ?thesis .
  qed
  moreover have "filter (\<lambda>r. \<not> of_resource rtype rid r) (filter (\<lambda>r. \<not> of_resource rtype rid r) rows @ ?new) =
      filter (\<lambda>r. \<not> of_resource rtype rid r) rows"
    using new by (simp add: filter_empty_conv)
  ultimately show ?thesis using s(1,2) by blast
qed

lemma sent_grants_enforced_witness:
  "\<exists>new rows'. set_access_grants (\<lambda>_. ''x'') (\<lambda>n. replicate n CHR ''a'') 0 ''model'' ''m'' [Json VNone, Object []] [] = Inr (new, rows') \<and>
     valid_table rows' \<and> filter (\<lambda>r. \<not> of_resource ''model'' ''m'' r) rows' = [] \<and>
     (\<forall>user permission given. has_access \<lparr>gt_groups = [], gt_members = []\<rparr> rows' user ''model'' ''m'' permission given \<longleftrightarrow>
        list_ex (grants_to user (group_ids \<lparr>gt_groups = [], gt_members = []\<rparr> user given) permission) [Json VNone, Object []])"
  using sent_grants_enforced [of "[]" "\<lambda>n. replicate n CHR ''a''" "\<lambda>_. ''x''" 0 "''model''" "''m''" "[Json VNone, Object []]"
      "\<lparr>gt_groups = [], gt_members = []\<rparr>"]
  by (simp add: valid_table_def inj_def replicate_eq_replicate)

section \<open>Lists and checks\<close>

lemma grant_exists_has_access:
  "user \<noteq> [] \<Longrightarrow> grant_exists rows (Some user) groups rtype permission d \<longleftrightarrow>
     has_access tables rows user rtype (dc_id d) permission (Some groups)"
  by (simp add: grant_exists_def has_access_def principal_matches_def group_ids_def)

text \<open>A list of documents shows exactly those whose own check passes, as owner or by a
  grant, and the read-only list those that can be read but not written and are not the user's own; the
  batch query for accessible resources answers like the check of each resource.\<close>

theorem lists_agree_with_checks:
  assumes "user \<noteq> []" "permission \<noteq> ''read_only''"
  shows "has_permission_filter rows (Some user) groups rtype permission docs =
           filter (\<lambda>d. dc_owner d = user \<or> has_access tables rows user rtype (dc_id d) permission (Some groups)) docs \<and>
         has_permission_filter rows (Some user) groups rtype ''read_only'' docs =
           filter (\<lambda>d. dc_owner d \<noteq> user \<and> has_access tables rows user rtype (dc_id d) ''read'' (Some groups) \<and>
                       \<not> has_access tables rows user rtype (dc_id d) ''write'' (Some groups)) docs \<and>
         set (get_accessible_resource_ids tables rows user rtype rids permission given) =
           {i \<in> set rids. has_access tables rows user rtype i permission given}"
proof (intro conjI)
  show "set (get_accessible_resource_ids tables rows user rtype rids permission given) =
           {i \<in> set rids. has_access tables rows user rtype i permission given}"
    by (auto simp: get_accessible_resource_ids_def has_access_def list_ex_iff of_resource_def)
qed (use assms in \<open>auto simp: has_permission_filter_def has_read_only_permission_filter_def named_owner_def
       grant_exists_has_access [of user _ _ _ _ _ tables] intro!: filter_cong\<close>)

lemma lists_agree_with_checks_witness:
  "has_permission_filter [] (Some ''u'') [] ''note'' ''read'' [\<lparr>dc_id = ''n'', dc_owner = ''u''\<rparr>] = [\<lparr>dc_id = ''n'', dc_owner = ''u''\<rparr>]"
  using lists_agree_with_checks [of "''u''" "''read''" "[]" "[]" "''note''" "[\<lparr>dc_id = ''n'', dc_owner = ''u''\<rparr>]"]
  by simp

text \<open>The same valid grants give the same answer in the configuration as in the table.\<close>

lemma config_grants_as_table:
  "list_all (\<lambda>d. grant_key (Json (VDict d)) \<noteq> None) gs \<Longrightarrow>
   config_grants user permission groups (map VDict gs) \<longleftrightarrow>
     list_ex (grants_to user groups permission) (map (\<lambda>d. Json (VDict d)) gs)"
proof (induction gs)
  case (Cons d gs)
  then obtain ptype pid p where k: "grant_key (Json (VDict d)) = Some (ptype, pid, p)" by auto
  let ?match = "p = permission \<and> (ptype = ''user'' \<and> (pid = ''*'' \<or> pid = user) \<or> ptype = ''group'' \<and> pid \<in> set groups)"
  have v: "vget d ''principal_type'' = VStr ptype" "vget d ''principal_id'' = VStr pid" "vget d ''permission'' = VStr p"
    using grant_key_fields [OF k] by (simp_all add: item_get_def)
  have "config_grants user permission groups (VDict d # ds) \<longleftrightarrow> ?match \<or> config_grants user permission groups ds" for ds
    by (cases groups) (auto simp: v image_iff)
  moreover have "grants_to user groups permission (Json (VDict d)) \<longleftrightarrow> ?match"
    by (simp add: grants_to_def k list_ex_iff conj_commute cong: conj_cong) blast
  ultimately show ?case
    using Cons by simp
qed simp

section \<open>Chains of models\<close>

inductive rests_on :: "model_row list \<Rightarrow> model_row \<Rightarrow> model_row \<Rightarrow> bool" for models m where
  rests_on_self: "rests_on models m m"
| rests_on_base: "rests_on models m m' \<Longrightarrow> mo_base m' = Some b \<Longrightarrow> b \<noteq> [] \<Longrightarrow>
    get_model_by_id models b = Some m'' \<Longrightarrow> rests_on models m m''"

definition usable :: "model_row list \<Rightarrow> (model_row \<Rightarrow> bool) \<Rightarrow> model_row \<Rightarrow> bool" where
  "usable models readable m \<longleftrightarrow>
     readable m \<and> (\<forall>b. mo_base m = Some b \<longrightarrow> b \<noteq> [] \<longrightarrow> get_model_by_id models b \<noteq> None)"

lemma rests_on_trans: "rests_on models m' m'' \<Longrightarrow> rests_on models m m' \<Longrightarrow> rests_on models m m''"
  by (induction rule: rests_on.induct) (auto intro: rests_on_base)

lemma walk_complete:
  "role \<noteq> Some ''admin'' \<Longrightarrow>
   (\<And>b. base = Some b \<Longrightarrow> b \<noteq> [] \<Longrightarrow> \<exists>m. get_model_by_id models b = Some m \<and> (\<forall>m'. rests_on models m m' \<longrightarrow> usable models readable m')) \<Longrightarrow>
   walk_base_models models readable role seen base"
proof (induction models readable role seen base rule: walk_base_models.induct)
  case (1 models readable role seen base)
  show ?case
  proof (cases "\<exists>b. base = Some b \<and> b \<noteq> [] \<and> b \<notin> set seen")
    case True
    then obtain b where b: "base = Some b" "b \<noteq> []" "b \<notin> set seen" by blast
    obtain m where m: "get_model_by_id models b = Some m" "\<And>m'. rests_on models m m' \<Longrightarrow> usable models readable m'"
      using 1(3) [OF b(1,2)] by blast
    have "walk_base_models models readable role (b # seen) (mo_base m)"
    proof (rule 1(1) [OF b(1) _ m(1)])
      show "\<not> (b = [] \<or> b \<in> set seen)" using b by simp
      show "readable m" using m(2) [OF rests_on_self] by (simp add: usable_def)
      fix c assume c: "mo_base m = Some c" "c \<noteq> []"
      then obtain n where n: "get_model_by_id models c = Some n"
        using m(2) [OF rests_on_self] by (auto simp: usable_def)
      have "rests_on models m n" by (rule rests_on_base [OF rests_on_self c n])
      then show "\<exists>n. get_model_by_id models c = Some n \<and> (\<forall>m'. rests_on models n m' \<longrightarrow> usable models readable m')"
        using n m(2) rests_on_trans by blast
    qed (rule 1(2))
    then show ?thesis
      using b m(1) m(2) [OF rests_on_self] by (simp add: walk_base_models.simps [of models readable role seen] usable_def)
  next
    case False
    then show ?thesis by (auto simp: walk_base_models.simps [of models readable role seen] split: option.splits)
  qed
qed

text \<open>A walk that succeeds leaves a set of usable models behind that is closed under taking the base.\<close>

lemma walk_sound:
  "walk_base_models models readable role seen base \<Longrightarrow> role \<noteq> Some ''admin'' \<Longrightarrow>
   (\<And>i. i \<in> set seen \<Longrightarrow> \<exists>m. get_model_by_id models i = Some m \<and> readable m \<and>
      (\<forall>b. mo_base m = Some b \<longrightarrow> b \<noteq> [] \<longrightarrow> b \<in> set seen \<or> base = Some b)) \<Longrightarrow>
   \<exists>S. set seen \<subseteq> S \<and> (\<forall>i\<in>S. \<exists>m. get_model_by_id models i = Some m \<and> readable m \<and>
      (\<forall>b. mo_base m = Some b \<longrightarrow> b \<noteq> [] \<longrightarrow> b \<in> S))"
proof (induction models readable role seen base rule: walk_base_models.induct)
  case (1 models readable role seen base)
  show ?case
  proof (cases "\<exists>b. base = Some b \<and> b \<noteq> [] \<and> b \<notin> set seen")
    case True
    then obtain b where b: "base = Some b" "b \<noteq> []" "b \<notin> set seen" by blast
    then obtain m where m: "get_model_by_id models b = Some m" "readable m"
        "walk_base_models models readable role (b # seen) (mo_base m)"
      using 1(2,3) by (auto simp: walk_base_models.simps [of models readable role seen] split: option.splits if_splits)
    have "\<exists>S. set (b # seen) \<subseteq> S \<and> (\<forall>i\<in>S. \<exists>m. get_model_by_id models i = Some m \<and> readable m \<and>
      (\<forall>b. mo_base m = Some b \<longrightarrow> b \<noteq> [] \<longrightarrow> b \<in> S))"
    proof (rule 1(1) [OF b(1) _ m(1,2,3) 1(3)])
      show "\<not> (b = [] \<or> b \<in> set seen)" using b by simp
      fix i assume "i \<in> set (b # seen)"
      then show "\<exists>n. get_model_by_id models i = Some n \<and> readable n \<and>
          (\<forall>c. mo_base n = Some c \<longrightarrow> c \<noteq> [] \<longrightarrow> c \<in> set (b # seen) \<or> mo_base m = Some c)"
        using 1(4) [of i] b(1) m(1,2) by fastforce
    qed
    then show ?thesis by auto
  next
    case False
    show ?thesis
      by (rule exI [of _ "set seen"]) (use False 1(4) in blast)
  qed
qed

text \<open>C34 (safety): a user who is not an administrator may use a registered model exactly if every model
  in the chain of base models it rests on is registered and the user's own or readable by a grant; loops
  in the chain do not matter.\<close>

theorem model_chain_readable:
  assumes "us_role user \<noteq> ''admin''" "get_model_by_id models i = Some m"
  shows "check_model_access tables rows models user (Some m) False = Inr () \<longleftrightarrow>
           (\<forall>m'. rests_on models m m' \<longrightarrow>
              usable models (readable_model tables rows (us_id user) (Some (group_ids tables (us_id user) None))) m')"
    (is "?check \<longleftrightarrow> (\<forall>m'. rests_on models m m' \<longrightarrow> usable models ?readable m')")
proof -
  have i: "mo_id m = i" using assms(2) by (auto simp: get_model_by_id_def find_Some_iff)
  have check: "?check \<longleftrightarrow> ?readable m \<and> walk_base_models models ?readable (Some (us_role user)) [i] (mo_base m)"
    using assms(1) by (simp add: check_model_access_def has_base_model_access_def Let_def i)
  show ?thesis
  proof
    assume c: ?check
    then have "\<exists>S. set [i] \<subseteq> S \<and> (\<forall>i\<in>S. \<exists>m. get_model_by_id models i = Some m \<and> ?readable m \<and>
        (\<forall>b. mo_base m = Some b \<longrightarrow> b \<noteq> [] \<longrightarrow> b \<in> S))"
      unfolding check using assms by (intro walk_sound) auto
    then obtain S where S: "i \<in> S" "\<And>i. i \<in> S \<Longrightarrow> \<exists>m. get_model_by_id models i = Some m \<and> ?readable m \<and>
        (\<forall>b. mo_base m = Some b \<longrightarrow> b \<noteq> [] \<longrightarrow> b \<in> S)"
      by auto
    have reach: "\<exists>j\<in>S. get_model_by_id models j = Some m'" if "rests_on models m m'" for m'
      using that
    proof induction
      case rests_on_self
      then show ?case using S(1) assms(2) by blast
    next
      case (rests_on_base m' b m'')
      then show ?case using S(2) by fastforce
    qed
    have "usable models ?readable m'" if m': "rests_on models m m'" for m'
    proof -
      obtain j where j: "j \<in> S" "get_model_by_id models j = Some m'" using reach [OF m'] by blast
      then have "?readable m'" "\<forall>b. mo_base m' = Some b \<longrightarrow> b \<noteq> [] \<longrightarrow> b \<in> S" using S(2) [OF j(1)] by auto
      then show ?thesis using S(2) unfolding usable_def by fastforce
    qed
    then show "\<forall>m'. rests_on models m m' \<longrightarrow> usable models ?readable m'" by blast
  next
    assume all: "\<forall>m'. rests_on models m m' \<longrightarrow> usable models ?readable m'"
    have "walk_base_models models ?readable (Some (us_role user)) [i] (mo_base m)"
    proof (rule walk_complete)
      fix b assume b: "mo_base m = Some b" "b \<noteq> []"
      then obtain n where n: "get_model_by_id models b = Some n"
        using all rests_on_self [of models m] by (auto simp: usable_def)
      have "rests_on models m n" by (rule rests_on_base [OF rests_on_self b n])
      then show "\<exists>n. get_model_by_id models b = Some n \<and> (\<forall>m'. rests_on models n m' \<longrightarrow> usable models ?readable m')"
        using n all rests_on_trans by blast
    qed (use assms(1) in simp)
    then show ?check using check all rests_on_self [of models m] by (simp add: usable_def)
  qed
qed

lemma model_chain_readable_witness:
  "check_model_access \<lparr>gt_groups = [], gt_members = []\<rparr> [] [\<lparr>mo_id = ''a'', mo_user = ''u'', mo_base = Some ''b''\<rparr>]
     \<lparr>us_id = ''u'', us_role = ''user''\<rparr> (Some \<lparr>mo_id = ''a'', mo_user = ''u'', mo_base = Some ''b''\<rparr>) False = Inr () \<longleftrightarrow>
   (\<forall>m'. rests_on [\<lparr>mo_id = ''a'', mo_user = ''u'', mo_base = Some ''b''\<rparr>] \<lparr>mo_id = ''a'', mo_user = ''u'', mo_base = Some ''b''\<rparr> m' \<longrightarrow>
      usable [\<lparr>mo_id = ''a'', mo_user = ''u'', mo_base = Some ''b''\<rparr>]
        (readable_model \<lparr>gt_groups = [], gt_members = []\<rparr> [] ''u'' (Some (group_ids \<lparr>gt_groups = [], gt_members = []\<rparr> ''u'' None))) m')"
  using model_chain_readable [of "\<lparr>us_id = ''u'', us_role = ''user''\<rparr>" "[\<lparr>mo_id = ''a'', mo_user = ''u'', mo_base = Some ''b''\<rparr>]" "''a''"
      "\<lparr>mo_id = ''a'', mo_user = ''u'', mo_base = Some ''b''\<rparr>" "\<lparr>gt_groups = [], gt_members = []\<rparr>" "[]"]
  by (simp add: get_model_by_id_def)

section \<open>The route\<close>

lemma set_access_grants_new:
  assumes "set_access_grants uuid row_uuid now rtype rid gs rows = Inr (new, rows')"
  shows "rows' = filter (\<lambda>r. \<not> of_resource rtype rid r) rows @ new" "valid_table rows'"
    and "r \<in> set new \<Longrightarrow> \<exists>g\<in>set gs. grant_key g = Some (ag_principal_type r, ag_principal_id r, ag_permission r)"
proof -
  have n: "new = new_rows row_uuid now rtype rid (normalize_access_grants uuid gs)"
    and "rows' = filter (\<lambda>r. \<not> of_resource rtype rid r) rows @ new \<and> valid_table rows'"
    using assms by (auto simp: set_access_grants_def new_rows_def Let_def bind_res_Inr commit_rows_def split: if_splits)
  then show "rows' = filter (\<lambda>r. \<not> of_resource rtype rid r) rows @ new" "valid_table rows'" by auto
  assume "r \<in> set new"
  then obtain g where "g \<in> set (normalize_access_grants uuid gs)"
      "plain_key g = (ag_principal_type r, ag_principal_id r, ag_permission r)"
    unfolding n new_rows_def plain_key_def by (auto simp: enumerate_from_def dest: set_zip_rightD)
  then show "\<exists>g\<in>set gs. grant_key g = Some (ag_principal_type r, ag_principal_id r, ag_permission r)"
  proof -
    assume g: "g \<in> set (normalize_access_grants uuid gs)" "plain_key g = (ag_principal_type r, ag_principal_id r, ag_permission r)"
    then have "(ag_principal_type r, ag_principal_id r, ag_permission r) \<in> plain_key ` set (normalize_access_grants uuid gs)"
      by (metis image_eqI)
    then show ?thesis unfolding set_normalize by simp
  qed
qed

text \<open>C33 (safety): after a user who is not an administrator has changed the grants of a knowledge base, every
  grant of the knowledge base is one the user sent and may give: to everybody only with the permission to
  share knowledge publicly, to single users and to groups only with the permission for those, and never to
  visitors without an account; the user owns the knowledge base or may write it.\<close>

theorem only_permitted_grants_stored:
  assumes "update_knowledge_access env uuid row_uuid now configured kid sent user db = Inr (new, db')"
    and "us_role user \<noteq> ''admin''"
    and "r \<in> set (get_grants_by_resource ''knowledge'' kid (ad_grants db'))"
  shows "shareable (may_user env db configured user) ''sharing.public_knowledge''
           (ag_principal_type r, ag_principal_id r, ag_permission r) \<and>
         list_ex (\<lambda>g. grant_key (Json (VDict g)) = Some (ag_principal_type r, ag_principal_id r, ag_permission r)) sent \<and>
         list_ex (\<lambda>k. dc_id k = kid \<and> (dc_owner k = us_id user \<or>
           has_access (ad_groups db) (ad_grants db) (us_id user) ''knowledge'' kid ''write'' None)) (ad_knowledge db)"
proof -
  obtain k allowed rows where k: "find (\<lambda>k. dc_id k = kid) (ad_knowledge db) = Some k"
      "dc_owner k = us_id user \<or> has_access (ad_groups db) (ad_grants db) (us_id user) ''knowledge'' (dc_id k) ''write'' None"
    and f: "filter_allowed_access_grants uuid (may_user env db configured user) (us_role user)
              (map (\<lambda>g. Json (VDict g)) sent) ''sharing.public_knowledge'' None = Inr allowed"
    and s: "set_access_grants uuid row_uuid now ''knowledge'' kid allowed (ad_grants db) = Inr (new, rows)"
    and db': "db' = db\<lparr>ad_grants := rows\<rparr>"
    using assms(1,2) by (auto simp: update_knowledge_access_def split: option.splits if_splits sum.splits prod.splits)
  have "r \<in> set new"
    using assms(3) set_access_grants_new(1) [OF s] by (auto simp: db' get_grants_by_resource_def)
  then obtain g where g: "g \<in> set allowed" "grant_key g = Some (ag_principal_type r, ag_principal_id r, ag_permission r)"
    using set_access_grants_new(3) [OF s] by blast
  have "shareable (may_user env db configured user) ''sharing.public_knowledge''
           (ag_principal_type r, ag_principal_id r, ag_permission r)"
    by (rule filter_allowed_sound(3) [OF f g assms(2)])
  moreover have "list_ex (\<lambda>g. grant_key (Json (VDict g)) = Some (ag_principal_type r, ag_principal_id r, ag_permission r)) sent"
    using filter_allowed_sound(1) [OF f g] g(2) by (auto simp: list_ex_iff)
  moreover have "list_ex (\<lambda>k. dc_id k = kid \<and> (dc_owner k = us_id user \<or>
           has_access (ad_groups db) (ad_grants db) (us_id user) ''knowledge'' kid ''write'' None)) (ad_knowledge db)"
    using k by (auto simp: list_ex_iff find_Some_iff)
  ultimately show ?thesis by blast
qed

definition demo_user :: web_user where
  "demo_user = \<lparr>us_id = ''u'', us_role = ''user''\<rparr>"

definition demo_row :: grant_row where
  "demo_row = \<lparr>ag_id = ''r'', ag_resource_type = ''knowledge'', ag_resource_id = ''k'', ag_principal_type = ''group'',
     ag_principal_id = ''g'', ag_permission = ''read'', ag_created = 0\<rparr>"

definition demo_db :: access_db where
  "demo_db =
     \<lparr>ad_groups = \<lparr>gt_groups = [\<lparr>gr_id = ''g'', gr_permissions = Some [(''access_grants'', VDict [(''allow_groups'', VBool True)])],
        gr_updated = 0\<rparr>], gt_members = [\<lparr>gm_group = ''g'', gm_user = ''u''\<rparr>]\<rparr>,
      ad_grants = [], ad_knowledge = [\<lparr>dc_id = ''k'', dc_owner = ''u''\<rparr>]\<rparr>"

definition demo_grant :: pydict where
  "demo_grant = [(''principal_type'', VStr ''group''), (''principal_id'', VStr ''g''), (''permission'', VStr ''read'')]"

lemma demo_update:
  "update_knowledge_access (\<lambda>_. None) (\<lambda>_. ''x'') (\<lambda>_. ''r'') 0 [] ''k'' [demo_grant] demo_user demo_db =
     Inr ([demo_row], demo_db\<lparr>ad_grants := [demo_row]\<rparr>)"
proof -
  have key: "grant_key (Json (VDict demo_grant)) = Some (''group'', ''g'', ''read'')"
    by (simp add: demo_grant_def grant_key_def item_get_def)
  have dots: "split_dots ''access_grants.allow_groups'' = [''access_grants'', ''allow_groups'']" by code_simp
  have may: "may_user (\<lambda>_. None) demo_db [] demo_user ''access_grants.allow_groups'' = Inr True"
    by (simp add: may_user_def has_permission_def dots demo_db_def demo_user_def user_groups_def
        get_groups_by_member_id_def group_permissions_def)
  have norm: "normalize_access_grants (\<lambda>_. ''x'') [Json (VDict demo_grant)] =
      [\<lparr>pg_id = ''x'', pg_principal_type = ''group'', pg_principal_id = ''g'', pg_permission = ''read''\<rparr>]"
  proof -
    have "grant_id ''x'' (Json (VDict demo_grant)) = ''x''" by (simp add: grant_id_def item_get_def demo_grant_def)
    then show ?thesis by (simp add: normalize_access_grants_def key)
  qed
  have "filter_allowed_access_grants (\<lambda>_. ''x'') (may_user (\<lambda>_. None) demo_db [] demo_user) (us_role demo_user)
      [Json (VDict demo_grant)] ''sharing.public_knowledge'' None = Inr [Json (VDict demo_grant)]"
    by (simp add: filter_allowed_access_grants_def reduce_if_def public_grant_iff key may)
  moreover have "set_access_grants (\<lambda>_. ''x'') (\<lambda>_. ''r'') 0 ''knowledge'' ''k'' [Json (VDict demo_grant)] [] = Inr ([demo_row], [demo_row])"
    by (simp add: set_access_grants_def norm demo_row_def commit_rows_def valid_table_def Let_def)
  ultimately show ?thesis
    by (simp add: update_knowledge_access_def demo_db_def demo_user_def)
qed

lemma only_permitted_grants_stored_witness:
  "shareable (may_user (\<lambda>_. None) demo_db [] demo_user) ''sharing.public_knowledge'' (''group'', ''g'', ''read'')"
  using only_permitted_grants_stored [OF demo_update, of demo_row]
  by (simp add: demo_user_def demo_row_def get_grants_by_resource_def of_resource_def)

end
