(* ===== verification/ChatMessages.thy ===== *)
theory ChatMessages
  imports PyVal
begin

text \<open>
  The stored history of a chat (\<open>utils/misc.py\<close> of Open WebUI): the chain of parents that leads to a
  message. A message is a dictionary; where Python would raise on a value of the wrong kind, so does the
  model. Keys that are numbers or truth values are compared as they stand (Python also takes 1 and
  \<open>True\<close> for the same).
\<close>

section \<open>Values\<close>

definition iterate :: "pyval \<Rightarrow> pyval list result" where
  \<comment> \<open>the elements a \<open>for\<close> loop visits\<close>
  "iterate v =
     (case v of VList xs \<Rightarrow> Inr xs | VStr s \<Rightarrow> Inr (map (\<lambda>c. VStr [c]) s) | VDict d \<Rightarrow> Inr (map (\<lambda>p. VStr (fst p)) d)
      | _ \<Rightarrow> Inl (TypeError ''object is not iterable''))"

definition dict_or_raise :: "pyval \<Rightarrow> pydict result" where
  \<comment> \<open>\<open>v.get\<close> of anything but a dictionary\<close>
  "dict_or_raise v = (case v of VDict d \<Rightarrow> Inr d | _ \<Rightarrow> Inl (OtherError ''AttributeError''))"

fun hashable :: "pyval \<Rightarrow> bool" where
  "hashable (VList xs) = False"
| "hashable (VDict d) = False"
| "hashable v = True"

definition in_set :: "pyval \<Rightarrow> pyval list \<Rightarrow> bool result" where
  \<comment> \<open>\<open>v in s\<close> for a set \<open>s\<close>\<close>
  "in_set v s = (if hashable v then Inr (v \<in> set s) else Inl (TypeError ''unhashable type''))"

fun fold_res :: "('a \<Rightarrow> 's \<Rightarrow> 's result) \<Rightarrow> 'a list \<Rightarrow> 's \<Rightarrow> 's result" where
  "fold_res f [] s = Inr s"
| "fold_res f (x # xs) s = bind_res (f x s) (fold_res f xs)"

section \<open>The chain of a message\<close>

text \<open>
  \<open>messages_map\<close> maps identifiers to messages; the walk follows \<open>parentId\<close> and remembers the keys it has
  visited. The model keeps the key beside each message.
\<close>

definition lookup_message :: "(string \<times> pyval) list \<Rightarrow> pyval \<Rightarrow> pyval result" where
  \<comment> \<open>\<open>messages_map.get(message_id)\<close>\<close>
  "lookup_message messages i =
     (case i of VStr s \<Rightarrow> Inr (vget messages s)
      | _ \<Rightarrow> if hashable i then Inr VNone else Inl (TypeError ''unhashable type''))"

function walk_parents :: "(string \<times> pyval) list \<Rightarrow> pyval list \<Rightarrow> pyval \<Rightarrow> (pyval \<times> pydict) list result" where
  "walk_parents messages visited i =
     (case lookup_message messages i of
        Inl e \<Rightarrow> Inl e
      | Inr message \<Rightarrow>
          if \<not> truthy message \<or> i \<in> set visited then Inr []
          else (case message of
                  VDict d \<Rightarrow>
                    let parent = vget d ''parentId''
                    in bind_res (if truthy parent then walk_parents messages (i # visited) parent else Inr [])
                         (\<lambda>rest. Inr ((i, d) # rest))
                | _ \<Rightarrow> Inl (OtherError ''AttributeError'')))"
  by pat_completeness auto
termination
proof (relation "measure (\<lambda>(messages, visited, i). card (VStr ` fst ` set messages - set visited))", goal_cases)
  case (2 messages visited i message d parent)
  then have "i \<in> VStr ` fst ` set messages"
    by (auto simp: lookup_message_def vget_def image_iff split: pyval.splits if_splits option.splits dest!: map_of_SomeD)
      (metis fst_conv)+
  then have "VStr ` fst ` set messages - set (i # visited) \<subset> VStr ` fst ` set messages - set visited"
    using 2 by auto
  then show ?case by (simp add: psubset_card_mono)
qed simp

declare walk_parents.simps [simp del]

definition message_chain :: "(string \<times> pyval) list \<Rightarrow> pyval \<Rightarrow> (pyval \<times> pydict) list result" where
  "message_chain messages i = (if messages = [] then Inr [] else map_sum id rev (walk_parents messages [] i))"

definition get_message_list :: "(string \<times> pyval) list \<Rightarrow> pyval \<Rightarrow> pydict list result" where
  "get_message_list messages i = map_sum id (map snd) (message_chain messages i)"

subsection \<open>The chain leads from a root to the message\<close>

definition history_ok :: "(string \<times> pyval) list \<Rightarrow> bool" where
  \<comment> \<open>what the front end stores: messages are dictionaries, a parent is a key or absent\<close>
  "history_ok messages = list_all (\<lambda>(k, m). is_mapping m \<and> hashable (vget (as_dict m) ''parentId'')) messages"

lemma lookup_message_ok:
  assumes "history_ok messages" "hashable i"
  shows "\<exists>m. lookup_message messages i = Inr m \<and> (truthy m \<longrightarrow> (\<exists>d. m = VDict d \<and> hashable (vget d ''parentId'')))"
proof (cases i)
  case (VStr s)
  show ?thesis
  proof (cases "map_of messages s")
    case None
    then show ?thesis by (simp add: VStr lookup_message_def vget_def)
  next
    case (Some m)
    then have "is_mapping m \<and> hashable (vget (as_dict m) ''parentId'')"
      using assms(1) by (auto simp: history_ok_def list_all_iff dest!: map_of_SomeD)
    then show ?thesis using Some by (cases m) (simp_all add: VStr lookup_message_def vget_def)
  qed
qed (use assms(2) in \<open>auto simp: lookup_message_def\<close>)

definition ends_chain :: "(string \<times> pyval) list \<Rightarrow> pyval list \<Rightarrow> pydict \<Rightarrow> bool" where
  \<comment> \<open>a root: no parent, a parent that is not stored, or one the walk has met\<close>
  "ends_chain messages seen d \<longleftrightarrow>
     (let parent = vget d ''parentId''
      in \<not> truthy parent \<or> (\<exists>m. lookup_message messages parent = Inr m \<and> \<not> truthy m) \<or> parent \<in> set seen)"

lemma walk_parents_chain:
  "history_ok messages \<Longrightarrow> hashable i \<Longrightarrow>
   \<exists>ws. walk_parents messages visited i = Inr ws \<and> distinct (map fst ws) \<and> set (map fst ws) \<inter> set visited = {} \<and>
     (\<forall>(k, d)\<in>set ws. lookup_message messages k = Inr (VDict d)) \<and>
     successively (\<lambda>p q. fst q = vget (snd p) ''parentId'') ws \<and>
     (ws = [] \<longleftrightarrow> i \<in> set visited \<or> (\<exists>m. lookup_message messages i = Inr m \<and> \<not> truthy m)) \<and>
     (ws \<noteq> [] \<longrightarrow> fst (hd ws) = i \<and> ends_chain messages (visited @ map fst ws) (snd (last ws)))"
proof (induction messages visited i rule: walk_parents.induct)
  case (1 messages visited i)
  obtain m where m: "lookup_message messages i = Inr m"
      "truthy m \<Longrightarrow> \<exists>d. m = VDict d \<and> hashable (vget d ''parentId'')"
    using lookup_message_ok [OF 1(2,3)] by blast
  note unfold = walk_parents.simps [of messages visited i]
  show ?case
  proof (cases "\<not> truthy m \<or> i \<in> set visited")
    case True
    then show ?thesis using m(1) by (auto simp: unfold)
  next
    case False
    then obtain d where d: "m = VDict d" "hashable (vget d ''parentId'')" using m(2) by blast
    let ?p = "vget d ''parentId''"
    show ?thesis
    proof (cases "truthy ?p")
      case False
      then show ?thesis
        using \<open>\<not> (\<not> truthy m \<or> i \<in> set visited)\<close> m(1) d by (simp add: unfold ends_chain_def)
    next
      case True
      obtain ws where ws: "walk_parents messages (i # visited) ?p = Inr ws" "distinct (map fst ws)"
          "set (map fst ws) \<inter> set (i # visited) = {}" "\<forall>(k, d)\<in>set ws. lookup_message messages k = Inr (VDict d)"
          "successively (\<lambda>p q. fst q = vget (snd p) ''parentId'') ws"
          "ws = [] \<longleftrightarrow> ?p \<in> set (i # visited) \<or> (\<exists>m. lookup_message messages ?p = Inr m \<and> \<not> truthy m)"
          "ws \<noteq> [] \<longrightarrow> fst (hd ws) = ?p \<and> ends_chain messages ((i # visited) @ map fst ws) (snd (last ws))"
        using 1(1) [OF m(1) \<open>\<not> (\<not> truthy m \<or> i \<in> set visited)\<close> d(1) refl True 1(2) d(2)] by blast
      have "walk_parents messages visited i = Inr ((i, d) # ws)"
        using \<open>\<not> (\<not> truthy m \<or> i \<in> set visited)\<close> m(1) d(1) True ws(1) by (simp add: unfold Let_def)
      moreover have "ends_chain messages (visited @ map fst ((i, d) # ws)) (snd (last ((i, d) # ws)))"
        using ws(6,7) by (cases "ws = []") (auto simp: ends_chain_def Let_def)
      moreover have "successively (\<lambda>p q. fst q = vget (snd p) ''parentId'') ((i, d) # ws)"
        using ws(5,7) by (cases ws) auto
      ultimately show ?thesis
        using \<open>\<not> (\<not> truthy m \<or> i \<in> set visited)\<close> m(1) d(1) ws(2,3,4) by auto
    qed
  qed
qed

text \<open>C35 (termination): in a history of messages with parents, however damaged its tree is, following the
  parents of a stored message ends: the chain holds no message twice, begins at a message without a stored
  parent or where the parents run in a circle, leads from each message to one it is the parent of, and ends
  with the message asked for.\<close>

theorem message_chain_from_root:
  assumes "history_ok messages" "hashable i" "lookup_message messages i = Inr m" "truthy m"
  shows "\<exists>chain. message_chain messages i = Inr chain \<and> get_message_list messages i = Inr (map snd chain) \<and>
           distinct (map fst chain) \<and> list_all (\<lambda>(k, d). lookup_message messages k = Inr (VDict d)) chain \<and>
           chain \<noteq> [] \<and> last chain = (i, as_dict m) \<and> ends_chain messages (map fst chain) (snd (hd chain)) \<and>
           successively (\<lambda>p q. vget (snd q) ''parentId'' = fst p) chain"
proof -
  obtain ws where ws: "walk_parents messages [] i = Inr ws" "distinct (map fst ws)"
      "\<forall>(k, d)\<in>set ws. lookup_message messages k = Inr (VDict d)"
      "successively (\<lambda>p q. fst q = vget (snd p) ''parentId'') ws" "ws \<noteq> []" "fst (hd ws) = i"
      "ends_chain messages (map fst ws) (snd (last ws))"
    using walk_parents_chain [OF assms(1,2), of "[]"] assms(3,4) by auto
  have ne: "messages \<noteq> []" using assms(3,4) by (auto simp: lookup_message_def vget_def split: pyval.splits if_splits)
  obtain d where hd: "hd ws = (i, d)" using ws(6) by (cases "hd ws") auto
  then have "lookup_message messages i = Inr (VDict d)" using ws(3,5) hd_in_set by fastforce
  then have "last (rev ws) = (i, as_dict m)" using hd ws(5) assms(3) by (simp add: last_rev)
  moreover have "ends_chain messages (map fst (rev ws)) (snd (hd (rev ws)))"
    using ws(5,7) by (simp add: ends_chain_def hd_rev)
  moreover have "successively (\<lambda>p q. vget (snd q) ''parentId'' = fst p) (rev ws)"
    using ws(4) by (simp add: successively_rev eq_commute)
  ultimately show ?thesis
    using ws(1,2,3,5) ne
    by (intro exI [of _ "rev ws"]) (auto simp: message_chain_def get_message_list_def list_all_iff rev_map [symmetric])
qed

lemma message_chain_from_root_witness:
  "\<exists>chain. message_chain [(''a'', VDict [(''parentId'', VStr ''b'')]), (''b'', VDict [(''parentId'', VStr ''a'')])] (VStr ''a'') = Inr chain \<and>
     distinct (map fst chain) \<and> chain \<noteq> []"
  using message_chain_from_root [of "[(''a'', VDict [(''parentId'', VStr ''b'')]), (''b'', VDict [(''parentId'', VStr ''a'')])]"
      "VStr ''a''" "VDict [(''parentId'', VStr ''b'')]"]
  by (auto simp: history_ok_def lookup_message_def)

end
