(* ===== verification/ChatTools.thy ===== *)
theory ChatTools
  imports ChatMessages
begin

text \<open>
  The conversation sent to a model (\<open>utils/misc.py\<close>, \<open>utils/middleware.py\<close> of Open WebUI): the text of a
  message, the messages rebuilt from stored output items, tool calls and tool results brought into
  pairs, and one system message at the front.
\<close>

section \<open>The text of a message\<close>

definition is_type :: "pydict \<Rightarrow> string \<Rightarrow> bool" where
  "is_type d t \<longleftrightarrow> vget d ''type'' = VStr t"

definition isspace :: "string \<Rightarrow> bool" where
  "isspace s \<longleftrightarrow> s \<noteq> [] \<and> list_all is_space s"

fun part_texts :: "pyval list \<Rightarrow> string" where
  \<comment> \<open>\<open>''.join(str(part.get('text')) for part in parts if ...)\<close>\<close>
  "part_texts [] = []"
| "part_texts (VDict d # ps) = (if vget d ''text'' \<noteq> VNone then py_str (vget d ''text'') else []) @ part_texts ps"
| "part_texts (p # ps) = part_texts ps"

fun output_texts :: "pyval list \<Rightarrow> string list" where
  "output_texts [] = []"
| "output_texts (VDict d # items) =
     (if is_type d ''message'' then
        (case py_or (vget d ''content'') (VList []) of
           VList parts \<Rightarrow>
             let t = part_texts parts
             in if t \<noteq> [] \<and> \<not> isspace t then t # output_texts items else output_texts items
         | _ \<Rightarrow> output_texts items)
      else output_texts items)"
| "output_texts (v # items) = output_texts items"

definition get_output_text :: "pyval \<Rightarrow> string" where
  "get_output_text output = (case output of VList items \<Rightarrow> join [newline] (output_texts items) | _ \<Rightarrow> [])"

fun first_text_part :: "pyval list \<Rightarrow> pyval option" where
  "first_text_part [] = None"
| "first_text_part (VDict d # ps) = (if is_type d ''text'' then Some (vget d ''text'') else first_text_part ps)"
| "first_text_part (p # ps) = first_text_part ps"

definition get_content_from_message :: "pydict \<Rightarrow> pyval" where
  "get_content_from_message message =
     (let content = vget message ''content'';
          output_text = get_output_text (vget message ''output'');
          fallback = (if output_text \<noteq> [] then VStr output_text
                      else case content of VStr s \<Rightarrow> content | _ \<Rightarrow> VNone)
      in case content of
           VList parts \<Rightarrow> (case first_text_part parts of Some t \<Rightarrow> t | None \<Rightarrow> fallback)
         | _ \<Rightarrow> if truthy content then content else fallback)"

section \<open>Pairs of tool calls and results\<close>

definition tool_calls :: "pydict \<Rightarrow> pyval list result" where
  \<comment> \<open>\<open>message.get('tool_calls') or ()\<close>, iterated\<close>
  "tool_calls m = (if truthy (vget m ''tool_calls'') then iterate (vget m ''tool_calls'') else Inr [])"

definition is_role :: "pydict \<Rightarrow> string \<Rightarrow> bool" where
  "is_role m role \<longleftrightarrow> vget m ''role'' = VStr role"

definition add_to_set :: "pyval \<Rightarrow> pyval list \<Rightarrow> pyval list result" where
  "add_to_set v s = (if hashable v then Inr (v # s) else Inl (TypeError ''unhashable type''))"

fun completed_ids :: "pydict list \<Rightarrow> pyval list result" where
  "completed_ids [] = Inr []"
| "completed_ids (m # ms) =
     (if is_role m ''tool'' \<and> truthy (vget m ''tool_call_id'')
      then bind_res (completed_ids ms) (add_to_set (vget m ''tool_call_id''))
      else completed_ids ms)"

fun call_ids :: "pyval list \<Rightarrow> pyval list result" where
  "call_ids [] = Inr []"
| "call_ids (c # cs) =
     bind_res (dict_or_raise c) (\<lambda>d.
       bind_res (if truthy (vget d ''id'') then add_to_set (vget d ''id'') [] else Inr []) (\<lambda>new.
         bind_res (call_ids cs) (\<lambda>ids. Inr (new @ ids))))"

fun requested_ids :: "pydict list \<Rightarrow> pyval list result" where
  "requested_ids [] = Inr []"
| "requested_ids (m # ms) =
     bind_res (tool_calls m) (\<lambda>calls. bind_res (if is_role m ''assistant'' then call_ids calls else Inr []) (\<lambda>ids.
       bind_res (requested_ids ms) (\<lambda>rest. Inr (ids @ rest))))"

fun answered_calls :: "pyval list \<Rightarrow> pyval list \<Rightarrow> pyval list result" where
  \<comment> \<open>the calls whose id received a result\<close>
  "answered_calls completed [] = Inr []"
| "answered_calls completed (c # cs) =
     bind_res (dict_or_raise c) (\<lambda>d. bind_res (in_set (vget d ''id'') completed) (\<lambda>yes.
       bind_res (answered_calls completed cs) (\<lambda>rest. Inr (if yes then c # rest else rest))))"

definition has_meaning :: "pydict \<Rightarrow> bool" where
  "has_meaning m \<longleftrightarrow>
     (let content = py_or (get_content_from_message m) (VStr [])
      in (case content of VStr s \<Rightarrow> strip s \<noteq> [] | _ \<Rightarrow> truthy content) \<or> truthy (vget m ''reasoning_content''))"

definition reconcile_message :: "pyval list \<Rightarrow> pyval list \<Rightarrow> pydict \<Rightarrow> pydict list result" where
  \<comment> \<open>the body of the loop: no message, or one\<close>
  "reconcile_message requested completed m =
     bind_res (if is_role m ''tool'' then in_set (vget m ''tool_call_id'') requested else Inr True) (\<lambda>claimed.
       if \<not> claimed then Inr []
       else if \<not> is_role m ''assistant'' \<or> \<not> truthy (vget m ''tool_calls'') then Inr [m]
       else bind_res (tool_calls m) (\<lambda>calls. bind_res (answered_calls completed calls) (\<lambda>valid.
         if valid \<noteq> [] then Inr [dict_set ''tool_calls'' (VList valid) m]
         else if has_meaning m then Inr [filter (\<lambda>(k, v). k \<noteq> ''tool_calls'') m]
         else Inr [])))"

definition reconcile_tool_pairs :: "pydict list \<Rightarrow> pydict list result" where
  "reconcile_tool_pairs messages =
     bind_res (completed_ids messages) (\<lambda>completed.
       bind_res (requested_ids messages) (\<lambda>requested.
         bind_res (map_res (reconcile_message requested completed) messages) (\<lambda>ms. Inr (concat ms))))"

text \<open>The middleware does the same once more for the whole conversation, with other messages to keep.\<close>

definition sanitize_message :: "pyval list \<Rightarrow> pyval list \<Rightarrow> pydict \<Rightarrow> pydict list result" where
  \<comment> \<open>the body of the loop of \<open>sanitize_tool_pairs\<close>\<close>
  "sanitize_message requested completed m =
     (if is_role m ''assistant'' \<and> truthy (vget m ''tool_calls'')
      then bind_res (tool_calls m) (\<lambda>calls. bind_res (answered_calls completed calls) (\<lambda>kept.
        if kept \<noteq> [] then Inr [dict_set ''tool_calls'' (VList kept) m]
        else let clean = filter (\<lambda>(k, v). k \<noteq> ''reasoning_items'') (filter (\<lambda>(k, v). k \<noteq> ''tool_calls'') m)
             in Inr (if truthy (vget clean ''content'') then [clean] else [])))
      else bind_res (if is_role m ''tool'' then in_set (vget m ''tool_call_id'') requested else Inr True) (\<lambda>claimed.
        Inr (if claimed then [m] else [])))"

definition sanitize_tool_pairs :: "pydict list \<Rightarrow> pydict list result" where
  "sanitize_tool_pairs messages =
     bind_res (completed_ids messages) (\<lambda>completed.
       bind_res (requested_ids messages) (\<lambda>requested.
         bind_res (map_res (sanitize_message requested completed) messages) (\<lambda>ms. Inr (concat ms))))"

section \<open>One system message\<close>

fun split_system :: "pydict list \<Rightarrow> pyval list \<times> pydict list" where
  \<comment> \<open>the contents of the system messages, and the other messages\<close>
  "split_system [] = ([], [])"
| "split_system (m # ms) =
     (let (contents, others) = split_system ms; content = get_content_from_message m
      in if is_role m ''system'' then (if truthy content then content # contents else contents, others)
         else (contents, m # others))"

fun join_values :: "pyval list \<Rightarrow> string list result" where
  \<comment> \<open>\<open>'\n'.join(contents)\<close> accepts strings only\<close>
  "join_values [] = Inr []"
| "join_values (v # vs) =
     (case v of VStr s \<Rightarrow> bind_res (join_values vs) (\<lambda>ss. Inr (s # ss))
      | _ \<Rightarrow> Inl (TypeError ''expected str instance''))"

definition merge_system_messages :: "pydict list \<Rightarrow> pydict list result" where
  "merge_system_messages messages =
     (case split_system messages of (contents, others) \<Rightarrow>
        if contents = [] then Inr others
        else bind_res (join_values contents) (\<lambda>texts.
          Inr ([(''role'', VStr ''system''), (''content'', VStr (join [newline] texts))] # others)))"

definition empty_text_block :: "pyval \<Rightarrow> bool result" where
  "empty_text_block block =
     (case block of
        VDict d \<Rightarrow>
          if is_type d ''text'' then
            (case vget_default d ''text'' (VStr []) of VStr s \<Rightarrow> Inr (strip s = [])
             | _ \<Rightarrow> Inl (OtherError ''AttributeError''))
          else Inr False
      | _ \<Rightarrow> Inr False)"

fun drop_empty_blocks :: "pyval list \<Rightarrow> pyval list result" where
  "drop_empty_blocks [] = Inr []"
| "drop_empty_blocks (b # bs) =
     bind_res (empty_text_block b) (\<lambda>e. bind_res (drop_empty_blocks bs) (\<lambda>rest. Inr (if e then rest else b # rest)))"

definition strip_empty_content :: "pydict \<Rightarrow> pydict result" where
  "strip_empty_content m =
     (case vget m ''content'' of
        VList blocks \<Rightarrow> bind_res (drop_empty_blocks blocks) (\<lambda>cleaned.
          Inr (if cleaned \<noteq> [] then dict_set ''content'' (VList cleaned) m else m))
      | _ \<Rightarrow> Inr m)"

definition strip_empty_content_blocks :: "pydict list \<Rightarrow> pydict list result" where
  "strip_empty_content_blocks messages = map_res strip_empty_content messages"

definition normalize_messages_for_model :: "pydict list \<Rightarrow> pydict list result" where
  \<comment> \<open>the messages of the form afterwards\<close>
  "normalize_messages_for_model messages = bind_res (strip_empty_content_blocks messages) merge_system_messages"

section \<open>What pairing promises\<close>

definition result_ids :: "pydict list \<Rightarrow> pyval list" where
  "result_ids ms = map (\<lambda>m. vget m ''tool_call_id'')
     (filter (\<lambda>m. is_role m ''tool'' \<and> truthy (vget m ''tool_call_id'')) ms)"

definition calls_in :: "pydict \<Rightarrow> pyval list" where
  "calls_in m = (if is_role m ''assistant'' \<and> truthy (vget m ''tool_calls'') then py_iter (vget m ''tool_calls'') else [])"

definition call_id :: "pyval \<Rightarrow> pyval" where
  "call_id c = vget (as_dict c) ''id''"

definition request_ids :: "pydict list \<Rightarrow> pyval list" where
  "request_ids ms = filter truthy (map call_id (concat (map calls_in ms)))"

text \<open>Every result answers a call and every call has a result, with identifiers that can be compared.\<close>

definition paired :: "pydict list \<Rightarrow> bool" where
  "paired ms \<longleftrightarrow>
     list_all (\<lambda>m. is_role m ''tool'' \<longrightarrow> vget m ''tool_call_id'' \<in> set (request_ids ms)) ms \<and>
     list_all (\<lambda>c. is_mapping c \<and> call_id c \<in> set (result_ids ms)) (concat (map calls_in ms)) \<and>
     list_all hashable (result_ids ms @ request_ids ms) \<and>
     list_all (\<lambda>m. case tool_calls m of Inl _ \<Rightarrow> False | Inr _ \<Rightarrow> True) ms"

lemma map_res_Inr: "map_res f xs = Inr ys \<longleftrightarrow> list_all2 (\<lambda>x y. f x = Inr y) xs ys"
  by (induction xs arbitrary: ys) (auto simp: bind_res_Inr list_all2_Cons1)

lemma map_res_concat:
  "map_res f xs = Inr ys \<Longrightarrow> x \<in> set (concat ys) \<longleftrightarrow> (\<exists>m\<in>set xs. \<exists>out. f m = Inr out \<and> x \<in> set out)"
  unfolding map_res_Inr by (induction rule: list_all2_induct) auto

lemma map_res_each: "map_res f xs = Inr ys \<Longrightarrow> m \<in> set xs \<Longrightarrow> \<exists>out. f m = Inr out \<and> set out \<subseteq> set (concat ys)"
  unfolding map_res_Inr by (induction rule: list_all2_induct) auto

lemma map_res_filter:
  "map_res f xs = Inr ys \<Longrightarrow> (\<And>m out. m \<in> set xs \<Longrightarrow> f m = Inr out \<Longrightarrow> filter P out = (if P m then [m] else [])) \<Longrightarrow>
   filter P (concat ys) = filter P xs"
  unfolding map_res_Inr
proof (induction rule: list_all2_induct)
  case (Cons x xs y ys)
  then have "filter P y = (if P x then [x] else [])" by (intro Cons.prems) auto
  moreover have "filter P (concat ys) = filter P xs" by (rule Cons.IH) (simp add: Cons.prems)
  ultimately show ?case by simp
qed simp

lemma add_to_set_Inr: "add_to_set v s = Inr t \<longleftrightarrow> hashable v \<and> t = v # s"
  by (auto simp: add_to_set_def)

lemma in_set_Inr: "in_set v s = Inr b \<longleftrightarrow> hashable v \<and> b = (v \<in> set s)"
  by (auto simp: in_set_def)

lemma completed_ids_Inr: "completed_ids ms = Inr c \<longleftrightarrow> c = result_ids ms \<and> list_all hashable (result_ids ms)"
  by (induction ms arbitrary: c) (auto simp: result_ids_def bind_res_Inr add_to_set_Inr)

lemma dict_or_raise_Inr: "dict_or_raise c = Inr d \<longleftrightarrow> c = VDict d"
  by (cases c) (auto simp: dict_or_raise_def)

lemma is_mapping_iff: "is_mapping c \<longleftrightarrow> (\<exists>d. c = VDict d)"
  by (cases c) auto

lemma call_ids_Inr:
  "call_ids cs = Inr ids \<longleftrightarrow> list_all is_mapping cs \<and> ids = filter truthy (map call_id cs) \<and> list_all hashable ids"
proof (induction cs arbitrary: ids)
  case (Cons c cs)
  show ?case
  proof (cases "is_mapping c")
    case True
    then obtain d where d: "c = VDict d" by (auto simp: is_mapping_iff)
    show ?thesis
      by (cases "truthy (vget d ''id'')")
        (auto simp: d bind_res_Inr dict_or_raise_Inr call_id_def add_to_set_Inr Cons)
  next
    case False
    then show ?thesis by (auto simp: bind_res_Inr dict_or_raise_Inr)
  qed
qed auto

lemma tool_calls_calls_in: "tool_calls m = Inr calls \<Longrightarrow> is_role m ''assistant'' \<Longrightarrow> calls = calls_in m"
  by (cases "vget m ''tool_calls''") (auto simp: tool_calls_def calls_in_def iterate_def split: if_splits)

lemma requested_ids_Inr:
  "requested_ids ms = Inr ids \<longleftrightarrow>
     ids = request_ids ms \<and> list_all hashable ids \<and> list_all is_mapping (concat (map calls_in ms)) \<and>
     list_all (\<lambda>m. case tool_calls m of Inl _ \<Rightarrow> False | Inr _ \<Rightarrow> True) ms"
proof (induction ms arbitrary: ids)
  case (Cons m ms)
  show ?case
  proof (cases "tool_calls m")
    case (Inl e)
    then show ?thesis by (simp add: bind_res_def)
  next
    case (Inr calls)
    show ?thesis
    proof (cases "is_role m ''assistant''")
      case True
      then show ?thesis
        using tool_calls_calls_in [OF Inr True] Inr
        by (auto simp: bind_res_Inr call_ids_Inr Cons request_ids_def)
    next
      case False
      then have "calls_in m = []" by (simp add: calls_in_def)
      then show ?thesis using Inr False by (auto simp: bind_res_Inr Cons request_ids_def)
    qed
  qed
qed (auto simp: request_ids_def)

lemma answered_calls_Inr:
  "answered_calls done cs = Inr valid \<longleftrightarrow>
     list_all is_mapping cs \<and> list_all (\<lambda>c. hashable (call_id c)) cs \<and> valid = filter (\<lambda>c. call_id c \<in> set done) cs"
proof (induction cs arbitrary: valid)
  case (Cons c cs)
  show ?case
  proof (cases "is_mapping c")
    case True
    then obtain d where "c = VDict d" by (auto simp: is_mapping_iff)
    then show ?thesis by (auto simp: bind_res_Inr dict_or_raise_Inr call_id_def in_set_Inr Cons)
  next
    case False
    then show ?thesis by (auto simp: bind_res_Inr dict_or_raise_Inr)
  qed
qed auto

lemma map_of_filter_keys: "map_of (filter (\<lambda>(k, v). P k) m) k = (if P k then map_of m k else None)"
  by (induction m) auto

lemma vget_default_present: "vget d k \<noteq> VNone \<Longrightarrow> vget_default d k v = vget d k"
  by (simp add: vget_def vget_default_def split: option.splits)

lemma map_of_drop: "map_of (filter (\<lambda>(k, v). k \<noteq> k0) m) k = (if k = k0 then None else map_of m k)"
  by (induction m) auto

lemma vget_drop: "vget (filter (\<lambda>(k, v). k \<noteq> k0) m) k = (if k = k0 then VNone else vget m k)"
  by (induction m) auto

lemma dict_set_present: "map_of d k = Some w \<Longrightarrow> dict_set k w d = d"
  by (induction d) (auto split: if_splits)

text \<open>
  The contract of such a pass: from the identifiers of the results and of the calls, each message is
  dropped or kept with those calls that have a result.
\<close>

definition pair_step :: "pyval list \<Rightarrow> pyval list \<Rightarrow> pydict \<Rightarrow> pydict list \<Rightarrow> bool" where
  "pair_step R C m out \<longleftrightarrow>
     out = [] \<and> (is_role m ''tool'' \<and> vget m ''tool_call_id'' \<notin> set R \<or>
                  is_role m ''assistant'' \<and> filter (\<lambda>c. call_id c \<in> set C) (calls_in m) = []) \<or>
     (\<exists>x. out = [x] \<and> (\<forall>role. is_role x role = is_role m role) \<and>
          calls_in x = filter (\<lambda>c. call_id c \<in> set C) (calls_in m) \<and>
          (is_role m ''tool'' \<longrightarrow> x = m \<and> vget m ''tool_call_id'' \<in> set R) \<and> (\<exists>cs. tool_calls x = Inr cs) \<and>
          (\<forall>k. k \<noteq> ''tool_calls'' \<and> k \<noteq> ''reasoning_items'' \<longrightarrow> map_of x k = map_of m k))"

locale tool_pairing =
  fixes step :: "pyval list \<Rightarrow> pyval list \<Rightarrow> pydict \<Rightarrow> pydict list result"
    and pass :: "pydict list \<Rightarrow> pydict list result"
  assumes pass: "pass messages =
      bind_res (completed_ids messages) (\<lambda>completed. bind_res (requested_ids messages) (\<lambda>requested.
        bind_res (map_res (step requested completed) messages) (\<lambda>ms. Inr (concat ms))))"
    and step_Inr: "step R C m = Inr out \<Longrightarrow> tool_calls m = Inr calls \<Longrightarrow> pair_step R C m out"
    and step_keeps: "tool_calls m = Inr calls \<Longrightarrow>
      (is_role m ''tool'' \<Longrightarrow> hashable (vget m ''tool_call_id'') \<and> vget m ''tool_call_id'' \<in> set R) \<Longrightarrow>
      list_all (\<lambda>c. is_mapping c \<and> hashable (call_id c) \<and> call_id c \<in> set C) (calls_in m) \<Longrightarrow> step R C m = Inr [m]"
begin

lemma step_facts:
  assumes "step R C m = Inr out" "tool_calls m = Inr calls"
  shows "x \<in> set out \<Longrightarrow> is_role x ''tool'' \<Longrightarrow> x = m \<and> vget m ''tool_call_id'' \<in> set R"
    and "is_role m ''tool'' \<Longrightarrow> vget m ''tool_call_id'' \<in> set R \<Longrightarrow> m \<in> set out"
    and "x \<in> set out \<Longrightarrow> calls_in x = filter (\<lambda>c. call_id c \<in> set C) (calls_in m)"
    and "c \<in> set (calls_in m) \<Longrightarrow> call_id c \<in> set C \<Longrightarrow> \<exists>x\<in>set out. c \<in> set (calls_in x)"
    and "x \<in> set out \<Longrightarrow> \<exists>cs. tool_calls x = Inr cs"
    and "x \<in> set out \<Longrightarrow> k \<noteq> ''tool_calls'' \<Longrightarrow> k \<noteq> ''reasoning_items'' \<Longrightarrow> map_of x k = map_of m k"
proof -
  note cases = step_Inr [OF assms, unfolded pair_step_def]
  show "x \<in> set out \<Longrightarrow> is_role x ''tool'' \<Longrightarrow> x = m \<and> vget m ''tool_call_id'' \<in> set R"
    "x \<in> set out \<Longrightarrow> calls_in x = filter (\<lambda>c. call_id c \<in> set C) (calls_in m)"
    "x \<in> set out \<Longrightarrow> \<exists>cs. tool_calls x = Inr cs"
    "x \<in> set out \<Longrightarrow> k \<noteq> ''tool_calls'' \<Longrightarrow> k \<noteq> ''reasoning_items'' \<Longrightarrow> map_of x k = map_of m k"
    using cases by (elim disjE conjE exE; simp)+
  show "m \<in> set out" if "is_role m ''tool''" "vget m ''tool_call_id'' \<in> set R"
  proof -
    have "\<not> is_role m ''assistant''" using that(1) by (simp add: is_role_def)
    then show ?thesis using cases that by (elim disjE conjE exE; simp)
  qed
  show "\<exists>x\<in>set out. c \<in> set (calls_in x)" if "c \<in> set (calls_in m)" "call_id c \<in> set C"
  proof -
    have "\<not> is_role m ''tool''" using that(1) by (auto simp: calls_in_def is_role_def split: if_splits)
    moreover have "c \<in> set (filter (\<lambda>c. call_id c \<in> set C) (calls_in m))" using that by simp
    ultimately show ?thesis using cases by (elim disjE conjE exE; simp)
  qed
qed

lemma paired_unchanged:
  assumes "paired ms"
  shows "pass ms = Inr ms"
proof -
  have c: "completed_ids ms = Inr (result_ids ms)" and q: "requested_ids ms = Inr (request_ids ms)"
    using assms by (auto simp: paired_def completed_ids_Inr requested_ids_Inr list_all_iff)
  have "step (request_ids ms) (result_ids ms) m = Inr [m]" if m: "m \<in> set ms" for m
  proof -
    obtain calls where t: "tool_calls m = Inr calls"
      using assms m by (cases "tool_calls m") (auto simp: paired_def list_all_iff)
    show ?thesis
      by (rule step_keeps [OF t]) (use assms m in \<open>auto simp: paired_def list_all_iff\<close>)
  qed
  then have "map_res (step (request_ids ms) (result_ids ms)) ms = Inr (map (\<lambda>m. [m]) ms)"
    by (simp add: map_res_Inr list_all2_conv_all_nth)
  then show ?thesis by (simp add: pass c q)
qed

text \<open>Where the messages of a reconciled conversation come from, and what becomes of each message.\<close>

lemma pass_origin:
  assumes "pass messages = Inr reconciled"
  defines "each \<equiv> step (request_ids messages) (result_ids messages)"
  shows "x \<in> set reconciled \<Longrightarrow> \<exists>m\<in>set messages. \<exists>out calls. each m = Inr out \<and> x \<in> set out \<and> tool_calls m = Inr calls"
    and "m \<in> set messages \<Longrightarrow> \<exists>out calls. each m = Inr out \<and> set out \<subseteq> set reconciled \<and> tool_calls m = Inr calls"
    and "list_all hashable (result_ids messages)" "list_all is_mapping (concat (map calls_in messages))"
    and "\<exists>outs. map_res each messages = Inr outs \<and> reconciled = concat outs"
proof -
  obtain outs where ids: "completed_ids messages = Inr (result_ids messages)" "requested_ids messages = Inr (request_ids messages)"
    and outs: "map_res each messages = Inr outs" "reconciled = concat outs"
    using assms by (auto simp: pass bind_res_Inr completed_ids_Inr requested_ids_Inr)
  then show "list_all hashable (result_ids messages)" "list_all is_mapping (concat (map calls_in messages))"
    "\<exists>outs. map_res each messages = Inr outs \<and> reconciled = concat outs"
    by (auto simp only: completed_ids_Inr requested_ids_Inr)
  have "list_all (\<lambda>m. case tool_calls m of Inl _ \<Rightarrow> False | Inr _ \<Rightarrow> True) messages"
    using ids(2) by (simp only: requested_ids_Inr)
  then have ok: "\<exists>calls. tool_calls m = Inr calls" if "m \<in> set messages" for m
    using that by (cases "tool_calls m") (auto simp: list_all_iff)
  show "\<exists>m\<in>set messages. \<exists>out calls. each m = Inr out \<and> x \<in> set out \<and> tool_calls m = Inr calls"
    if "x \<in> set reconciled"
    using map_res_concat [OF outs(1), of x] that ok unfolding outs(2) by blast
  show "\<exists>out calls. each m = Inr out \<and> set out \<subseteq> set reconciled \<and> tool_calls m = Inr calls"
    if "m \<in> set messages"
    using map_res_each [OF outs(1) that] ok [OF that] unfolding outs(2) by blast
qed

lemma pass_fields:
  assumes "pass messages = Inr reconciled" "x \<in> set reconciled"
  obtains m where "m \<in> set messages" "\<And>k. k \<noteq> ''tool_calls'' \<Longrightarrow> k \<noteq> ''reasoning_items'' \<Longrightarrow> map_of x k = map_of m k"
proof -
  obtain m out calls where m: "m \<in> set messages" "step (request_ids messages) (result_ids messages) m = Inr out"
      "x \<in> set out" "tool_calls m = Inr calls"
    using pass_origin(1) [OF assms] by blast
  show ?thesis by (rule that [OF m(1)]) (rule step_facts(6) [OF m(2,4,3)])
qed

lemma pass_results:
  assumes "pass messages = Inr reconciled"
  shows "set (result_ids reconciled) = set (result_ids messages) \<inter> set (request_ids messages)"
proof (intro set_eqI iffI)
  fix i assume "i \<in> set (result_ids reconciled)"
  then obtain x where x: "x \<in> set reconciled" "is_role x ''tool''" "truthy i" "i = vget x ''tool_call_id''"
    by (auto simp: result_ids_def)
  obtain m out calls where m: "m \<in> set messages" "step (request_ids messages) (result_ids messages) m = Inr out" "x \<in> set out" "tool_calls m = Inr calls"
    using pass_origin(1) [OF assms x(1)] by blast
  have "x = m" "vget m ''tool_call_id'' \<in> set (request_ids messages)" using step_facts(1) [OF m(2,4,3) x(2)] by auto
  then show "i \<in> set (result_ids messages) \<inter> set (request_ids messages)" using m(1) x by (auto simp: result_ids_def)
next
  fix i assume i: "i \<in> set (result_ids messages) \<inter> set (request_ids messages)"
  then obtain m where m: "m \<in> set messages" "is_role m ''tool''" "truthy i" "i = vget m ''tool_call_id''"
    by (auto simp: result_ids_def)
  obtain out calls where out: "step (request_ids messages) (result_ids messages) m = Inr out" "set out \<subseteq> set reconciled" "tool_calls m = Inr calls"
    using pass_origin(2) [OF assms m(1)] by blast
  have "m \<in> set reconciled" using step_facts(2) [OF out(1,3) m(2)] i m(4) out(2) by blast
  then show "i \<in> set (result_ids reconciled)" using m by (auto simp: result_ids_def)
qed

lemma pass_calls:
  assumes "pass messages = Inr reconciled"
  shows "set (concat (map calls_in reconciled)) =
           {c \<in> set (concat (map calls_in messages)). call_id c \<in> set (result_ids messages)}"
proof (intro set_eqI iffI)
  fix c assume "c \<in> set (concat (map calls_in reconciled))"
  then obtain x where x: "x \<in> set reconciled" "c \<in> set (calls_in x)" by auto
  obtain m out calls where m: "m \<in> set messages" "step (request_ids messages) (result_ids messages) m = Inr out" "x \<in> set out" "tool_calls m = Inr calls"
    using pass_origin(1) [OF assms x(1)] by blast
  have "c \<in> set (filter (\<lambda>c. call_id c \<in> set (result_ids messages)) (calls_in m))"
    using x(2) unfolding step_facts(3) [OF m(2,4,3)] .
  then show "c \<in> {c \<in> set (concat (map calls_in messages)). call_id c \<in> set (result_ids messages)}" using m(1) by auto
next
  fix c assume "c \<in> {c \<in> set (concat (map calls_in messages)). call_id c \<in> set (result_ids messages)}"
  then obtain m where m: "m \<in> set messages" "c \<in> set (calls_in m)" "call_id c \<in> set (result_ids messages)" by auto
  obtain out calls where out: "step (request_ids messages) (result_ids messages) m = Inr out" "set out \<subseteq> set reconciled" "tool_calls m = Inr calls"
    using pass_origin(2) [OF assms m(1)] by blast
  have "\<exists>x\<in>set out. c \<in> set (calls_in x)" by (rule step_facts(4) [OF out(1,3) m(2,3)])
  then show "c \<in> set (concat (map calls_in reconciled))" using out(2) by auto
qed

lemma pass_paired:
  assumes "pass messages = Inr reconciled"
  shows "paired reconciled"
proof -
  let ?C = "result_ids messages" and ?R = "request_ids messages"
  note origin = pass_origin [OF assms] and res = pass_results [OF assms] and calls = pass_calls [OF assms]
  have req: "set (request_ids reconciled) = set ?C \<inter> set ?R"
    using calls unfolding request_ids_def set_filter set_map by auto
  show ?thesis
    unfolding paired_def
  proof (intro conjI)
    show "list_all (\<lambda>m. is_role m ''tool'' \<longrightarrow> vget m ''tool_call_id'' \<in> set (request_ids reconciled)) reconciled"
      unfolding list_all_iff
    proof (intro ballI impI)
      fix x assume x: "x \<in> set reconciled" "is_role x ''tool''"
      obtain m out calls where m: "m \<in> set messages" "step ?R ?C m = Inr out" "x \<in> set out" "tool_calls m = Inr calls"
        using pass_origin(1) [OF assms x(1)] by blast
      have "x = m" "vget m ''tool_call_id'' \<in> set ?R" using step_facts(1) [OF m(2,4,3) x(2)] by auto
      moreover from this have "truthy (vget m ''tool_call_id'')" by (auto simp: request_ids_def)
      ultimately show "vget x ''tool_call_id'' \<in> set (request_ids reconciled)"
        using m(1) x(2) by (auto simp: req result_ids_def)
    qed
    show "list_all (\<lambda>c. is_mapping c \<and> call_id c \<in> set (result_ids reconciled)) (concat (map calls_in reconciled))"
      unfolding list_all_iff calls res
    proof (intro ballI conjI)
      fix c assume c: "c \<in> {c \<in> set (concat (map calls_in messages)). call_id c \<in> set ?C}"
      then show "is_mapping c" using origin(4) by (auto simp: list_all_iff)
      have "truthy (call_id c)" using c by (auto simp: result_ids_def)
      then show "call_id c \<in> set ?C \<inter> set ?R" using c by (auto simp: request_ids_def)
    qed
    show "list_all hashable (result_ids reconciled @ request_ids reconciled)"
      using origin(3) by (simp add: list_all_iff res req)
    show "list_all (\<lambda>m. case tool_calls m of Inl _ \<Rightarrow> False | Inr _ \<Rightarrow> True) reconciled"
      unfolding list_all_iff
    proof
      fix x assume x: "x \<in> set reconciled"
      obtain m out calls where m: "step ?R ?C m = Inr out" "x \<in> set out" "tool_calls m = Inr calls"
        using pass_origin(1) [OF assms x] by blast
      show "case tool_calls x of Inl _ \<Rightarrow> False | Inr _ \<Rightarrow> True" using step_facts(5) [OF m(1,3,2)] by auto
    qed
  qed
qed

lemma pass_pairs:
  assumes "pass messages = Inr reconciled"
  shows "paired reconciled \<and> pass reconciled = Inr reconciled \<and>
         filter (\<lambda>m. \<not> is_role m ''tool'' \<and> \<not> is_role m ''assistant'') reconciled =
           filter (\<lambda>m. \<not> is_role m ''tool'' \<and> \<not> is_role m ''assistant'') messages \<and>
         (paired messages \<longrightarrow> reconciled = messages)"
proof -
  let ?C = "result_ids messages" and ?R = "request_ids messages"
  have "paired reconciled" by (rule pass_paired [OF assms])
  moreover have "filter (\<lambda>m. \<not> is_role m ''tool'' \<and> \<not> is_role m ''assistant'') reconciled =
      filter (\<lambda>m. \<not> is_role m ''tool'' \<and> \<not> is_role m ''assistant'') messages"
  proof -
    obtain outs where outs: "map_res (step ?R ?C) messages = Inr outs" "reconciled = concat outs"
      using pass_origin(5) [OF assms] by blast
    show ?thesis
      unfolding outs(2)
    proof (rule map_res_filter [OF outs(1)])
      fix m out assume m: "m \<in> set messages" "step ?R ?C m = Inr out"
      obtain calls where "tool_calls m = Inr calls" using pass_origin(2) [OF assms m(1)] by blast
      note shape = step_Inr [OF m(2) this, unfolded pair_step_def] and keeps = step_keeps [OF this, of ?R ?C]
      show "filter (\<lambda>m. \<not> is_role m ''tool'' \<and> \<not> is_role m ''assistant'') out =
          (if \<not> is_role m ''tool'' \<and> \<not> is_role m ''assistant'' then [m] else [])"
      proof (cases "is_role m ''tool'' \<or> is_role m ''assistant''")
        case True
        then show ?thesis using shape by (elim disjE exE conjE; simp)
      next
        case False
        then have "step ?R ?C m = Inr [m]" by (intro keeps) (simp_all add: calls_in_def)
        then show ?thesis using m(2) False by simp
      qed
    qed
  qed
  ultimately show ?thesis using paired_unchanged assms by auto
qed

end

text \<open>Both passes keep the contract.\<close>

lemma reconcile_message_Inr:
  assumes r: "reconcile_message R C m = Inr out" and t: "tool_calls m = Inr calls"
  shows "pair_step R C m out"
proof (cases "is_role m ''assistant'' \<and> truthy (vget m ''tool_calls'')")
  case False
  then have "calls_in m = []" by (auto simp: calls_in_def)
  then show ?thesis
    using r t False by (auto simp: pair_step_def reconcile_message_def bind_res_Inr in_set_Inr split: if_splits)
next
  case True
  have tool: "\<not> is_role m ''tool''" using True by (simp add: is_role_def)
  have calls: "calls = calls_in m" using tool_calls_calls_in [OF t] True by simp
  define valid where "valid = filter (\<lambda>c. call_id c \<in> set C) (calls_in m)"
  have out: "out = (if valid \<noteq> [] then [dict_set ''tool_calls'' (VList valid) m]
                    else if has_meaning m then [filter (\<lambda>(k, v). k \<noteq> ''tool_calls'') m] else [])"
    using r t True tool calls
    by (auto simp: reconcile_message_def bind_res_Inr answered_calls_Inr valid_def split: if_splits)
  show ?thesis
  proof (cases "valid = []")
    case False
    let ?x = "dict_set ''tool_calls'' (VList valid) m"
    have "calls_in ?x = valid" "\<forall>role. is_role ?x role = is_role m role" "tool_calls ?x = Inr valid"
        "\<forall>k. k \<noteq> ''tool_calls'' \<longrightarrow> map_of ?x k = map_of m k"
      using True False by (simp_all add: calls_in_def is_role_def vget_dict_set tool_calls_def iterate_def map_of_dict_set)
    then show ?thesis using out False tool by (simp add: pair_step_def valid_def)
  next
    case nil: True
    let ?x = "filter (\<lambda>(k, v). k \<noteq> ''tool_calls'') m"
    have "calls_in ?x = []" "\<forall>role. is_role ?x role = is_role m role" "tool_calls ?x = Inr []"
        "\<forall>k. k \<noteq> ''tool_calls'' \<longrightarrow> map_of ?x k = map_of m k"
      by (simp_all add: calls_in_def is_role_def vget_drop map_of_drop tool_calls_def)
    then show ?thesis using out nil tool True by (simp add: pair_step_def valid_def split: if_splits)
  qed
qed

lemma kept_calls:
  assumes "tool_calls m = Inr calls" "is_role m ''assistant''" "truthy (vget m ''tool_calls'')"
    and "list_all (\<lambda>c. is_mapping c \<and> hashable (call_id c) \<and> call_id c \<in> set C) (calls_in m)"
  shows "answered_calls C calls = Inr calls" "calls \<noteq> []" "dict_set ''tool_calls'' (VList calls) m = m"
proof -
  have calls: "calls = calls_in m" using tool_calls_calls_in [OF assms(1,2)] .
  have "list_all is_mapping calls" using assms(4) by (simp add: list_all_iff calls)
  have "answered_calls C calls = Inr (filter (\<lambda>c. call_id c \<in> set C) calls)"
    using assms(4) by (simp add: answered_calls_Inr list_all_iff calls)
  then show "answered_calls C calls = Inr calls" using assms(4) by (simp add: list_all_iff calls)
  have "calls \<noteq> [] \<and> vget m ''tool_calls'' = VList calls"
    using assms(1,3) \<open>list_all is_mapping calls\<close>
    by (cases "vget m ''tool_calls''") (auto simp: tool_calls_def iterate_def neq_Nil_conv)
  then show "calls \<noteq> []" "dict_set ''tool_calls'' (VList calls) m = m"
    by (auto simp: vget_def split: option.splits intro: dict_set_present)
qed

lemma sanitize_message_Inr:
  assumes r: "sanitize_message R C m = Inr out" and t: "tool_calls m = Inr calls"
  shows "pair_step R C m out"
proof (cases "is_role m ''assistant'' \<and> truthy (vget m ''tool_calls'')")
  case False
  then have "calls_in m = []" by (auto simp: calls_in_def)
  then show ?thesis
    using r t False by (auto simp: pair_step_def sanitize_message_def bind_res_Inr in_set_Inr split: if_splits)
next
  case True
  have tool: "\<not> is_role m ''tool''" using True by (simp add: is_role_def)
  have calls: "calls = calls_in m" using tool_calls_calls_in [OF t] True by simp
  define valid where "valid = filter (\<lambda>c. call_id c \<in> set C) (calls_in m)"
  define clean where "clean = filter (\<lambda>(k, v). k \<noteq> ''reasoning_items'') (filter (\<lambda>(k, v). k \<noteq> ''tool_calls'') m)"
  have out: "out = (if valid \<noteq> [] then [dict_set ''tool_calls'' (VList valid) m]
                    else if truthy (vget clean ''content'') then [clean] else [])"
    using r t True tool calls
    by (auto simp: sanitize_message_def bind_res_Inr answered_calls_Inr valid_def clean_def split: if_splits)
  show ?thesis
  proof (cases "valid = []")
    case False
    let ?x = "dict_set ''tool_calls'' (VList valid) m"
    have "calls_in ?x = valid" "\<forall>role. is_role ?x role = is_role m role" "tool_calls ?x = Inr valid"
        "\<forall>k. k \<noteq> ''tool_calls'' \<longrightarrow> map_of ?x k = map_of m k"
      using True False by (simp_all add: calls_in_def is_role_def vget_dict_set tool_calls_def iterate_def map_of_dict_set)
    then show ?thesis using out False tool by (simp add: pair_step_def valid_def)
  next
    case nil: True
    have "calls_in clean = []" "\<forall>role. is_role clean role = is_role m role" "tool_calls clean = Inr []"
        "\<forall>k. k \<noteq> ''tool_calls'' \<and> k \<noteq> ''reasoning_items'' \<longrightarrow> map_of clean k = map_of m k"
      by (simp_all add: clean_def calls_in_def is_role_def vget_drop map_of_drop tool_calls_def del: filter_filter)
    then show ?thesis using out nil tool True by (simp add: pair_step_def valid_def split: if_splits)
  qed
qed

interpretation reconcile: tool_pairing reconcile_message reconcile_tool_pairs
proof
  show "pair_step R C m out" if "reconcile_message R C m = Inr out" "tool_calls m = Inr calls" for R C m out calls
    by (rule reconcile_message_Inr [OF that])
  show "reconcile_message R C m = Inr [m]"
    if t: "tool_calls m = Inr calls" and tool: "is_role m ''tool'' \<Longrightarrow> hashable (vget m ''tool_call_id'') \<and> vget m ''tool_call_id'' \<in> set R"
      and ok: "list_all (\<lambda>c. is_mapping c \<and> hashable (call_id c) \<and> call_id c \<in> set C) (calls_in m)" for R C m calls
  proof (cases "is_role m ''assistant'' \<and> truthy (vget m ''tool_calls'')")
    case True
    then have "\<not> is_role m ''tool''" by (simp add: is_role_def)
    then show ?thesis using kept_calls [OF t _ _ ok] True t by (simp add: reconcile_message_def)
  qed (use tool in \<open>auto simp: reconcile_message_def in_set_def\<close>)
qed (simp add: reconcile_tool_pairs_def)

interpretation sanitize: tool_pairing sanitize_message sanitize_tool_pairs
proof
  show "pair_step R C m out" if "sanitize_message R C m = Inr out" "tool_calls m = Inr calls" for R C m out calls
    by (rule sanitize_message_Inr [OF that])
  show "sanitize_message R C m = Inr [m]"
    if t: "tool_calls m = Inr calls" and tool: "is_role m ''tool'' \<Longrightarrow> hashable (vget m ''tool_call_id'') \<and> vget m ''tool_call_id'' \<in> set R"
      and ok: "list_all (\<lambda>c. is_mapping c \<and> hashable (call_id c) \<and> call_id c \<in> set C) (calls_in m)" for R C m calls
  proof (cases "is_role m ''assistant'' \<and> truthy (vget m ''tool_calls'')")
    case True
    then show ?thesis using kept_calls [OF t _ _ ok] t by (simp add: sanitize_message_def)
  qed (use tool in \<open>auto simp: sanitize_message_def in_set_def\<close>)
qed (simp add: sanitize_tool_pairs_def)

text \<open>After the reconciliation every tool result in the conversation answers a tool call of an
  assistant message and every tool call has a result, whatever was missing before; messages that are
  neither results nor carry calls are all kept, and a conversation whose calls and results pair up,
  as the one returned does, is not changed.\<close>

theorem tool_pairs_reconciled:
  assumes "reconcile_tool_pairs messages = Inr reconciled"
  shows "paired reconciled \<and> reconcile_tool_pairs reconciled = Inr reconciled \<and>
         filter (\<lambda>m. \<not> is_role m ''tool'' \<and> \<not> is_role m ''assistant'') reconciled =
           filter (\<lambda>m. \<not> is_role m ''tool'' \<and> \<not> is_role m ''assistant'') messages \<and>
         (paired messages \<longrightarrow> reconciled = messages)"
  by (rule reconcile.pass_pairs [OF assms])

lemma tool_pairs_reconciled_witness:
  "paired [[(''role'', VStr ''user'')]] \<and> reconcile_tool_pairs [[(''role'', VStr ''user'')]] = Inr [[(''role'', VStr ''user'')]]"
proof -
  have "reconcile_tool_pairs [[(''role'', VStr ''assistant''), (''tool_calls'', VList [VDict [(''id'', VStr ''a'')]])],
      [(''role'', VStr ''user'')], [(''role'', VStr ''tool''), (''tool_call_id'', VStr ''b'')]] = Inr [[(''role'', VStr ''user'')]]"
    by code_simp
  from tool_pairs_reconciled [OF this] show ?thesis by blast
qed

section \<open>One system message, at the front\<close>

lemma split_system_others: "snd (split_system ms) = filter (\<lambda>m. \<not> is_role m ''system'') ms"
  by (induction ms) (auto simp: Let_def split: prod.splits)

lemma set_tl_subset: "x \<in> set (tl xs) \<Longrightarrow> x \<in> set xs"
  by (cases xs) auto

lemma split_system_contents: "list_all truthy (fst (split_system ms))"
  by (induction ms) (auto simp: Let_def split: prod.splits)

text \<open>
  The other messages keep their order, a system message can only stand first, and merging again
  changes nothing.
\<close>

theorem system_message_first:
  assumes "merge_system_messages messages = Inr merged"
  shows "filter (\<lambda>m. \<not> is_role m ''system'') merged = filter (\<lambda>m. \<not> is_role m ''system'') messages"
    and "list_all (\<lambda>m. \<not> is_role m ''system'') (tl merged)"
    and "merge_system_messages merged = Inr merged"
proof -
  obtain contents others where sp: "split_system messages = (contents, others)" by fastforce
  have others: "others = filter (\<lambda>m. \<not> is_role m ''system'') messages"
    using split_system_others [of messages] by (simp add: sp)
  have none: "split_system others = ([], others)"
    unfolding others by (induction messages) auto
  have sys: "is_role ((''role'', VStr ''system'') # d) ''system''" for d by (simp add: is_role_def)
  have "merged = others \<or> (\<exists>d. merged = ((''role'', VStr ''system'') # d) # others)"
    using assms by (auto simp: merge_system_messages_def sp bind_res_Inr split: if_splits)
  then consider "merged = others" | d where "merged = ((''role'', VStr ''system'') # d) # others" by blast
  then have "filter (\<lambda>m. \<not> is_role m ''system'') merged = others
      \<and> list_all (\<lambda>m. \<not> is_role m ''system'') (tl merged)"
  proof cases
    case 1
    then show ?thesis by (auto simp: others list_all_iff dest: set_tl_subset)
  next
    case 2
    then show ?thesis by (simp add: others list_all_iff sys)
  qed
  then show "filter (\<lambda>m. \<not> is_role m ''system'') merged = filter (\<lambda>m. \<not> is_role m ''system'') messages"
    and "list_all (\<lambda>m. \<not> is_role m ''system'') (tl merged)"
    by (simp_all add: others)
  show "merge_system_messages merged = Inr merged"
  proof (cases "contents = []")
    case True
    then show ?thesis using assms none by (simp add: merge_system_messages_def sp)
  next
    case False
    then obtain texts where t: "join_values contents = Inr texts"
        "merged = [(''role'', VStr ''system''), (''content'', VStr (join [newline] texts))] # others"
      using assms by (auto simp: merge_system_messages_def sp bind_res_Inr)
    obtain c cs where c: "contents = c # cs" using False by (cases contents) auto
    have "truthy c" using split_system_contents [of messages] by (simp add: sp c)
    then obtain u us where u: "texts = u # us" "u \<noteq> []"
      using t(1) by (cases c) (auto simp: c bind_res_Inr)
    have "join [newline] texts \<noteq> []" using u by (cases us) auto
    then show ?thesis
      unfolding t(2) merge_system_messages_def by (simp add: none is_role_def get_content_from_message_def)
  qed
qed

end
