(* ===== verification/ChatOutput.thy ===== *)
theory ChatOutput
  imports ChatTools "HOL-Library.Multiset"
begin

text \<open>
  The answer of an assistant is stored as a list of output items (texts, tool calls, tool results, reasoning,
  executed code); \<open>convert_output_to_messages\<close> (\<open>utils/misc.py\<close>) turns it back into chat messages. The
  variables of the loop are a record, an item is one step. Items of the wrong shape raise, as in
  Python. The JSON codec (\<open>orjson\<close> or \<open>json\<close>, chosen by an environment variable) is a parameter.
\<close>

section \<open>The variables of the loop\<close>

record conversion =
  cv_messages :: "pydict list"
  cv_calls :: "pyval list"
  cv_texts :: "string list"
  cv_reasoning :: "string list"
  cv_details :: "pyval list"
  cv_images :: "pyval list"
  cv_outputs :: "pydict list"

definition no_conversion :: conversion where
  "no_conversion = \<lparr>cv_messages = [], cv_calls = [], cv_texts = [], cv_reasoning = [], cv_details = [],
     cv_images = [], cv_outputs = []\<rparr>"

fun output_call_ids :: "(pydict \<Rightarrow> bool result) \<Rightarrow> pyval list \<Rightarrow> pyval list result" where
  \<comment> \<open>\<open>{item.get('call_id') for item in output if ... and item.get('call_id') and ...}\<close>\<close>
  "output_call_ids selected [] = Inr []"
| "output_call_ids selected (item # items) =
     bind_res (dict_or_raise item) (\<lambda>d. bind_res (selected d) (\<lambda>yes.
       bind_res (if yes then add_to_set (vget d ''call_id'') [] else Inr []) (\<lambda>new.
         bind_res (output_call_ids selected items) (\<lambda>ids. Inr (new @ ids)))))"

definition finished_call :: "pydict \<Rightarrow> bool result" where
  "finished_call d =
     (if is_type d ''function_call'' \<and> truthy (vget d ''call_id'')
      then in_set (vget d ''status'') [VStr ''completed'', VStr ''failed'', VStr ''rejected'']
      else Inr False)"

definition has_result :: "pydict \<Rightarrow> bool result" where
  "has_result d = Inr (is_type d ''function_call_output'' \<and> truthy (vget d ''call_id''))"

definition function_call_ids :: "pyval list \<Rightarrow> pyval list result" where
  "function_call_ids output =
     bind_res (output_call_ids finished_call output) (\<lambda>completed.
       bind_res (output_call_ids has_result output) (\<lambda>results.
         Inr (filter (\<lambda>i. i \<in> set results) completed)))"

section \<open>Emptying the variables\<close>

definition pending_message :: "string option \<Rightarrow> conversion \<Rightarrow> pydict" where
  "pending_message reasoning_format s =
     [(''role'', VStr ''assistant''), (''content'', VStr (join [newline] (cv_texts s)))] @
     (if cv_calls s \<noteq> [] then [(''tool_calls'', VList (cv_calls s))] else []) @
     (if cv_reasoning s \<noteq> []
      then [(if reasoning_format = Some ''thinking'' then ''thinking'' else ''reasoning_content'',
             VStr (join [newline] (cv_reasoning s)))]
      else []) @
     (if cv_details s \<noteq> [] then [(''reasoning_details'', VList (cv_details s))] else [])"

definition flush_pending :: "string option \<Rightarrow> conversion \<Rightarrow> conversion" where
  "flush_pending reasoning_format s =
     (if cv_texts s = [] \<and> cv_calls s = [] \<and> cv_reasoning s = [] \<and> cv_details s = [] then s
      else s\<lparr>cv_messages := cv_messages s @ [pending_message reasoning_format s],
             cv_texts := [], cv_calls := [], cv_reasoning := [], cv_details := []\<rparr>)"

definition image_message :: "pyval list \<Rightarrow> pydict" where
  "image_message urls =
     [(''role'', VStr ''user''),
      (''content'', VList (VDict [(''type'', VStr ''text''),
           (''text'', VStr ''Here are the images from the tool results above. Please analyze them.'')]
         # map (\<lambda>url. VDict [(''type'', VStr ''image_url''), (''image_url'', VDict [(''url'', url)])]) urls))]"

definition flush_tool_images :: "conversion \<Rightarrow> conversion" where
  "flush_tool_images s =
     (if cv_images s = [] then s
      else s\<lparr>cv_messages := cv_messages s @ [image_message (cv_images s)], cv_images := []\<rparr>)"

fun read_output_parts :: "pyval list \<Rightarrow> (string \<times> pyval list) result" where
  \<comment> \<open>the text of a tool result, and the addresses of its images\<close>
  "read_output_parts [] = Inr ([], [])"
| "read_output_parts (p # ps) =
     bind_res (dict_or_raise p) (\<lambda>part. bind_res (read_output_parts ps) (\<lambda>(content, urls).
       if is_type part ''input_text'' then Inr (py_str (vget_default part ''text'' (VStr [])) @ content, urls)
       else if is_type part ''input_image'' \<and> truthy (vget_default part ''image_url'' (VStr []))
       then Inr (content, vget_default part ''image_url'' (VStr []) # urls)
       else Inr (content, urls)))"

definition tool_message :: "pydict \<Rightarrow> pyval \<Rightarrow> pydict" where
  "tool_message item content =
     [(''role'', VStr ''tool''), (''tool_call_id'', vget_default item ''call_id'' (VStr [])), (''content'', content)]"

definition flush_output :: "bool \<Rightarrow> pydict \<Rightarrow> conversion \<Rightarrow> conversion result" where
  "flush_output flatten_tool_images item s =
     bind_res (iterate (vget_default item ''output'' (VList []))) (\<lambda>parts.
       bind_res (read_output_parts parts) (\<lambda>(content, urls).
         if flatten_tool_images
         then Inr (s\<lparr>cv_messages := cv_messages s @ [tool_message item (VStr content)], cv_images := cv_images s @ urls\<rparr>)
         else if urls \<noteq> []
         then Inr (s\<lparr>cv_messages := cv_messages s @ [tool_message item
                (VList (VDict [(''type'', VStr ''input_text''), (''text'', VStr content)]
                  # map (\<lambda>url. VDict [(''type'', VStr ''input_image''), (''image_url'', url)]) urls))]\<rparr>)
         else Inr (s\<lparr>cv_messages := cv_messages s @ [tool_message item (VStr content)]\<rparr>)))"

definition flush_tool_outputs :: "string option \<Rightarrow> bool \<Rightarrow> conversion \<Rightarrow> conversion result" where
  "flush_tool_outputs reasoning_format flatten_tool_images s =
     (if cv_outputs s = [] then Inr s
      else bind_res (fold_res (flush_output flatten_tool_images) (cv_outputs s) (flush_pending reasoning_format s))
             (\<lambda>s. Inr (s\<lparr>cv_outputs := []\<rparr>)))"

section \<open>One item\<close>

fun concat_texts :: "(pydict \<Rightarrow> bool) \<Rightarrow> pyval list \<Rightarrow> string result" where
  \<comment> \<open>\<open>text += part.get('text', '')\<close> for the selected parts\<close>
  "concat_texts selected [] = Inr []"
| "concat_texts selected (p # ps) =
     bind_res (dict_or_raise p) (\<lambda>part.
       bind_res (if selected part
                 then (case vget_default part ''text'' (VStr []) of VStr t \<Rightarrow> Inr t
                       | _ \<Rightarrow> Inl (TypeError ''can only concatenate str''))
                 else Inr []) (\<lambda>t.
         bind_res (concat_texts selected ps) (\<lambda>ts. Inr (t @ ts))))"

definition message_item :: "pydict \<Rightarrow> conversion \<Rightarrow> conversion result" where
  "message_item d s =
     bind_res (iterate (vget_default d ''content'' (VList []))) (\<lambda>parts.
       bind_res (concat_texts (\<lambda>part. is_type part ''output_text'') parts) (\<lambda>t.
         Inr (if t \<noteq> [] then s\<lparr>cv_texts := cv_texts s @ [t]\<rparr> else s)))"

definition call_item :: "(pyval \<Rightarrow> string result) \<Rightarrow> pyval list \<Rightarrow> pydict \<Rightarrow> conversion \<Rightarrow> conversion result" where
  "call_item dumps ids d s =
     bind_res (in_set (vget d ''call_id'') ids) (\<lambda>known.
       if \<not> known then Inr s
       else bind_res (case vget_default d ''arguments'' (VStr ''{}'') of VStr t \<Rightarrow> Inr t | v \<Rightarrow> dumps v) (\<lambda>arguments.
         Inr (s\<lparr>cv_calls := cv_calls s @
           [VDict [(''id'', vget_default d ''call_id'' (VStr [])), (''type'', VStr ''function''),
                   (''function'', VDict [(''name'', vget_default d ''name'' (VStr [])), (''arguments'', VStr arguments)])]]\<rparr>)))"

definition output_item :: "pyval list \<Rightarrow> pydict \<Rightarrow> conversion \<Rightarrow> conversion result" where
  "output_item ids d s =
     bind_res (in_set (vget d ''call_id'') ids) (\<lambda>known.
       Inr (if known then s\<lparr>cv_outputs := cv_outputs s @ [d]\<rparr> else s))"

definition replayable_detail :: "pyval \<Rightarrow> bool" where
  "replayable_detail v =
     (case v of VDict d \<Rightarrow> vget d ''format'' \<noteq> VStr ''anthropic-claude-v1'' \<or> truthy (vget d ''signature'') | _ \<Rightarrow> False)"

definition item_details :: "bool \<Rightarrow> pydict \<Rightarrow> pyval list" where
  "item_details raw d =
     (let v = (if raw then vget d ''reasoning_details'' else VNone)
      in if truthy v then filter replayable_detail (case v of VList xs \<Rightarrow> xs | _ \<Rightarrow> [v]) else [])"

definition add_reasoning :: "string option \<Rightarrow> pydict \<Rightarrow> string \<Rightarrow> conversion \<Rightarrow> conversion" where
  "add_reasoning reasoning_format d t s =
     (if t = [] then s
      else if reasoning_format = Some ''think_tags''
      then s\<lparr>cv_texts := cv_texts s @ [py_str (vget_default d ''start_tag'' (VStr ''<think>'')) @ t @
              py_str (vget_default d ''end_tag'' (VStr ''</think>''))]\<rparr>
      else if reasoning_format = Some ''thinking'' \<or> reasoning_format = Some ''reasoning_content''
      then s\<lparr>cv_reasoning := cv_reasoning s @ [t]\<rparr>
      else s)"

definition reasoning_item :: "bool \<Rightarrow> string option \<Rightarrow> pydict \<Rightarrow> conversion \<Rightarrow> conversion result" where
  "reasoning_item raw reasoning_format d s =
     (let details = item_details raw d
      in if (reasoning_format = None \<or> reasoning_format = Some []) \<and> details = [] then Inr s
         else bind_res (iterate (py_or (vget_default d ''summary'' (VList [])) (vget_default d ''content'' (VList [])))) (\<lambda>parts.
           bind_res (concat_texts (\<lambda>part. is_type part ''output_text'' \<or> map_of part ''text'' \<noteq> None) parts) (\<lambda>t.
             Inr ((add_reasoning reasoning_format d t s)\<lparr>cv_details := cv_details s @ details\<rparr>))))"

definition code_item :: "pydict \<Rightarrow> conversion \<Rightarrow> conversion" where
  "code_item d s =
     (let code = vget_default d ''code'' (VStr []);
          code_output = vget_default d ''output'' (VStr []);
          output_text = (case code_output of
              VDict r \<Rightarrow> py_or (vget_default r ''stdout'' (VStr [])) (vget_default r ''result'' (VStr []))
            | _ \<Rightarrow> VStr (py_str code_output));
          s = (if truthy code
               then s\<lparr>cv_texts := cv_texts s @ [''<code_interpreter>'' @ [newline] @ py_str code @ [newline] @ ''</code_interpreter>'']\<rparr>
               else s)
      in if truthy code_output \<and> truthy output_text
         then s\<lparr>cv_texts := cv_texts s @ [''<code_interpreter_output>'' @ [newline] @ py_str output_text @ [newline] @ ''</code_interpreter_output>'']\<rparr>
         else s)"

definition convert_item :: "(pyval \<Rightarrow> string result) \<Rightarrow> bool \<Rightarrow> string option \<Rightarrow> bool \<Rightarrow> pyval list \<Rightarrow> pyval \<Rightarrow> conversion \<Rightarrow> conversion result" where
  "convert_item dumps raw reasoning_format flatten_tool_images ids item s =
     bind_res (dict_or_raise item) (\<lambda>d.
       let item_type = vget_default d ''type'' (VStr [])
       in bind_res (in_set item_type [VStr ''function_call'', VStr ''function_call_output'']) (\<lambda>tool.
            bind_res (if tool then Inr s
                      else bind_res (flush_tool_outputs reasoning_format flatten_tool_images s) (\<lambda>s. Inr (flush_tool_images s))) (\<lambda>s.
              if item_type = VStr ''message'' then message_item d s
              else if item_type = VStr ''function_call'' then call_item dumps ids d s
              else if item_type = VStr ''function_call_output'' then output_item ids d s
              else if item_type = VStr ''reasoning'' then reasoning_item raw reasoning_format d s
              else if item_type = VStr ''open_webui:code_interpreter'' then Inr (code_item d s)
              else (case item_type of VStr t \<Rightarrow> Inr s | _ \<Rightarrow> Inl (OtherError ''AttributeError'')))))"

definition collected_messages :: "(pyval \<Rightarrow> string result) \<Rightarrow> bool \<Rightarrow> string option \<Rightarrow> bool \<Rightarrow> pyval list \<Rightarrow> pydict list result" where
  \<comment> \<open>the messages before the last line\<close>
  "collected_messages dumps raw reasoning_format flatten_tool_images output =
     bind_res (function_call_ids output) (\<lambda>ids.
       bind_res (fold_res (convert_item dumps raw reasoning_format flatten_tool_images ids) output no_conversion) (\<lambda>s.
         bind_res (flush_tool_outputs reasoning_format flatten_tool_images s) (\<lambda>s.
           Inr (cv_messages (flush_pending reasoning_format (flush_tool_images s))))))"

definition convert_output_to_messages ::
    "(pyval \<Rightarrow> string result) \<Rightarrow> bool \<Rightarrow> string option \<Rightarrow> bool \<Rightarrow> pyval \<Rightarrow> pydict list result" where
  "convert_output_to_messages dumps raw reasoning_format flatten_tool_images output =
     (case output of
        VList items \<Rightarrow>
          if items = [] then Inr []
          else bind_res (collected_messages dumps raw reasoning_format flatten_tool_images items) reconcile_tool_pairs
      | _ \<Rightarrow> Inr [])"

section \<open>Every call has its result\<close>

definition calls_of :: "pydict list \<Rightarrow> pyval list" where
  \<comment> \<open>the identifiers of the calls of a conversation, in order\<close>
  "calls_of ms = map call_id (concat (map calls_in ms))"

definition answers_of :: "pydict list \<Rightarrow> pyval list" where
  "answers_of ms = map (\<lambda>m. vget m ''tool_call_id'') (filter (\<lambda>m. is_role m ''tool'') ms)"

definition selected_ids :: "string \<Rightarrow> pyval list \<Rightarrow> pyval list \<Rightarrow> pyval list" where
  \<comment> \<open>the identifiers, among \<open>ids\<close>, of the items of a type\<close>
  "selected_ids item_type ids items =
     filter (\<lambda>i. i \<in> set ids) (map (\<lambda>d. vget d ''call_id'') (filter (\<lambda>d. is_type d item_type) (dicts_of items)))"

definition state_calls :: "conversion \<Rightarrow> pyval list" where
  "state_calls s = calls_of (cv_messages s) @ map call_id (cv_calls s)"

definition state_answers :: "conversion \<Rightarrow> pyval list" where
  "state_answers s = answers_of (cv_messages s) @ map (\<lambda>d. vget_default d ''call_id'' (VStr [])) (cv_outputs s)"

definition well_built :: "conversion \<Rightarrow> bool" where
  "well_built s \<longleftrightarrow> list_all is_mapping (cv_calls s) \<and>
     list_all (\<lambda>m. list_all is_mapping (calls_in m) \<and> (\<exists>cs. tool_calls m = Inr cs)) (cv_messages s)"

lemma calls_of_simps [simp]:
  "calls_of [] = []" "calls_of (m # ms) = map call_id (calls_in m) @ calls_of ms" "calls_of (xs @ ys) = calls_of xs @ calls_of ys"
  by (simp_all add: calls_of_def)

lemma answers_of_simps [simp]:
  "answers_of [] = []" "answers_of (xs @ ys) = answers_of xs @ answers_of ys"
  "answers_of (m # ms) = (if is_role m ''tool'' then vget m ''tool_call_id'' # answers_of ms else answers_of ms)"
  by (simp_all add: answers_of_def)

lemma pending_message_facts:
  "calls_in (pending_message fmt s) = cv_calls s" "\<not> is_role (pending_message fmt s) ''tool''"
  "tool_calls (pending_message fmt s) = Inr (cv_calls s)"
  by (simp_all add: pending_message_def calls_in_def is_role_def tool_calls_def iterate_def)

lemma image_message_facts:
  "calls_in (image_message urls) = []" "\<not> is_role (image_message urls) ''tool''" "tool_calls (image_message urls) = Inr []"
  by (simp_all add: image_message_def calls_in_def is_role_def tool_calls_def)

lemma tool_message_facts:
  "calls_in (tool_message d content) = []" "is_role (tool_message d content) ''tool''"
  "vget (tool_message d content) ''tool_call_id'' = vget_default d ''call_id'' (VStr [])"
  "tool_calls (tool_message d content) = Inr []"
  by (simp_all add: tool_message_def calls_in_def is_role_def tool_calls_def)

lemmas built_facts = pending_message_facts image_message_facts tool_message_facts

lemma flush_pending_keeps [simp]:
  "state_calls (flush_pending fmt s) = state_calls s" "state_answers (flush_pending fmt s) = state_answers s"
  "well_built (flush_pending fmt s) = well_built s" "cv_outputs (flush_pending fmt s) = cv_outputs s"
  "cv_calls (flush_pending fmt s) = []"
  by (auto simp: flush_pending_def state_calls_def state_answers_def well_built_def built_facts)

lemma flush_tool_images_keeps [simp]:
  "state_calls (flush_tool_images s) = state_calls s" "state_answers (flush_tool_images s) = state_answers s"
  "well_built (flush_tool_images s) = well_built s" "cv_outputs (flush_tool_images s) = cv_outputs s"
  "cv_calls (flush_tool_images s) = cv_calls s"
  by (auto simp: flush_tool_images_def state_calls_def state_answers_def well_built_def built_facts)

text \<open>A tool result becomes one message with its identifier.\<close>

lemma flush_output_Inr:
  assumes "flush_output flat d s = Inr t"
  obtains content images where "t = s\<lparr>cv_messages := cv_messages s @ [tool_message d content], cv_images := images\<rparr>"
proof -
  obtain parts content urls where p: "iterate (vget_default d ''output'' (VList [])) = Inr parts"
      "read_output_parts parts = Inr (content, urls)"
    using assms by (auto simp: flush_output_def bind_res_Inr)
  show ?thesis
  proof (cases "flat \<or> urls = []")
    case True
    then have "t = s\<lparr>cv_messages := cv_messages s @ [tool_message d (VStr content)],
        cv_images := if flat then cv_images s @ urls else cv_images s\<rparr>"
      using assms p by (auto simp: flush_output_def)
    then show ?thesis by (rule that)
  next
    case False
    then have "\<exists>content. t = s\<lparr>cv_messages := cv_messages s @ [tool_message d content], cv_images := cv_images s\<rparr>"
      using assms p by (auto simp: flush_output_def)
    then show ?thesis using that by blast
  qed
qed

lemma flush_outputs_Inr:
  "fold_res (flush_output flat) ds s = Inr t \<Longrightarrow>
   \<exists>contents images. length contents = length ds \<and>
     t = s\<lparr>cv_messages := cv_messages s @ map2 tool_message ds contents, cv_images := images\<rparr>"
proof (induction ds arbitrary: s)
  case Nil
  then show ?case by (intro exI [of _ "[]"] exI [of _ "cv_images s"]) simp
next
  case (Cons d ds)
  then obtain u where u: "flush_output flat d s = Inr u" "fold_res (flush_output flat) ds u = Inr t"
    by (auto simp: bind_res_Inr)
  obtain content images where c: "u = s\<lparr>cv_messages := cv_messages s @ [tool_message d content], cv_images := images\<rparr>"
    using u(1) by (rule flush_output_Inr)
  obtain contents images' where "length contents = length ds"
      "t = u\<lparr>cv_messages := cv_messages u @ map2 tool_message ds contents, cv_images := images'\<rparr>"
    using Cons.IH [OF u(2)] by blast
  then show ?case by (intro exI [of _ "content # contents"] exI [of _ images']) (simp add: c)
qed

lemma tool_messages_facts:
  "length contents = length ds \<Longrightarrow>
   calls_of (map2 tool_message ds contents) = [] \<and>
   answers_of (map2 tool_message ds contents) = map (\<lambda>d. vget_default d ''call_id'' (VStr [])) ds \<and>
   list_all (\<lambda>m. calls_in m = [] \<and> tool_calls m = Inr []) (map2 tool_message ds contents)"
  by (induction contents ds rule: list_induct2) (simp_all add: built_facts)

lemma flush_tool_outputs_keeps:
  assumes "flush_tool_outputs fmt flat s = Inr t"
  shows "state_calls t = state_calls s" "state_answers t = state_answers s" "well_built s \<Longrightarrow> well_built t" "cv_outputs t = []"
proof -
  have "state_calls t = state_calls s \<and> state_answers t = state_answers s \<and> (well_built s \<longrightarrow> well_built t) \<and> cv_outputs t = []"
  proof (cases "cv_outputs s = []")
    case True
    then show ?thesis using assms by (simp add: flush_tool_outputs_def)
  next
    case False
    let ?p = "flush_pending fmt s"
    obtain u where u: "fold_res (flush_output flat) (cv_outputs s) ?p = Inr u" "t = u\<lparr>cv_outputs := []\<rparr>"
      using assms False by (auto simp: flush_tool_outputs_def bind_res_Inr)
    obtain contents images where c: "length contents = length (cv_outputs s)"
        "u = ?p\<lparr>cv_messages := cv_messages ?p @ map2 tool_message (cv_outputs s) contents, cv_images := images\<rparr>"
      using flush_outputs_Inr [OF u(1)] by blast
    note tools = tool_messages_facts [OF c(1)]
    have "state_calls t = state_calls ?p" "state_answers t = state_answers ?p" "well_built ?p \<longrightarrow> well_built t" "cv_outputs t = []"
      using tools by (auto simp: u(2) c(2) state_calls_def state_answers_def well_built_def list_all_iff)
    then show ?thesis by simp
  qed
  then show "state_calls t = state_calls s" "state_answers t = state_answers s" "well_built s \<Longrightarrow> well_built t" "cv_outputs t = []"
    by blast+
qed

text \<open>What an item adds: nothing, a call, or a result.\<close>

definition adds :: "bool \<Rightarrow> pyval list \<Rightarrow> pyval \<Rightarrow> conversion \<Rightarrow> conversion \<Rightarrow> bool" where
  "adds raw ids item s t \<longleftrightarrow>
     map call_id (cv_calls t) = map call_id (cv_calls s) @ selected_ids ''function_call'' ids [item] \<and>
     map (\<lambda>d. vget_default d ''call_id'' (VStr [])) (cv_outputs t) =
       map (\<lambda>d. vget_default d ''call_id'' (VStr [])) (cv_outputs s) @ selected_ids ''function_call_output'' ids [item] \<and>
     cv_messages t = cv_messages s \<and> set (cv_details t) \<subseteq> set (cv_details s) \<union> set (item_details raw (as_dict item)) \<and>
     (list_all is_mapping (cv_calls s) \<longrightarrow> list_all is_mapping (cv_calls t))"

lemma selected_ids_single:
  "selected_ids ty ids [VDict d] = (if is_type d ty \<and> vget d ''call_id'' \<in> set ids then [vget d ''call_id''] else [])"
  by (simp add: selected_ids_def)

lemma selected_ids_append [simp]:
  "selected_ids ty ids [] = []" "selected_ids ty ids (xs @ ys) = selected_ids ty ids xs @ selected_ids ty ids ys"
proof -
  have "dicts_of (xs @ ys) = dicts_of xs @ dicts_of ys" by (induction xs rule: dicts_of.induct) auto
  then show "selected_ids ty ids (xs @ ys) = selected_ids ty ids xs @ selected_ids ty ids ys"
    by (simp add: selected_ids_def)
qed (simp add: selected_ids_def)

lemma message_item_same:
  assumes "message_item d s = Inr t"
  shows "cv_calls t = cv_calls s \<and> cv_outputs t = cv_outputs s \<and> cv_messages t = cv_messages s \<and> cv_details t = cv_details s"
proof -
  obtain x where "t = (if x \<noteq> [] then s\<lparr>cv_texts := cv_texts s @ [x]\<rparr> else s)"
    using assms unfolding message_item_def bind_res_Inr by blast
  then show ?thesis by simp
qed

lemma reasoning_item_same:
  assumes "reasoning_item raw fmt d s = Inr t"
  shows "cv_calls t = cv_calls s \<and> cv_outputs t = cv_outputs s \<and> cv_messages t = cv_messages s \<and>
     set (cv_details t) \<subseteq> set (cv_details s) \<union> set (item_details raw d)"
proof -
  have "t = s \<or> (\<exists>x. t = (add_reasoning fmt d x s)\<lparr>cv_details := cv_details s @ item_details raw d\<rparr>)"
    using assms unfolding reasoning_item_def Let_def by (auto simp: bind_res_Inr split: if_split_asm)
  then show ?thesis by (elim disjE exE) (auto simp: add_reasoning_def)
qed

lemma code_item_same:
  "cv_calls (code_item d s) = cv_calls s" "cv_outputs (code_item d s) = cv_outputs s"
  "cv_messages (code_item d s) = cv_messages s" "cv_details (code_item d s) = cv_details s"
  by (simp_all add: code_item_def Let_def)

lemma item_adds:
  assumes "VNone \<notin> set ids"
  shows "call_item dumps ids d s = Inr t \<Longrightarrow> is_type d ''function_call'' \<Longrightarrow> adds raw ids (VDict d) s t"
    and "output_item ids d s = Inr t \<Longrightarrow> is_type d ''function_call_output'' \<Longrightarrow> adds raw ids (VDict d) s t"
    and "\<not> is_type d ''function_call'' \<Longrightarrow> \<not> is_type d ''function_call_output'' \<Longrightarrow>
      message_item d s = Inr t \<or> reasoning_item raw fmt d s = Inr t \<or> code_item d s = t \<or> s = t \<Longrightarrow> adds raw ids (VDict d) s t"
proof -
  have present: "vget_default d ''call_id'' (VStr []) = vget d ''call_id''" if "vget d ''call_id'' \<in> set ids"
    using that assms by (intro vget_default_present) auto
  show "adds raw ids (VDict d) s t" if "call_item dumps ids d s = Inr t" "is_type d ''function_call''"
    using that present
    by (auto simp: call_item_def adds_def bind_res_Inr in_set_Inr selected_ids_single call_id_def is_type_def split: if_splits)
  show "adds raw ids (VDict d) s t" if "output_item ids d s = Inr t" "is_type d ''function_call_output''"
    using that present
    by (auto simp: output_item_def adds_def bind_res_Inr in_set_Inr selected_ids_single is_type_def split: if_splits)
  show "adds raw ids (VDict d) s t" if "\<not> is_type d ''function_call''" "\<not> is_type d ''function_call_output''"
      "message_item d s = Inr t \<or> reasoning_item raw fmt d s = Inr t \<or> code_item d s = t \<or> s = t"
  proof -
    have "cv_calls t = cv_calls s \<and> cv_outputs t = cv_outputs s \<and> cv_messages t = cv_messages s \<and>
        set (cv_details t) \<subseteq> set (cv_details s) \<union> set (item_details raw d)"
      using that(3) by (elim disjE) (auto dest: message_item_same reasoning_item_same simp: code_item_same)
    then show ?thesis using that(1,2) by (simp add: adds_def selected_ids_single)
  qed
qed

definition tool_item :: "pydict \<Rightarrow> bool" where
  "tool_item d \<longleftrightarrow> is_type d ''function_call'' \<or> is_type d ''function_call_output''"

lemma default_type: "x \<noteq> [] \<Longrightarrow> vget_default d ''type'' (VStr []) = VStr x \<longleftrightarrow> is_type d x"
  by (simp add: is_type_def vget_def vget_default_def split: option.splits)

lemma convert_item_Inr:
  assumes "convert_item dumps raw fmt flat ids item s = Inr t" "VNone \<notin> set ids"
  obtains d u where "item = VDict d" "adds raw ids item u t"
    "tool_item d \<Longrightarrow> u = s" "\<not> tool_item d \<Longrightarrow> \<exists>v. flush_tool_outputs fmt flat s = Inr v \<and> u = flush_tool_images v"
proof -
  obtain d where d: "item = VDict d"
    using assms(1) by (auto simp: convert_item_def bind_res_Inr dict_or_raise_Inr)
  let ?t = "vget_default d ''type'' (VStr [])"
  have ty: "(?t = VStr ''function_call'') = is_type d ''function_call''"
      "(?t = VStr ''function_call_output'') = is_type d ''function_call_output''"
    by (rule default_type; simp)+
  obtain u where u: "(if tool_item d then Inr s
           else bind_res (flush_tool_outputs fmt flat s) (\<lambda>s. Inr (flush_tool_images s))) = Inr u"
      "(if ?t = VStr ''message'' then message_item d u
        else if ?t = VStr ''function_call'' then call_item dumps ids d u
        else if ?t = VStr ''function_call_output'' then output_item ids d u
        else if ?t = VStr ''reasoning'' then reasoning_item raw fmt d u
        else if ?t = VStr ''open_webui:code_interpreter'' then Inr (code_item d u)
        else (case ?t of VStr t \<Rightarrow> Inr u | _ \<Rightarrow> Inl (OtherError ''AttributeError''))) = Inr t"
    using assms(1)
    by (auto simp: convert_item_def d dict_or_raise_def Let_def bind_res_Inr in_set_Inr ty tool_item_def)
  note step = u(2) [unfolded ty]
  have message: "\<not> tool_item d" if "?t = VStr ''message''"
    using that ty by (auto simp: tool_item_def)
  have "adds raw ids (VDict d) u t"
  proof (cases "tool_item d")
    case True
    then have "?t \<noteq> VStr ''message''" using message by blast
    then show ?thesis
      using step True item_adds(1,2) [OF assms(2)] by (auto simp: tool_item_def split: if_splits)
  next
    case False
    then have nt: "\<not> is_type d ''function_call''" "\<not> is_type d ''function_call_output''" by (simp_all add: tool_item_def)
    have "message_item d u = Inr t \<or> reasoning_item raw fmt d u = Inr t \<or> code_item d u = t \<or> u = t"
      using step nt by (cases ?t) (auto split: if_splits)
    then show ?thesis by (rule item_adds(3) [OF assms(2) nt])
  qed
  then show ?thesis
    using that [OF d, of u] u(1) by (auto simp: d bind_res_Inr split: if_splits)
qed

lemma converted_prefix:
  assumes "VNone \<notin> set ids"
  shows "fold_res (convert_item dumps raw fmt flat ids) items s = Inr t \<Longrightarrow> well_built s \<Longrightarrow>
    state_calls t = state_calls s @ selected_ids ''function_call'' ids items \<and>
    state_answers t = state_answers s @ selected_ids ''function_call_output'' ids items \<and> well_built t"
proof (induction items arbitrary: s)
  case (Cons item items)
  obtain m where m: "convert_item dumps raw fmt flat ids item s = Inr m"
      "fold_res (convert_item dumps raw fmt flat ids) items m = Inr t"
    using Cons.prems(1) by (auto simp: bind_res_Inr)
  obtain d u where u: "adds raw ids item u m"
      "tool_item d \<Longrightarrow> u = s" "\<not> tool_item d \<Longrightarrow> \<exists>v. flush_tool_outputs fmt flat s = Inr v \<and> u = flush_tool_images v"
    using convert_item_Inr [OF m(1) assms] by metis
  have same: "state_calls u = state_calls s" "state_answers u = state_answers s" "well_built u"
    using u(2,3) Cons.prems(2) by (cases "tool_item d"; auto simp: flush_tool_outputs_keeps)+
  have "state_calls m = state_calls u @ selected_ids ''function_call'' ids [item]"
    "state_answers m = state_answers u @ selected_ids ''function_call_output'' ids [item]" "well_built m"
    using u(1) same(3) by (simp_all add: adds_def state_calls_def state_answers_def well_built_def)
  moreover have "selected_ids ty ids (item # items) = selected_ids ty ids [item] @ selected_ids ty ids items" for ty
    using selected_ids_append(2) [of ty ids "[item]" items] by simp
  ultimately show ?case using Cons.IH [OF m(2)] same(1,2) by simp
qed simp

lemma collected_messages_Inr:
  assumes "collected_messages dumps raw fmt flat items = Inr ms" "function_call_ids items = Inr ids" "VNone \<notin> set ids"
  shows "calls_of ms = selected_ids ''function_call'' ids items"
    and "answers_of ms = selected_ids ''function_call_output'' ids items"
    and "list_all (\<lambda>m. list_all is_mapping (calls_in m) \<and> (\<exists>cs. tool_calls m = Inr cs)) ms"
proof -
  obtain s t where s: "fold_res (convert_item dumps raw fmt flat ids) items no_conversion = Inr s"
      "flush_tool_outputs fmt flat s = Inr t" "ms = cv_messages (flush_pending fmt (flush_tool_images t))"
    using assms(1,2) by (auto simp: collected_messages_def bind_res_Inr)
  let ?e = "flush_pending fmt (flush_tool_images t)"
  have start: "state_calls no_conversion = []" "state_answers no_conversion = []" "well_built no_conversion"
    by (simp_all add: no_conversion_def state_calls_def state_answers_def well_built_def)
  note loop = converted_prefix [OF assms(3) s(1) start(3), unfolded start(1,2)]
  note last = flush_tool_outputs_keeps [OF s(2)]
  have "state_calls ?e = selected_ids ''function_call'' ids items" "state_answers ?e = selected_ids ''function_call_output'' ids items"
      "well_built ?e" "cv_calls ?e = []" "cv_outputs ?e = []"
    using loop last by auto
  then show "calls_of ms = selected_ids ''function_call'' ids items"
    "answers_of ms = selected_ids ''function_call_output'' ids items"
    "list_all (\<lambda>m. list_all is_mapping (calls_in m) \<and> (\<exists>cs. tool_calls m = Inr cs)) ms"
    by (simp_all add: s(3) state_calls_def state_answers_def well_built_def)
qed

text \<open>The identifiers the loop looks for belong to calls and to results.\<close>

lemma output_call_ids_Inr:
  "output_call_ids f items = Inr ids \<Longrightarrow>
   list_all hashable ids \<and> list_all is_mapping items \<and>
   set ids \<subseteq> {vget d ''call_id'' | d. d \<in> set (dicts_of items) \<and> f d = Inr True}"
proof (induction items arbitrary: ids)
  case (Cons item items)
  then obtain d yes new rest where r: "item = VDict d" "f d = Inr yes"
      "(if yes then add_to_set (vget d ''call_id'') [] else Inr []) = Inr new"
      "output_call_ids f items = Inr rest" "ids = new @ rest"
    by (auto simp: bind_res_Inr dict_or_raise_Inr)
  have "list_all hashable new \<and> set new \<subseteq> (if yes then {vget d ''call_id''} else {})"
    using r(3) by (cases yes) (auto simp: add_to_set_Inr)
  then show ?case using Cons.IH [OF r(4)] r(1,2,5) by (cases yes) auto
qed simp

lemma function_call_ids_Inr:
  assumes "function_call_ids items = Inr ids"
  shows "list_all hashable ids" "list_all truthy ids" "list_all is_mapping items"
    and "set ids \<subseteq> set (selected_ids ''function_call'' ids items)" "set ids \<subseteq> set (selected_ids ''function_call_output'' ids items)"
proof -
  obtain c r where c: "output_call_ids finished_call items = Inr c" "output_call_ids has_result items = Inr r"
      "ids = filter (\<lambda>i. i \<in> set r) c"
    using assms by (auto simp: function_call_ids_def bind_res_Inr)
  note C = output_call_ids_Inr [OF c(1)] and R = output_call_ids_Inr [OF c(2)]
  have fin: "is_type d ''function_call'' \<and> truthy (vget d ''call_id'')" if "finished_call d = Inr True" for d
    using that by (auto simp: finished_call_def split: if_splits)
  have res: "is_type d ''function_call_output'' \<and> truthy (vget d ''call_id'')" if "has_result d = Inr True" for d
    using that by (simp add: has_result_def)
  show "list_all hashable ids" "list_all is_mapping items" using C c(3) by (auto simp: list_all_iff)
  show "list_all truthy ids" using C c(3) fin by (auto simp: list_all_iff)
  show "set ids \<subseteq> set (selected_ids ''function_call'' ids items)"
    using C fin unfolding c(3) selected_ids_def by (auto simp: image_iff) blast
  show "set ids \<subseteq> set (selected_ids ''function_call_output'' ids items)"
    using R res unfolding c(3) selected_ids_def by (auto simp: image_iff) blast
qed

lemma collected_paired:
  assumes "collected_messages dumps raw fmt flat items = Inr ms" "function_call_ids items = Inr ids"
  shows "paired ms"
proof -
  note ids = function_call_ids_Inr [OF assms(2)]
  have "VNone \<notin> set ids" using ids(2) by (auto simp: list_all_iff)
  note col = collected_messages_Inr [OF assms this]
  have known: "set (selected_ids ty ids items) \<subseteq> set ids" for ty by (auto simp: selected_ids_def)
  have "set (calls_of ms) = set ids" "set (answers_of ms) = set ids"
    using known ids(4,5) unfolding col(1,2) by blast+
  moreover have "filter truthy (calls_of ms) = calls_of ms" "filter truthy (answers_of ms) = answers_of ms"
    using ids(2) calculation by (auto simp: filter_id_conv list_all_iff)
  moreover have "request_ids ms = filter truthy (calls_of ms)" "result_ids ms = filter truthy (answers_of ms)"
    by (simp_all add: request_ids_def calls_of_def result_ids_def answers_of_def filter_map comp_def conj_commute)
  ultimately have sets: "set (request_ids ms) = set ids" "set (result_ids ms) = set ids" by simp_all
  have "call_id c \<in> set ids" if "m \<in> set ms" "c \<in> set (calls_in m)" for m c
    using that \<open>set (calls_of ms) = set ids\<close> by (auto simp: calls_of_def)
  moreover have "vget m ''tool_call_id'' \<in> set ids" if "m \<in> set ms" "is_role m ''tool''" for m
    using that \<open>set (answers_of ms) = set ids\<close> by (auto simp: answers_of_def)
  ultimately show ?thesis
    using col(3) ids(1) by (auto simp: paired_def list_all_iff sets)
qed

text \<open>The messages rebuilt from the stored output of an assistant are in pairs already when the
  last line of the conversion brings them into pairs, which changes nothing; their calls and their
  results are, in the stored order, the calls that ended and have a result and the results of such calls.\<close>

theorem converted_output_paired:
  assumes "convert_output_to_messages dumps raw reasoning_format flatten (VList items) = Inr ms" "items \<noteq> []"
  shows "\<exists>ids. function_call_ids items = Inr ids \<and> collected_messages dumps raw reasoning_format flatten items = Inr ms \<and>
           paired ms \<and> calls_of ms = selected_ids ''function_call'' ids items \<and>
           answers_of ms = selected_ids ''function_call_output'' ids items"
proof -
  obtain collected where c: "collected_messages dumps raw reasoning_format flatten items = Inr collected"
      "reconcile_tool_pairs collected = Inr ms"
    using assms by (auto simp: convert_output_to_messages_def bind_res_Inr)
  obtain ids where i: "function_call_ids items = Inr ids"
    using c(1) by (auto simp: collected_messages_def bind_res_Inr)
  have p: "paired collected" by (rule collected_paired [OF c(1) i])
  then have "ms = collected" using reconcile.paired_unchanged [OF p] c(2) by simp
  moreover have "VNone \<notin> set ids" using function_call_ids_Inr(2) [OF i] by (auto simp: list_all_iff)
  ultimately show ?thesis using collected_messages_Inr(1,2) [OF c(1) i] c(1) i p by blast
qed

definition stored_answer :: "pyval list" where
  \<comment> \<open>two calls, of which one was interrupted, a result, and a text\<close>
  "stored_answer =
     [VDict [(''type'', VStr ''function_call''), (''call_id'', VStr ''a''), (''name'', VStr ''search''), (''status'', VStr ''completed'')],
      VDict [(''type'', VStr ''function_call''), (''call_id'', VStr ''b''), (''name'', VStr ''search''), (''status'', VStr ''in_progress'')],
      VDict [(''type'', VStr ''function_call_output''), (''call_id'', VStr ''a''),
             (''output'', VList [VDict [(''type'', VStr ''input_text''), (''text'', VStr ''3 hits'')]])],
      VDict [(''type'', VStr ''message''), (''content'', VList [VDict [(''type'', VStr ''output_text''), (''text'', VStr ''Done'')]])]]"

definition rebuilt_answer :: "pydict list" where
  "rebuilt_answer =
     [[(''role'', VStr ''assistant''), (''content'', VStr []),
       (''tool_calls'', VList [VDict [(''id'', VStr ''a''), (''type'', VStr ''function''),
          (''function'', VDict [(''name'', VStr ''search''), (''arguments'', VStr ''{}'')])]])],
      [(''role'', VStr ''tool''), (''tool_call_id'', VStr ''a''), (''content'', VStr ''3 hits'')],
      [(''role'', VStr ''assistant''), (''content'', VStr ''Done'')]]"

definition no_encoder :: "pyval \<Rightarrow> string result" where
  "no_encoder v = Inl (TypeError [])"

lemma stored_answer_rebuilt:
  "convert_output_to_messages no_encoder False None False (VList stored_answer) = Inr rebuilt_answer"
  by code_simp

lemma converted_output_paired_witness:
  "paired rebuilt_answer \<and> calls_of rebuilt_answer = [VStr ''a'']"
proof -
  have "function_call_ids stored_answer = Inr [VStr ''a'']" by code_simp
  moreover have "selected_ids ''function_call'' [VStr ''a''] stored_answer = [VStr ''a'']" by code_simp
  moreover have "stored_answer \<noteq> []" by (simp add: stored_answer_def)
  ultimately show ?thesis using converted_output_paired [OF stored_answer_rebuilt] by auto
qed

section \<open>Results directly behind their calls\<close>

text \<open>
  What a provider checks from left to right: after a message with calls come the results of exactly these
  calls, in any order, before any other message. \<open>None\<close> is a conversation that is refused.
\<close>

primrec unanswered :: "pyval list \<Rightarrow> pydict list \<Rightarrow> pyval list option" where
  "unanswered waiting [] = Some waiting"
| "unanswered waiting (m # ms) =
     (if is_role m ''tool''
      then if vget m ''tool_call_id'' \<in> set waiting then unanswered (remove1 (vget m ''tool_call_id'') waiting) ms else None
      else if waiting = [] then unanswered (map call_id (calls_in m)) ms else None)"

lemma unanswered_append:
  "unanswered waiting (xs @ ys) = (case unanswered waiting xs of None \<Rightarrow> None | Some w \<Rightarrow> unanswered w ys)"
  by (induction xs arbitrary: waiting) auto

lemma unanswered_tools:
  assumes "length contents = length ds" "mset waiting = mset (map (\<lambda>d. vget_default d ''call_id'' (VStr [])) ds)"
  shows "unanswered waiting (map2 tool_message ds contents) = Some []"
  using assms
proof (induction contents ds arbitrary: waiting rule: list_induct2)
  case (Cons content contents d ds)
  let ?i = "vget_default d ''call_id'' (VStr [])"
  have "?i \<in># mset waiting" by (simp add: Cons.prems)
  moreover have "mset (remove1 ?i waiting) = mset (map (\<lambda>d. vget_default d ''call_id'' (VStr [])) ds)"
    by (simp add: Cons.prems)
  ultimately show ?case using Cons.IH by (simp add: tool_message_facts)
qed simp

text \<open>The stored items come in rounds: when something else follows results, all open calls have theirs.\<close>

fun rounds :: "pyval list \<Rightarrow> pyval list \<Rightarrow> pyval list \<Rightarrow> pyval list \<Rightarrow> bool" where
  "rounds ids calls answers [] = (mset calls = mset answers)"
| "rounds ids calls answers (item # items) =
     (if tool_item (as_dict item)
      then rounds ids (calls @ selected_ids ''function_call'' ids [item]) (answers @ selected_ids ''function_call_output'' ids [item]) items
      else if answers = [] then rounds ids calls [] items
      else mset calls = mset answers \<and> rounds ids [] [] items)"

definition waiting_calls :: "conversion \<Rightarrow> pyval list" where
  "waiting_calls s = map call_id (cv_calls s)"

definition waiting_answers :: "conversion \<Rightarrow> pyval list" where
  "waiting_answers s = map (\<lambda>d. vget_default d ''call_id'' (VStr [])) (cv_outputs s)"

lemma unanswered_pending:
  "unanswered [] (cv_messages s) = Some [] \<Longrightarrow> unanswered [] (cv_messages (flush_pending fmt s)) = Some (waiting_calls s)"
  by (auto simp: flush_pending_def unanswered_append waiting_calls_def pending_message_facts)

lemma unanswered_images:
  "unanswered [] (cv_messages s) = Some [] \<Longrightarrow> unanswered [] (cv_messages (flush_tool_images s)) = Some []"
  by (auto simp: flush_tool_images_def unanswered_append image_message_facts)

lemma unanswered_outputs:
  assumes "flush_tool_outputs fmt flat s = Inr t" "unanswered [] (cv_messages s) = Some []"
    and "waiting_answers s \<noteq> [] \<Longrightarrow> mset (waiting_calls s) = mset (waiting_answers s)"
  shows "unanswered [] (cv_messages t) = Some []" "waiting_answers t = []"
    and "waiting_calls t = (if waiting_answers s = [] then waiting_calls s else [])"
proof -
  have "unanswered [] (cv_messages t) = Some [] \<and> waiting_answers t = [] \<and>
      waiting_calls t = (if waiting_answers s = [] then waiting_calls s else [])"
  proof (cases "cv_outputs s = []")
    case True
    then show ?thesis using assms(1,2) by (simp add: flush_tool_outputs_def waiting_answers_def)
  next
    case False
    let ?p = "flush_pending fmt s"
    obtain u where u: "fold_res (flush_output flat) (cv_outputs s) ?p = Inr u" "t = u\<lparr>cv_outputs := []\<rparr>"
      using assms(1) False by (auto simp: flush_tool_outputs_def bind_res_Inr)
    obtain contents images where c: "length contents = length (cv_outputs s)"
        "u = ?p\<lparr>cv_messages := cv_messages ?p @ map2 tool_message (cv_outputs s) contents, cv_images := images\<rparr>"
      using flush_outputs_Inr [OF u(1)] by blast
    have "mset (waiting_calls s) = mset (waiting_answers s)" using assms(3) False by (simp add: waiting_answers_def)
    then have "unanswered [] (cv_messages t) = Some []"
      using unanswered_pending [OF assms(2), of fmt] unanswered_tools [OF c(1), of "waiting_calls s"]
      by (simp add: u(2) c(2) unanswered_append waiting_answers_def)
    then show ?thesis using False by (simp add: u(2) c(2) waiting_answers_def waiting_calls_def)
  qed
  then show "unanswered [] (cv_messages t) = Some []" "waiting_answers t = []"
    "waiting_calls t = (if waiting_answers s = [] then waiting_calls s else [])" by blast+
qed

lemma rounds_loop:
  assumes "VNone \<notin> set ids"
  shows "fold_res (convert_item dumps raw fmt flat ids) items s = Inr t \<Longrightarrow>
    rounds ids (waiting_calls s) (waiting_answers s) items \<Longrightarrow> unanswered [] (cv_messages s) = Some [] \<Longrightarrow>
    unanswered [] (cv_messages t) = Some [] \<and> mset (waiting_calls t) = mset (waiting_answers t)"
proof (induction items arbitrary: s)
  case (Cons item items)
  obtain m where m: "convert_item dumps raw fmt flat ids item s = Inr m"
      "fold_res (convert_item dumps raw fmt flat ids) items m = Inr t"
    using Cons.prems(1) by (auto simp: bind_res_Inr)
  obtain d u where u: "item = VDict d" "adds raw ids item u m"
      "tool_item d \<Longrightarrow> u = s" "\<not> tool_item d \<Longrightarrow> \<exists>v. flush_tool_outputs fmt flat s = Inr v \<and> u = flush_tool_images v"
    using convert_item_Inr [OF m(1) assms] by metis
  have add: "waiting_calls m = waiting_calls u @ selected_ids ''function_call'' ids [item]"
      "waiting_answers m = waiting_answers u @ selected_ids ''function_call_output'' ids [item]" "cv_messages m = cv_messages u"
    using u(2) by (simp_all add: adds_def waiting_calls_def waiting_answers_def)
  have "unanswered [] (cv_messages u) = Some [] \<and> rounds ids (waiting_calls m) (waiting_answers m) items"
  proof (cases "tool_item d")
    case True
    then show ?thesis using Cons.prems(2,3) u(1,3) add by simp
  next
    case False
    obtain v where v: "flush_tool_outputs fmt flat s = Inr v" "u = flush_tool_images v" using u(4) [OF False] by blast
    have "waiting_answers s \<noteq> [] \<Longrightarrow> mset (waiting_calls s) = mset (waiting_answers s)"
      using Cons.prems(2) False by (simp add: u(1))
    note flushed = unanswered_outputs [OF v(1) Cons.prems(3) this]
    have none: "selected_ids ''function_call'' ids [item] = []" "selected_ids ''function_call_output'' ids [item] = []"
      using False by (simp_all add: u(1) selected_ids_single tool_item_def)
    have "waiting_calls u = waiting_calls v" "waiting_answers u = waiting_answers v"
      by (simp_all add: v(2) waiting_calls_def waiting_answers_def)
    then have "rounds ids (waiting_calls m) (waiting_answers m) items"
      using Cons.prems(2) False flushed(2,3) none by (simp add: u(1) add split: if_splits)
    then show ?thesis using unanswered_images [OF flushed(1)] by (simp add: v(2))
  qed
  then show ?case using Cons.IH [OF m(2)] add(3) by simp
qed simp

text \<open>C37 (functional): when the stored items come in rounds, calls first and their results before anything else,
  every message with calls is followed by the results of exactly these calls, as strict providers
  demand, whatever texts, reasoning, code and images are stored with them.\<close>

theorem results_follow_calls:
  assumes "convert_output_to_messages dumps raw reasoning_format flatten (VList items) = Inr ms"
    and "function_call_ids items = Inr ids" "rounds ids [] [] items"
  shows "unanswered [] ms = Some []"
proof (cases "items = []")
  case True
  then show ?thesis using assms(1) by (simp add: convert_output_to_messages_def)
next
  case False
  have none: "VNone \<notin> set ids" using function_call_ids_Inr(2) [OF assms(2)] by (auto simp: list_all_iff)
  obtain c where c: "collected_messages dumps raw reasoning_format flatten items = Inr c" "reconcile_tool_pairs c = Inr ms"
    using assms(1) False by (auto simp: convert_output_to_messages_def bind_res_Inr)
  have ms: "ms = c" using reconcile.paired_unchanged [OF collected_paired [OF c(1) assms(2)]] c(2) by simp
  obtain s t where s: "fold_res (convert_item dumps raw reasoning_format flatten ids) items no_conversion = Inr s"
      "flush_tool_outputs reasoning_format flatten s = Inr t"
      "ms = cv_messages (flush_pending reasoning_format (flush_tool_images t))"
    using c(1) assms(2) by (auto simp: ms collected_messages_def bind_res_Inr)
  have "unanswered [] (cv_messages s) = Some [] \<and> mset (waiting_calls s) = mset (waiting_answers s)"
    by (rule rounds_loop [OF none s(1)]) (use assms(3) in \<open>simp_all add: no_conversion_def waiting_calls_def waiting_answers_def\<close>)
  note loop = this [THEN conjunct1] this [THEN conjunct2]
  note flushed = unanswered_outputs [OF s(2) loop(1) loop(2)]
  have "waiting_calls (flush_tool_images t) = []"
    using flushed(3) loop(2) by (simp add: waiting_calls_def split: if_splits)
  then show ?thesis
    using unanswered_pending [OF unanswered_images [OF flushed(1)], of reasoning_format] by (simp add: s(3))
qed

lemma results_follow_calls_witness: "unanswered [] rebuilt_answer = Some []"
proof -
  have "function_call_ids stored_answer = Inr [VStr ''a'']" by code_simp
  moreover have "rounds [VStr ''a''] [] [] stored_answer" by code_simp
  ultimately show ?thesis using results_follow_calls [OF stored_answer_rebuilt] by blast
qed

text \<open>
  The rounds are needed: a text stored between the results of two calls of one message ends up between them
  in the conversation as well.
\<close>

definition torn_round :: "pyval list" where
  "torn_round =
     [VDict [(''type'', VStr ''function_call''), (''call_id'', VStr ''a''), (''status'', VStr ''completed'')],
      VDict [(''type'', VStr ''function_call''), (''call_id'', VStr ''b''), (''status'', VStr ''completed'')],
      VDict [(''type'', VStr ''function_call_output''), (''call_id'', VStr ''a'')],
      VDict [(''type'', VStr ''message''), (''content'', VList [VDict [(''type'', VStr ''output_text''), (''text'', VStr ''Next'')]])],
      VDict [(''type'', VStr ''function_call_output''), (''call_id'', VStr ''b'')]]"

theorem torn_round_refused:
  "map_sum id (unanswered []) (convert_output_to_messages no_encoder False None False (VList torn_round)) = Inr None"
  by code_simp

section \<open>What a rebuilt message holds\<close>

definition built_fields :: "string list" where
  "built_fields = [''role'', ''content'', ''tool_calls'', ''thinking'', ''reasoning_content'', ''reasoning_details'', ''tool_call_id'']"

definition details_of :: "pydict \<Rightarrow> pyval set" where
  "details_of m = set (case vget m ''reasoning_details'' of VList xs \<Rightarrow> xs | VNone \<Rightarrow> [] | v \<Rightarrow> [v])"

definition built_from :: "pyval set \<Rightarrow> pydict \<Rightarrow> bool" where
  "built_from D m \<longleftrightarrow> list_all (\<lambda>p. fst p \<in> set built_fields) m \<and> details_of m \<subseteq> D"

definition stored_details :: "bool \<Rightarrow> pyval list \<Rightarrow> pyval set" where
  \<comment> \<open>the reasoning details in stored items\<close>
  "stored_details raw items = \<Union> (set (map (\<lambda>i. set (item_details raw (as_dict i))) items))"

lemma built_from_messages:
  "set (cv_details s) \<subseteq> D \<Longrightarrow> built_from D (pending_message fmt s)" "built_from D (image_message urls)"
  "built_from D (tool_message d content)"
  by (auto simp: built_from_def pending_message_def image_message_def tool_message_def built_fields_def details_of_def)

definition built_state :: "pyval set \<Rightarrow> conversion \<Rightarrow> bool" where
  "built_state D s \<longleftrightarrow> list_all (built_from D) (cv_messages s) \<and> set (cv_details s) \<subseteq> D"

lemma built_flush:
  "built_state D s \<Longrightarrow> built_state D (flush_pending fmt s)" "built_state D s \<Longrightarrow> built_state D (flush_tool_images s)"
  by (auto simp: built_state_def flush_pending_def flush_tool_images_def built_from_messages)

lemma built_outputs:
  assumes "flush_tool_outputs fmt flat s = Inr t" "built_state D s"
  shows "built_state D t"
proof (cases "cv_outputs s = []")
  case True
  then show ?thesis using assms by (simp add: flush_tool_outputs_def)
next
  case False
  let ?p = "flush_pending fmt s"
  obtain u where u: "fold_res (flush_output flat) (cv_outputs s) ?p = Inr u" "t = u\<lparr>cv_outputs := []\<rparr>"
    using assms(1) False by (auto simp: flush_tool_outputs_def bind_res_Inr)
  obtain contents images where c: "length contents = length (cv_outputs s)"
      "u = ?p\<lparr>cv_messages := cv_messages ?p @ map2 tool_message (cv_outputs s) contents, cv_images := images\<rparr>"
    using flush_outputs_Inr [OF u(1)] by blast
  have "list_all (built_from D) (map2 tool_message ds contents)" for ds
    by (auto simp: list_all_iff built_from_messages)
  then show ?thesis using built_flush(1) [OF assms(2), of fmt] by (simp add: u(2) c(2) built_state_def)
qed

lemma built_loop:
  assumes "VNone \<notin> set ids"
  shows "fold_res (convert_item dumps raw fmt flat ids) items s = Inr t \<Longrightarrow> stored_details raw items \<subseteq> D \<Longrightarrow>
    built_state D s \<Longrightarrow> built_state D t"
proof (induction items arbitrary: s)
  case (Cons item items)
  obtain m where m: "convert_item dumps raw fmt flat ids item s = Inr m"
      "fold_res (convert_item dumps raw fmt flat ids) items m = Inr t"
    using Cons.prems(1) by (auto simp: bind_res_Inr)
  obtain d u where u: "adds raw ids item u m"
      "tool_item d \<Longrightarrow> u = s" "\<not> tool_item d \<Longrightarrow> \<exists>v. flush_tool_outputs fmt flat s = Inr v \<and> u = flush_tool_images v"
    using convert_item_Inr [OF m(1) assms] by metis
  have "built_state D u"
    using u(2,3) Cons.prems(3) built_outputs built_flush(2) by (cases "tool_item d") blast+
  moreover have "set (item_details raw (as_dict item)) \<subseteq> D" "stored_details raw items \<subseteq> D"
    using Cons.prems(2) by (simp_all add: stored_details_def)
  ultimately have "built_state D m" using u(1) by (auto simp: built_state_def adds_def)
  then show ?case using Cons.IH [OF m(2)] \<open>stored_details raw items \<subseteq> D\<close> by blast
qed simp

lemma converted_built:
  assumes "convert_output_to_messages dumps raw fmt flat (VList items) = Inr ms"
  shows "list_all (built_from (stored_details raw items)) ms"
proof (cases "items = []")
  case True
  then show ?thesis using assms by (simp add: convert_output_to_messages_def)
next
  case False
  obtain c ids where c: "collected_messages dumps raw fmt flat items = Inr c" "reconcile_tool_pairs c = Inr ms"
      "function_call_ids items = Inr ids"
    using assms False by (auto simp: convert_output_to_messages_def collected_messages_def bind_res_Inr)
  have ms: "ms = c" using reconcile.paired_unchanged [OF collected_paired [OF c(1,3)]] c(2) by simp
  have none: "VNone \<notin> set ids" using function_call_ids_Inr(2) [OF c(3)] by (auto simp: list_all_iff)
  obtain s t where s: "fold_res (convert_item dumps raw fmt flat ids) items no_conversion = Inr s"
      "flush_tool_outputs fmt flat s = Inr t" "ms = cv_messages (flush_pending fmt (flush_tool_images t))"
    using c(1,3) by (auto simp: ms collected_messages_def bind_res_Inr)
  have "built_state (stored_details raw items) s"
    by (rule built_loop [OF none s(1)]) (simp_all add: built_state_def no_conversion_def)
  then have "built_state (stored_details raw items) (flush_pending fmt (flush_tool_images t))"
    using built_outputs [OF s(2)] built_flush by blast
  then show ?thesis by (simp add: built_state_def s(3))
qed

end
