(* ===== verification/ChatReplay.thy ===== *)
theory ChatReplay
  imports ChatOutput "HOL-Library.Sublist"
begin

text \<open>
  The conversation of a stored chat on its way to a model (\<open>process_chat_payload\<close> of \<open>utils/middleware.py\<close>):
  the chain of messages is loaded, images are put into the contents, stored answers are rebuilt as
  messages, reasoning of other models is left out, and calls and results are brought into pairs. The rows of
  the database are arguments.
\<close>

section \<open>Loading the stored messages\<close>

definition is_saved_chat_id :: "string \<Rightarrow> bool" where
  "is_saved_chat_id chat_id \<longleftrightarrow>
     chat_id \<noteq> [] \<and> \<not> list_ex (\<lambda>p. startswith chat_id p) [''temporary:'', ''local:'', ''channel:'']"

definition message_replay_keys :: "string list" where
  "message_replay_keys = [''id'', ''role'', ''content'', ''output'', ''files'', ''contextSummary'', ''usage'', ''model'']"

definition replay_fields :: "pydict \<Rightarrow> pydict" where
  "replay_fields m = filter (\<lambda>(k, v). k \<in> set message_replay_keys) m"

definition load_messages_from_db :: "(string \<times> pyval) list option \<Rightarrow> pyval \<Rightarrow> pydict list option result" where
  \<comment> \<open>from the messages of the chat, if it exists\<close>
  "load_messages_from_db messages_map message_id =
     (case messages_map of
        None \<Rightarrow> Inr None
      | Some messages \<Rightarrow>
          if messages = [] then Inr None
          else bind_res (get_message_list messages message_id) (\<lambda>ms.
            Inr (if ms = [] then None else Some (map replay_fields ms))))"

definition continued_message :: "pydict option \<Rightarrow> pydict list" where
  \<comment> \<open>the answer that is continued, if one is named and stored\<close>
  "continued_message assistant_message =
     (case assistant_message of
        Some a \<Rightarrow> if truthy (vget a ''content'') \<or> truthy (vget a ''output'') then [replay_fields a] else []
      | None \<Rightarrow> [])"

fun get_system_message :: "pydict list \<Rightarrow> pydict option result" where
  "get_system_message [] = Inr None"
| "get_system_message (m # ms) =
     (case map_of m ''role'' of
        None \<Rightarrow> Inl (OtherError ''KeyError'')
      | Some role \<Rightarrow> if role = VStr ''system'' then Inr (Some m) else get_system_message ms)"

definition is_image_file :: "pydict \<Rightarrow> bool result" where
  "is_image_file f =
     (if is_type f ''image'' then Inr True
      else case py_or (vget f ''content_type'') (VStr []) of
             VStr t \<Rightarrow> Inr (startswith t ''image/'')
           | _ \<Rightarrow> Inl (OtherError ''AttributeError''))"

fun image_files :: "pyval list \<Rightarrow> pydict list result" where
  "image_files [] = Inr []"
| "image_files (v # vs) =
     bind_res (dict_or_raise v) (\<lambda>f. bind_res (is_image_file f) (\<lambda>yes.
       bind_res (image_files vs) (\<lambda>fs. Inr (if yes then f # fs else fs))))"

definition with_images :: "pydict list \<Rightarrow> pydict \<Rightarrow> pydict" where
  "with_images images m =
     (if is_role m ''user'' \<and> images \<noteq> []
      then (case vget_default m ''content'' (VStr []) of
              VStr t \<Rightarrow> dict_set ''content'' (VList
                (VDict [(''type'', VStr ''text''), (''text'', VStr t)]
                 # map (\<lambda>f. VDict [(''type'', VStr ''image_url''), (''image_url'', VDict [(''url'', vget f ''url'')])])
                     (filter (\<lambda>f. truthy (vget f ''url'')) images))) m
            | _ \<Rightarrow> m)
      else m)"

definition inject_images :: "pydict \<Rightarrow> pydict result" where
  \<comment> \<open>one message of the loop; the field \<open>files\<close> is removed\<close>
  "inject_images m =
     bind_res (iterate (vget_default m ''files'' (VList []))) (\<lambda>files.
       bind_res (image_files files) (\<lambda>images.
         Inr (filter (\<lambda>(k, v). k \<noteq> ''files'') (with_images images m))))"

definition stored_conversation ::
    "string \<Rightarrow> pyval \<Rightarrow> (string \<times> pyval) list option \<Rightarrow> pydict option \<Rightarrow> pydict list \<Rightarrow> pydict list result" where
  \<comment> \<open>the messages of the request, replaced by the stored ones of a saved chat\<close>
  "stored_conversation chat_id user_message_id messages_map assistant_message messages =
     (if \<not> is_saved_chat_id chat_id \<or> \<not> truthy user_message_id then Inr messages
      else bind_res (load_messages_from_db messages_map user_message_id) (\<lambda>loaded.
        case loaded of
          None \<Rightarrow> Inr messages
        | Some db_messages \<Rightarrow> bind_res (get_system_message messages) (\<lambda>system.
            map_res inject_images (case_option [] (\<lambda>m. [m]) system @ db_messages @ continued_message assistant_message))))"

section \<open>Rebuilding the conversation\<close>

definition get_reasoning_format :: "pydict \<Rightarrow> string option" where
  "get_reasoning_format model =
     (if vget model ''owned_by'' = VStr ''ollama'' then Some ''thinking''
      else if vget_default model ''provider'' (VStr []) = VStr ''llama.cpp'' then Some ''reasoning_content''
      else None)"

definition strip_reasoning_details :: "pyval list \<Rightarrow> pyval list" where
  "strip_reasoning_details output =
     map (\<lambda>item. case item of VDict d \<Rightarrow> VDict (filter (\<lambda>(k, v). k \<noteq> ''reasoning_details'') d) | _ \<Rightarrow> item) output"

definition strip_foreign :: "pydict \<Rightarrow> pydict \<Rightarrow> pydict result" where
  \<comment> \<open>without the reasoning details of another model; \<open>model['id']\<close> may be missing\<close>
  "strip_foreign model m =
     (if is_role m ''assistant''
      then (case map_of model ''id'' of
              None \<Rightarrow> Inl (OtherError ''KeyError'')
            | Some i \<Rightarrow> (case vget m ''output'' of
                VList items \<Rightarrow>
                  Inr (if vget m ''model'' \<noteq> i then dict_set ''output'' (VList (strip_reasoning_details items)) m else m)
              | _ \<Rightarrow> Inr m))
      else Inr m)"

definition dropped_keys :: "string list" where
  "dropped_keys = [''id'', ''files'', ''output'', ''model'', ''contextSummary'', ''context_summary'', ''usage'']"

definition clean_message :: "pydict \<Rightarrow> pydict" where
  "clean_message m = filter (\<lambda>(k, v). k \<notin> set dropped_keys) m"

definition process_message :: "(pyval \<Rightarrow> string result) \<Rightarrow> string option \<Rightarrow> pydict \<Rightarrow> pydict list result" where
  "process_message dumps reasoning_format m =
     (if is_role m ''assistant'' \<and> truthy (vget m ''output'')
      then bind_res (convert_output_to_messages dumps True reasoning_format True (vget m ''output'')) (\<lambda>ms.
        Inr (if ms \<noteq> [] then ms else [clean_message m]))
      else Inr [clean_message m])"

definition process_messages_with_output :: "(pyval \<Rightarrow> string result) \<Rightarrow> string option \<Rightarrow> pydict list \<Rightarrow> pydict list result" where
  "process_messages_with_output dumps reasoning_format messages =
     map_sum id concat (map_res (process_message dumps reasoning_format) messages)"

definition replay_messages :: "(pyval \<Rightarrow> string result) \<Rightarrow> pydict \<Rightarrow> pydict list \<Rightarrow> pydict list result" where
  "replay_messages dumps model messages =
     bind_res (map_res (strip_foreign model) messages) (\<lambda>ms.
       bind_res (process_messages_with_output dumps (get_reasoning_format model) ms) sanitize_tool_pairs)"

section \<open>What reaches the model\<close>

definition own_details :: "pydict \<Rightarrow> pydict list \<Rightarrow> pyval set" where
  \<comment> \<open>the reasoning details stored with answers of the model\<close>
  "own_details model messages =
     \<Union> (set (map (\<lambda>m. if is_role m ''assistant'' \<and> map_of model ''id'' = Some (vget m ''model'')
                       then stored_details True (py_iter (vget m ''output'')) else {}) messages))"

definition plain_message :: "pydict \<Rightarrow> bool" where
  "plain_message m \<longleftrightarrow> \<not> is_role m ''assistant'' \<and> \<not> is_role m ''tool''"

text \<open>Messages as they are loaded: without reasoning details of their own.\<close>

definition loaded_message :: "pydict \<Rightarrow> bool" where
  "loaded_message m \<longleftrightarrow> map_of m ''reasoning_details'' = None"

lemma clean_message_facts:
  "list_all (\<lambda>k. map_of (clean_message m) k = None) dropped_keys" "is_role (clean_message m) r = is_role m r"
  "map_of (clean_message m) ''reasoning_details'' = map_of m ''reasoning_details''"
  by (simp_all add: clean_message_def map_of_filter_keys list_all_iff dropped_keys_def is_role_def vget_def)

lemma built_without_dropped:
  assumes "built_from D m"
  shows "list_all (\<lambda>k. map_of m k = None) dropped_keys"
proof -
  have "map_of m k = None" if "k \<notin> set built_fields" for k
    using assms that by (auto simp: built_from_def list_all_iff map_of_eq_None_iff)
  then show ?thesis by (simp add: dropped_keys_def built_fields_def)
qed

lemma stripped_details: "stored_details raw (strip_reasoning_details items) = {}"
proof -
  have "item_details raw (as_dict (case i of VDict d \<Rightarrow> VDict (filter (\<lambda>(k, v). k \<noteq> ''reasoning_details'') d) | _ \<Rightarrow> i)) = []" for i
    by (cases i) (auto simp: item_details_def vget_drop Let_def)
  then show ?thesis by (simp add: stored_details_def strip_reasoning_details_def)
qed

lemma no_details: "(\<And>items. v \<noteq> VList items) \<Longrightarrow> stored_details raw (py_iter v) = {}"
  by (cases v) (auto simp: stored_details_def item_details_def)

text \<open>What becomes of one message: nothing the model must not see.\<close>

lemma processed_message:
  assumes "process_message dumps fmt m = Inr out" "x \<in> set out" "loaded_message m"
  shows "list_all (\<lambda>k. map_of x k = None) dropped_keys"
    and "details_of x \<subseteq> (if is_role m ''assistant'' then stored_details True (py_iter (vget m ''output'')) else {})"
proof -
  have "is_role m ''assistant'' \<and>
        (\<exists>items. vget m ''output'' = VList items \<and> convert_output_to_messages dumps True fmt True (VList items) = Inr out) \<or>
      out = [clean_message m]"
    using assms(1)
    by (cases "vget m ''output''") (auto simp: process_message_def convert_output_to_messages_def bind_res_Inr split: if_splits)
  then have "is_role m ''assistant'' \<and> built_from (stored_details True (py_iter (vget m ''output''))) x \<or> x = clean_message m"
    using converted_built assms(2) by (fastforce simp: list_all_iff)
  then show "list_all (\<lambda>k. map_of x k = None) dropped_keys"
    "details_of x \<subseteq> (if is_role m ''assistant'' then stored_details True (py_iter (vget m ''output'')) else {})"
    using built_without_dropped clean_message_facts assms(3)
    by (auto simp: built_from_def loaded_message_def details_of_def vget_def)
qed

lemma plain_processed: "plain_message m \<Longrightarrow> process_message dumps fmt m = Inr [clean_message m]"
  by (simp add: process_message_def plain_message_def)

lemma stripped_message:
  assumes "strip_foreign model m = Inr n"
  shows "loaded_message n = loaded_message m" "is_role n r = is_role m r" "plain_message m \<Longrightarrow> n = m"
    and "is_role m ''assistant'' \<Longrightarrow> stored_details True (py_iter (vget n ''output'')) \<subseteq> own_details model [m]"
proof -
  show "loaded_message n = loaded_message m" "is_role n r = is_role m r" "plain_message m \<Longrightarrow> n = m"
    using assms
    by (auto simp: strip_foreign_def loaded_message_def is_role_def vget_dict_set plain_message_def split: if_splits option.splits pyval.splits)
  assume role: "is_role m ''assistant''"
  show "stored_details True (py_iter (vget n ''output'')) \<subseteq> own_details model [m]"
  proof (cases "\<exists>items. vget m ''output'' = VList items")
    case True
    then show ?thesis
      using assms role stripped_details [of True]
      by (auto simp: strip_foreign_def own_details_def vget_dict_set split: if_splits option.splits)
  next
    case False
    then have "n = m" using assms role by (auto simp: strip_foreign_def split: option.splits pyval.splits)
    then show ?thesis using False no_details by auto
  qed
qed

lemma map_res_source:
  "map_res f xs = Inr ys \<Longrightarrow> y \<in> set ys \<Longrightarrow> \<exists>x\<in>set xs. f x = Inr y"
  unfolding map_res_Inr by (induction rule: list_all2_induct) auto

lemma process_messages_Inr:
  "process_messages_with_output dumps fmt ms = Inr ps \<longleftrightarrow>
     (\<exists>outs. map_res (process_message dumps fmt) ms = Inr outs \<and> ps = concat outs)"
  by (cases "map_res (process_message dumps fmt) ms") (auto simp: process_messages_with_output_def)

lemma subseq_processed:
  assumes "map_res (strip_foreign model) messages = Inr ms" "map_res (process_message dumps fmt) ms = Inr outs"
  shows "subseq (map clean_message (filter plain_message messages)) (filter plain_message (concat outs))"
  using assms
proof (induction messages arbitrary: ms outs)
  case (Cons m messages)
  obtain n ms' out outs' where s: "ms = n # ms'" "outs = out # outs'" "strip_foreign model m = Inr n"
      "map_res (strip_foreign model) messages = Inr ms'" "process_message dumps fmt n = Inr out"
      "map_res (process_message dumps fmt) ms' = Inr outs'"
    using Cons.prems by (auto simp: bind_res_Inr)
  note rest = Cons.IH [OF s(4,6)]
  show ?case
  proof (cases "plain_message m")
    case True
    have "out = [clean_message m]" using s(5) stripped_message(3) [OF s(3) True] plain_processed [OF True] by simp
    moreover have "plain_message (clean_message m)" using True clean_message_facts(2) by (simp add: plain_message_def)
    ultimately show ?thesis using rest True by (simp add: s(2))
  next
    case False
    then show ?thesis using rest by (simp add: s(2) list_emb_append2)
  qed
qed simp

text \<open>C36 (safety): whatever a chat has stored, in the conversation that is sent every call has its result and every
  result its call; no stored field and no reasoning detail of another model is sent, and every message
  that is neither an answer nor a result is sent, in order.\<close>

theorem replayed_conversation:
  assumes "replay_messages dumps model messages = Inr sent" "list_all loaded_message messages"
  shows "paired sent \<and> list_all (\<lambda>x. list_all (\<lambda>k. map_of x k = None) dropped_keys) sent \<and>
         list_all (\<lambda>x. details_of x \<subseteq> own_details model messages) sent \<and>
         subseq (map clean_message (filter plain_message messages)) (filter plain_message sent)"
proof -
  obtain ms outs where s: "map_res (strip_foreign model) messages = Inr ms"
      "map_res (process_message dumps (get_reasoning_format model)) ms = Inr outs" "sanitize_tool_pairs (concat outs) = Inr sent"
    using assms(1) by (auto simp: replay_messages_def bind_res_Inr process_messages_Inr)
  have each: "list_all (\<lambda>k. map_of x k = None) dropped_keys \<and> details_of x \<subseteq> own_details model messages" if x: "x \<in> set sent" for x
  proof -
    obtain y where y: "y \<in> set (concat outs)"
        "\<And>k. k \<noteq> ''tool_calls'' \<Longrightarrow> k \<noteq> ''reasoning_items'' \<Longrightarrow> map_of x k = map_of y k"
      using sanitize.pass_fields [OF s(3) x] by blast
    obtain out' where out: "out' \<in> set outs" "y \<in> set out'" using y(1) by auto
    obtain n out where n: "n \<in> set ms" "process_message dumps (get_reasoning_format model) n = Inr out" "y \<in> set out"
      using map_res_source [OF s(2) out(1)] out(2) by blast
    obtain m where m: "m \<in> set messages" "strip_foreign model m = Inr n" using map_res_source [OF s(1) n(1)] by blast
    note stripped = stripped_message [OF m(2)]
    have "loaded_message n" using stripped(1) m(1) assms(2) by (simp add: list_all_iff)
    note built = processed_message [OF n(2,3) this]
    have "own_details model [m] \<subseteq> own_details model messages" using m(1) by (auto simp: own_details_def split: if_splits)
    then have "details_of y \<subseteq> own_details model messages"
      using built(2) stripped(2,4) by (fastforce split: if_splits)
    moreover have "details_of x = details_of y" using y(2) by (simp add: details_of_def vget_def)
    moreover have "list_all (\<lambda>k. map_of x k = None) dropped_keys = list_all (\<lambda>k. map_of y k = None) dropped_keys"
      using y(2) by (simp add: dropped_keys_def)
    ultimately show ?thesis using built(1) by simp
  qed
  note pairs = sanitize.pass_pairs [OF s(3)]
  have "filter plain_message sent = filter plain_message (concat outs)"
  proof -
    have "plain_message = (\<lambda>m. \<not> is_role m ''tool'' \<and> \<not> is_role m ''assistant'')" by (auto simp: plain_message_def)
    then show ?thesis using pairs by simp
  qed
  then show ?thesis using pairs each subseq_processed [OF s(1,2)] by (simp add: list_all_iff)
qed

definition other_model :: pydict where
  "other_model = [(''id'', VStr ''m2''), (''provider'', VStr ''llama.cpp'')]"

definition stored_chat :: "pydict list" where
  \<comment> \<open>a question, an answer with reasoning of another model, and a result without its call\<close>
  "stored_chat =
     [[(''id'', VStr ''1''), (''role'', VStr ''user''), (''content'', VStr ''Why?'')],
      [(''id'', VStr ''2''), (''role'', VStr ''assistant''), (''model'', VStr ''m1''), (''output'', VList
         [VDict [(''type'', VStr ''reasoning''), (''summary'', VList []),
                 (''reasoning_details'', VList [VDict [(''format'', VStr ''private'')]])],
          VDict [(''type'', VStr ''message''), (''content'', VList [VDict [(''type'', VStr ''output_text''), (''text'', VStr ''So.'')]])]])],
      [(''id'', VStr ''3''), (''role'', VStr ''tool''), (''tool_call_id'', VStr ''x''), (''content'', VStr [])]]"

definition sent_chat :: "pydict list" where
  "sent_chat = [[(''role'', VStr ''user''), (''content'', VStr ''Why?'')], [(''role'', VStr ''assistant''), (''content'', VStr ''So.'')]]"

lemma replayed_conversation_witness: "paired sent_chat \<and> list_all (\<lambda>x. details_of x \<subseteq> own_details other_model stored_chat) sent_chat"
proof -
  have "replay_messages no_encoder other_model stored_chat = Inr sent_chat" by code_simp
  moreover have "list_all loaded_message stored_chat" by code_simp
  ultimately show ?thesis using replayed_conversation [of no_encoder other_model stored_chat sent_chat] by blast
qed

text \<open>What \<open>load_messages_from_db\<close> returns is loaded in this sense, and images do not change that.\<close>

theorem stored_conversation_loaded:
  assumes "stored_conversation chat_id user_message_id messages_map assistant_message messages = Inr ms"
    and "list_all loaded_message messages"
  shows "list_all loaded_message ms"
proof -
  have fields: "loaded_message (replay_fields m)" for m
    by (simp add: loaded_message_def replay_fields_def map_of_filter_keys message_replay_keys_def)
  have inject: "loaded_message n" if n1: "inject_images m = Inr n" and "loaded_message m" for m n
  proof -
    obtain images where n: "n = filter (\<lambda>(k, v). k \<noteq> ''files'') (with_images images m)"
      using n1 by (auto simp: inject_images_def bind_res_Inr)
    have "with_images images m = m \<or> (\<exists>v. with_images images m = dict_set ''content'' v m)"
      by (auto simp: with_images_def split: pyval.splits)
    then show ?thesis using that(2) by (auto simp: n loaded_message_def map_of_drop)
  qed
  have system: "loaded_message m" if "get_system_message xs = Inr (Some m)" "list_all loaded_message xs" for xs m
    using that by (induction xs) (auto split: option.splits if_splits)
  have db: "list_all loaded_message xs" if "load_messages_from_db messages_map user_message_id = Inr (Some xs)" for xs
    using that fields by (auto simp: load_messages_from_db_def bind_res_Inr list_all_iff split: option.splits if_splits)
  have more: "list_all loaded_message (continued_message a)" for a
    using fields by (simp add: continued_message_def split: option.splits)
  consider "ms = messages" | xs sys where "load_messages_from_db messages_map user_message_id = Inr (Some xs)"
      "get_system_message messages = Inr sys"
      "map_res inject_images (case_option [] (\<lambda>m. [m]) sys @ xs @ continued_message assistant_message) = Inr ms"
    using assms(1) by (auto simp: stored_conversation_def bind_res_Inr split: if_splits option.splits)
  then show ?thesis
  proof cases
    case 1
    then show ?thesis using assms(2) by simp
  next
    case (2 xs sys)
    have "loaded_message m" if "m \<in> set (case_option [] (\<lambda>m. [m]) sys @ xs @ continued_message assistant_message)" for m
      using that system [OF _ assms(2)] 2(2) db [OF 2(1)] more by (auto simp: list_all_iff split: option.splits)
    then show ?thesis
      using map_res_source [OF 2(3)] inject unfolding list_all_iff by blast
  qed
qed

end
