(* ===== verification/Compaction.thy ===== *)
theory Compaction
  imports ChatReplay
begin

text \<open>
  A conversation that grows too long is compacted (\<open>utils/context_compaction.py\<close> of Open WebUI): its older part
  is replaced by a summary, which is stored with the first message that is kept, the checkpoint of the
  next request. The reply of the model that summarises is a parameter (the text of the prompt is not
  modelled), and so is the length-relevant JSON encoding.
\<close>

section \<open>Settings\<close>

definition parse_positive_int :: "pyval \<Rightarrow> int option" where
  "parse_positive_int v = (case py_int v of Some i \<Rightarrow> if 0 < i then Some i else None | None \<Rightarrow> None)"

definition clamp_retention_percentage :: "pyval \<Rightarrow> int" where
  "clamp_retention_percentage v = min 50 (max 10 (case py_int v of Some i \<Rightarrow> i | None \<Rightarrow> 40))"

record compaction_config =
  cc_enable :: bool
  cc_threshold :: int
  cc_cap :: int
  cc_retention :: int

definition load_compaction_config :: "pydict \<Rightarrow> compaction_config" where
  \<comment> \<open>without the template of the prompt, which only the parameter \<open>respond\<close> uses\<close>
  "load_compaction_config values =
     (let threshold = (case parse_positive_int (vget values ''chat.context_compaction.token_threshold'') of
            Some i \<Rightarrow> i | None \<Rightarrow> 80000)
      in \<lparr>cc_enable = truthy (vget values ''chat.context_compaction.enable''),
          cc_threshold = threshold,
          cc_cap = (case parse_positive_int (vget values ''chat.context_compaction.token_cap'') of
            Some i \<Rightarrow> i | None \<Rightarrow> threshold),
          cc_retention = clamp_retention_percentage (vget values ''chat.context_compaction.retention_percentage'')\<rparr>)"

record chat_metadata =
  md_chat_id :: string
  md_user_message_id :: pyval
  md_message_id :: pyval
  md_params :: pyval

definition resolve_token_threshold :: "compaction_config \<Rightarrow> chat_metadata \<Rightarrow> int result" where
  "resolve_token_threshold config metadata =
     bind_res (dict_or_raise (py_or (md_params metadata) (VDict []))) (\<lambda>params.
       Inr (min (case parse_positive_int (vget params ''compact_token_threshold'') of Some i \<Rightarrow> i | None \<Rightarrow> cc_threshold config)
             (cc_cap config)))"

section \<open>The size of a conversation\<close>

definition int_or_raise :: "pyval \<Rightarrow> int result" where
  "int_or_raise v = (case py_int v of Some i \<Rightarrow> Inr i | None \<Rightarrow> Inl (ValueError ''invalid literal for int()''))"

definition usage_token_count :: "pydict \<Rightarrow> int result" where
  "usage_token_count usage =
     bind_res (int_or_raise (py_or (py_or (vget usage ''prompt_tokens'') (vget usage ''prompt_eval_count'')) (VInt 0))) (\<lambda>first.
       bind_res (if first = 0 \<and> (vget usage ''prompt_n'' \<noteq> VNone \<or> vget usage ''cache_n'' \<noteq> VNone)
                 then bind_res (int_or_raise (py_or (vget usage ''prompt_n'') (VInt 0))) (\<lambda>n.
                        bind_res (int_or_raise (py_or (vget usage ''cache_n'') (VInt 0))) (\<lambda>c. Inr (n + c)))
                 else Inr first) (\<lambda>prompt_tokens.
       bind_res (if prompt_tokens = 0 then int_or_raise (py_or (vget usage ''input_tokens'') (VInt 0)) else Inr prompt_tokens) (\<lambda>prompt_tokens.
       bind_res (int_or_raise (py_or (py_or (py_or (py_or (vget usage ''completion_tokens'') (vget usage ''output_tokens''))
                   (vget usage ''eval_count'')) (vget usage ''predicted_n'')) (VInt 0))) (\<lambda>completion_tokens.
         Inr (prompt_tokens + completion_tokens)))))"

definition estimate_tokens :: "(pyval \<Rightarrow> string result) \<Rightarrow> pyval \<Rightarrow> int" where
  \<comment> \<open>a value that cannot be serialized is measured by its \<open>str\<close>\<close>
  "estimate_tokens encode v =
     (if v = VNone then 0
      else let t = (case v of VStr s \<Rightarrow> s | _ \<Rightarrow> (case encode v of Inr s \<Rightarrow> s | Inl e \<Rightarrow> py_str v))
           in if t = [] then 0 else max 1 (int (length t) div 4))"

definition estimate_item :: "(pyval \<Rightarrow> string result) \<Rightarrow> pyval \<Rightarrow> int result" where
  "estimate_item encode item =
     (case item of
        VDict d \<Rightarrow>
          bind_res (in_set (vget d ''type'') [VStr ''image'', VStr ''image_url'']) (\<lambda>image.
            Inr (if image then 1000 else estimate_tokens encode (py_or (py_or (vget d ''text'') (vget d ''content'')) item)))
      | _ \<Rightarrow> Inr (estimate_tokens encode item))"

definition estimate_message :: "(pyval \<Rightarrow> string result) \<Rightarrow> pydict \<Rightarrow> int result" where
  "estimate_message encode m =
     bind_res (case vget m ''content'' of
                 VList items \<Rightarrow> bind_res (map_res (estimate_item encode) items) (\<lambda>ns. Inr (sum_list ns))
               | content \<Rightarrow> Inr (estimate_tokens encode content)) (\<lambda>n.
       Inr (4 + n + estimate_tokens encode (vget m ''output'') + estimate_tokens encode (vget m ''tool_calls'') +
            estimate_tokens encode (vget m ''files'')))"

definition estimate_messages_tokens :: "(pyval \<Rightarrow> string result) \<Rightarrow> pydict list \<Rightarrow> int result" where
  "estimate_messages_tokens encode messages = bind_res (map_res (estimate_message encode) messages) (\<lambda>ns. Inr (sum_list ns))"

definition message_usage :: "pydict \<Rightarrow> pyval result" where
  "message_usage m =
     (if truthy (vget m ''usage'') then Inr (vget m ''usage'')
      else bind_res (dict_or_raise (py_or (vget m ''info'') (VDict []))) (\<lambda>info. Inr (vget info ''usage'')))"

fun reported_tokens :: "(pyval \<Rightarrow> string result) \<Rightarrow> pydict list \<Rightarrow> pydict list \<Rightarrow> int option result" where
  \<comment> \<open>the loop from the last message backwards; the second list holds the messages behind\<close>
  "reported_tokens encode [] behind = Inr None"
| "reported_tokens encode (m # before) behind =
     bind_res (message_usage m) (\<lambda>usage.
       bind_res (case usage of VDict u \<Rightarrow> usage_token_count u | _ \<Rightarrow> Inr 0) (\<lambda>tokens.
         if tokens \<noteq> 0 then bind_res (estimate_messages_tokens encode behind) (\<lambda>n. Inr (Some (tokens + n)))
         else reported_tokens encode before (m # behind)))"

definition exceeds_token_threshold :: "(pyval \<Rightarrow> string result) \<Rightarrow> pydict list \<Rightarrow> pyval \<Rightarrow> string option \<Rightarrow> int \<Rightarrow> bool result" where
  "exceeds_token_threshold encode messages system_prompt summary threshold =
     (if threshold \<le> 0 then Inr False
      else bind_res (reported_tokens encode (rev messages) []) (\<lambda>reported.
        case reported of
          Some tokens \<Rightarrow> Inr (threshold < tokens)
        | None \<Rightarrow> bind_res (estimate_messages_tokens encode messages) (\<lambda>n.
            Inr (threshold < estimate_tokens encode system_prompt
                   + estimate_tokens encode (VStr (case summary of Some s \<Rightarrow> s | None \<Rightarrow> [])) + n))))"

section \<open>Checkpoint and boundary\<close>

definition message_summary :: "pydict \<Rightarrow> string option" where
  \<comment> \<open>the summary stored with a message\<close>
  "message_summary m =
     (case py_or (vget m ''contextSummary'') (vget m ''context_summary'') of
        VStr s \<Rightarrow> if strip s \<noteq> [] then Some s else None
      | _ \<Rightarrow> None)"

fun latest_checkpoint :: "pydict list \<Rightarrow> pydict list \<times> string option \<Rightarrow> pydict list \<times> string option" where
  "latest_checkpoint [] found = found"
| "latest_checkpoint (m # ms) found =
     latest_checkpoint ms (case message_summary m of Some s \<Rightarrow> (m # ms, Some s) | None \<Rightarrow> found)"

definition apply_latest_summary_checkpoint :: "pydict list \<Rightarrow> pydict list \<times> string option" where
  "apply_latest_summary_checkpoint messages = latest_checkpoint messages (messages, None)"

definition find_compaction_boundary :: "pydict list \<Rightarrow> int \<Rightarrow> nat" where
  "find_compaction_boundary messages retention_percentage =
     (let n = length messages;
          keep_count = max 2 (n * nat (clamp_retention_percentage (VInt retention_percentage)) div 100);
          target = max 1 (n - keep_count);
          boundaries = drop 1 (filter (\<lambda>i. is_role (messages ! i) ''user'') [0..<n])
      in case filter (\<lambda>i. i \<le> target) (rev boundaries) of [] \<Rightarrow> 0 | i # is \<Rightarrow> i)"

section \<open>The summary\<close>

definition response_text :: "pyval \<Rightarrow> pyval result" where
  "response_text response =
     (case (case response of VList [r] \<Rightarrow> r | _ \<Rightarrow> response) of
        VDict d \<Rightarrow>
          let choices = py_or (vget d ''choices'') (VList [])
          in if truthy choices
             then bind_res (case choices of VList (c # cs) \<Rightarrow> dict_or_raise c | VDict _ \<Rightarrow> Inl (OtherError ''KeyError'')
                            | VStr _ \<Rightarrow> Inl (OtherError ''AttributeError'') | _ \<Rightarrow> Inl (TypeError ''object is not subscriptable'')) (\<lambda>choice.
                    bind_res (dict_or_raise (py_or (vget choice ''message'') (VDict []))) (\<lambda>m.
                      Inr (py_or (py_or (vget m ''content'') (vget m ''reasoning_content'')) (VStr []))))
             else bind_res (iterate (py_or (vget d ''output'') (VList []))) (\<lambda>items.
                    bind_res (map_res (\<lambda>item. bind_res (dict_or_raise item) (\<lambda>i.
                        bind_res (iterate (py_or (vget i ''content'') (VList []))) (\<lambda>cs.
                          Inr (concat (map (\<lambda>c. case c of
                            VDict e \<Rightarrow> [py_or (py_or (vget e ''text'') (vget e ''content'')) (VStr [])] | _ \<Rightarrow> []) cs))))) items) (\<lambda>parts.
                      bind_res (join_values (filter truthy (concat parts))) (\<lambda>texts. Inr (VStr (join [newline] texts)))))
      | _ \<Rightarrow> Inr (VStr []))"

definition first_500 :: "pyval \<Rightarrow> string result" where
  \<comment> \<open>\<open>f'{content[:500]}'\<close>\<close>
  "first_500 content =
     (case content of VStr s \<Rightarrow> Inr (take 500 s) | VList xs \<Rightarrow> Inr (py_str (VList (take 500 xs)))
      | _ \<Rightarrow> Inl (TypeError ''object is not subscriptable''))"

fun excerpts :: "pydict list \<Rightarrow> string list result" where
  "excerpts [] = Inr []"
| "excerpts (m # ms) =
     (let content = get_content_from_message m
      in if truthy content
         then bind_res (first_500 content) (\<lambda>t. bind_res (excerpts ms) (\<lambda>ts.
                Inr ((''- '' @ py_str (vget_default m ''role'' (VStr ''unknown'')) @ '': '' @ t) # ts)))
         else excerpts ms)"

definition generate_summary ::
    "(pydict list \<Rightarrow> pydict list \<Rightarrow> string option \<Rightarrow> pyval result) \<Rightarrow> pydict list \<Rightarrow> pydict list \<Rightarrow> string option \<Rightarrow> string result" where
  \<comment> \<open>the reply of the model, or excerpts of the messages if it is empty\<close>
  "generate_summary respond compacted recent previous =
     bind_res (respond compacted recent previous) (\<lambda>response.
       bind_res (response_text response) (\<lambda>t.
         case t of
           VStr s \<Rightarrow>
             if strip s \<noteq> [] then Inr (strip s)
             else bind_res (excerpts compacted) (\<lambda>parts.
                    Inr (take 4000 (join [newline]
                      ((case previous of Some p \<Rightarrow> if p \<noteq> [] then [p] else [] | None \<Rightarrow> []) @ parts))))
         | _ \<Rightarrow> Inl (OtherError ''AttributeError'')))"

section \<open>Compacting a request\<close>

definition compact_messages_for_request ::
    "(pyval \<Rightarrow> string result) \<Rightarrow> (pydict list \<Rightarrow> pydict list \<Rightarrow> string option \<Rightarrow> pyval result) \<Rightarrow> compaction_config \<Rightarrow>
     chat_metadata \<Rightarrow> pydict list \<Rightarrow> pyval \<Rightarrow> (pydict list \<times> string option \<times> (pyval \<times> string) option) result" where
  \<comment> \<open>the messages, the summary in front of them, and the checkpoint that is stored, if it was compacted now;
    the progress events and the log entry are left out\<close>
  "compact_messages_for_request encode respond config metadata messages system_prompt =
     (if \<not> cc_enable config then Inr (messages, None, None)
      else let system = (case messages of [] \<Rightarrow> [] | m # ms \<Rightarrow> if is_role m ''system'' then [m] else []);
               (messages, previous) = apply_latest_summary_checkpoint (drop (length system) messages)
           in bind_res (resolve_token_threshold config metadata) (\<lambda>threshold.
              bind_res (exceeds_token_threshold encode messages system_prompt previous threshold) (\<lambda>exceeds.
                if \<not> exceeds \<or> length messages \<le> 3 then Inr (system @ messages, previous, None)
                else let boundary = find_compaction_boundary messages (cc_retention config);
                         compacted = take boundary messages; recent = drop boundary messages
                     in if compacted = [] \<or> recent = [] then Inr (system @ messages, previous, None)
                        else bind_res (generate_summary respond compacted recent previous) (\<lambda>summary.
                          let checkpoint_id = py_or (py_or (vget (hd recent) ''id'') (md_user_message_id metadata)) (md_message_id metadata)
                          in Inr (system @ recent, Some summary,
                               if is_saved_chat_id (md_chat_id metadata) \<and> truthy checkpoint_id
                               then Some (checkpoint_id, summary) else None)))))"

definition added_text :: "bool \<Rightarrow> pyval \<Rightarrow> string \<Rightarrow> pyval" where
  "added_text at_end old content =
     VStr (if at_end then py_str old @ [newline] @ content else content @ [newline] @ py_str old)"

fun update_items :: "bool \<Rightarrow> string \<Rightarrow> pyval list \<Rightarrow> pyval list \<times> exn option" where
  \<comment> \<open>the items, which are changed in place, and the exception that ends the loop\<close>
  "update_items at_end content [] = ([], None)"
| "update_items at_end content (item # items) =
     (case item of
        VDict d \<Rightarrow>
          (case (map_of d ''type'', map_of d ''text'') of
             (None, _) \<Rightarrow> (item # items, Some (OtherError ''KeyError''))
           | (Some t, old) \<Rightarrow>
               if t \<noteq> VStr ''text'' then map_prod (Cons item) id (update_items at_end content items)
               else (case old of
                       None \<Rightarrow> (item # items, Some (OtherError ''KeyError''))
                     | Some v \<Rightarrow> map_prod (Cons (VDict (dict_set ''text'' (added_text at_end v content) d))) id
                                  (update_items at_end content items)))
      | _ \<Rightarrow> (item # items, Some (TypeError ''indices must be integers'')))"

definition update_message_content :: "bool \<Rightarrow> pydict \<Rightarrow> string \<Rightarrow> pydict \<times> exn option" where
  "update_message_content at_end m content =
     (case map_of m ''content'' of
        None \<Rightarrow> (m, Some (OtherError ''KeyError''))
      | Some (VList items) \<Rightarrow>
          (let (items, e) = update_items at_end content items in (dict_set ''content'' (VList items) m, e))
      | Some v \<Rightarrow> (dict_set ''content'' (added_text at_end v content) m, None))"

definition add_or_update_system_message :: "bool \<Rightarrow> string \<Rightarrow> pydict list \<Rightarrow> pydict list \<times> exn option" where
  "add_or_update_system_message at_end content messages =
     (if messages \<noteq> [] \<and> is_role (hd messages) ''system''
      then (let (m, e) = update_message_content at_end (hd messages) content in (m # tl messages, e))
      else ([(''role'', VStr ''system''), (''content'', VStr content)] # messages, None))"

definition compacted_or_full ::
    "(pyval \<Rightarrow> string result) \<Rightarrow> (pydict list \<Rightarrow> pydict list \<Rightarrow> string option \<Rightarrow> pyval result) \<Rightarrow> compaction_config \<Rightarrow>
     chat_metadata \<Rightarrow> pydict list \<Rightarrow> pyval \<Rightarrow> pydict list \<times> (pyval \<times> string) option" where
  \<comment> \<open>the \<open>try\<close> block of \<open>process_chat_payload\<close>: a failure leaves the messages as far as they are changed\<close>
  "compacted_or_full encode respond config metadata messages system_prompt =
     (case compact_messages_for_request encode respond config metadata messages system_prompt of
        Inl e \<Rightarrow> (messages, None)
      | Inr (ms, summary, checkpoint) \<Rightarrow>
          (case summary of
             Some (c # cs) \<Rightarrow> fst (add_or_update_system_message True (''[CONVERSATION SUMMARY]'' @ [newline] @ c # cs) ms)
           | _ \<Rightarrow> ms, checkpoint))"

section \<open>Compacting on request, and the usage shown\<close>

definition current_message :: "pyval \<Rightarrow> pydict \<Rightarrow> pyval result" where
  \<comment> \<open>the message a stored chat stands at; the first argument is the column \<open>current_message_id\<close>\<close>
  "current_message column chat_data =
     bind_res (if truthy column then Inr column
               else bind_res (dict_or_raise (py_or (vget chat_data ''history'') (VDict []))) (\<lambda>history.
                      Inr (vget history ''currentId''))) (\<lambda>current.
       let current = (if truthy current then current
                      else py_or (vget chat_data ''currentId'') (vget chat_data ''branchPointMessageId''))
       in if truthy current then Inr current
          else case vget chat_data ''messages'' of
                 VList (m # ms) \<Rightarrow> bind_res (dict_or_raise (last (m # ms))) (\<lambda>d. Inr (vget d ''id''))
               | _ \<Rightarrow> Inr current)"

definition chat_branch :: "pyval \<Rightarrow> pydict \<Rightarrow> (string \<times> pyval) list option \<Rightarrow> pydict list result" where
  \<comment> \<open>the stored messages up to the given one; the third argument is the answer of \<open>get_messages_map_by_chat_id\<close>\<close>
  "chat_branch current chat_data messages_map =
     bind_res (case messages_map of
                 Some (m # ms) \<Rightarrow> Inr (m # ms)
               | _ \<Rightarrow> bind_res (dict_or_raise (py_or (vget chat_data ''history'') (VDict []))) (\<lambda>history.
                        dict_or_raise (py_or (vget history ''messages'') (VDict [])))) (\<lambda>messages.
       get_message_list messages current)"

record context_usage =
  cu_tokens :: int
  cu_threshold :: int
  cu_percent :: int

definition build_context_usage :: "int \<Rightarrow> int \<Rightarrow> context_usage" where
  "build_context_usage tokens threshold =
     \<lparr>cu_tokens = tokens, cu_threshold = threshold,
      cu_percent = (if 0 < threshold then round_half_even (fmul (fdiv_int tokens threshold) 100) else 0)\<rparr>"

definition usage_params :: "pyval option \<Rightarrow> pydict \<Rightarrow> pydict result" where
  \<comment> \<open>the parameters of the chat, with the model of the request\<close>
  "usage_params model_id chat_data =
     (let set_model = (case model_id of Some i \<Rightarrow> truthy i | None \<Rightarrow> False)
      in case py_or (vget chat_data ''params'') (VDict []) of
           VDict d \<Rightarrow> Inr (if set_model then dict_set ''model'' (the model_id) d else d)
         | VList _ \<Rightarrow> Inl (if set_model then TypeError ''list indices must be integers'' else OtherError ''AttributeError'')
         | _ \<Rightarrow> Inl (OtherError ''AttributeError''))"

definition get_chat_context_usage ::
    "(pyval \<Rightarrow> string result) \<Rightarrow> compaction_config \<Rightarrow> pyval \<Rightarrow> pydict \<Rightarrow> (string \<times> pyval) list option \<Rightarrow> pyval option \<Rightarrow>
     context_usage option result" where
  "get_chat_context_usage encode config column chat_data messages_map model_id =
     bind_res (current_message column chat_data) (\<lambda>current.
       if \<not> truthy current then Inr None
       else bind_res (chat_branch current chat_data messages_map) (\<lambda>messages.
         if messages = [] \<or> \<not> cc_enable config then Inr None
         else bind_res (usage_params model_id chat_data) (\<lambda>params.
           bind_res (resolve_token_threshold config
               \<lparr>md_chat_id = [], md_user_message_id = VNone, md_message_id = VNone, md_params = VDict params\<rparr>) (\<lambda>threshold.
             let (messages, previous) = apply_latest_summary_checkpoint messages
             in bind_res (reported_tokens encode (rev messages) []) (\<lambda>reported.
                  case reported of
                    Some tokens \<Rightarrow> Inr (Some (build_context_usage tokens threshold))
                  | None \<Rightarrow> bind_res (estimate_messages_tokens encode messages) (\<lambda>n.
                      Inr (Some (build_context_usage
                        (estimate_tokens encode (VStr (case previous of Some s \<Rightarrow> s | None \<Rightarrow> [])) + n) threshold))))))))"

datatype branch_compaction =
    NotCompacted string
  | Compacted (dropped_messages: nat) (kept_messages: nat) (summary_chars: nat)

definition compact_chat_branch ::
    "(pydict list \<Rightarrow> pydict list \<Rightarrow> string option \<Rightarrow> pyval result) \<Rightarrow> compaction_config \<Rightarrow> pyval \<Rightarrow> pydict \<Rightarrow>
     (string \<times> pyval) list option \<Rightarrow> (branch_compaction \<times> (pyval \<times> string) option) result" where
  \<comment> \<open>the answer, and the checkpoint that is stored\<close>
  "compact_chat_branch respond config column chat_data messages_map =
     (if \<not> cc_enable config then Inr (NotCompacted ''disabled'', None)
      else bind_res (current_message column chat_data) (\<lambda>current.
        if \<not> truthy current then Inr (NotCompacted ''empty'', None)
        else bind_res (chat_branch current chat_data messages_map) (\<lambda>messages.
          let (messages, previous) = apply_latest_summary_checkpoint messages;
              compacted = butlast messages; recent = drop (length messages - 1) messages
          in if compacted = [] \<or> recent = [] then Inr (NotCompacted ''too_short'', None)
             else bind_res (generate_summary respond compacted recent previous) (\<lambda>summary.
               Inr (Compacted (length compacted) (length recent) (length summary), Some (current, summary))))))"

section \<open>The messages of a request\<close>

definition payload_messages ::
    "(pyval \<Rightarrow> string result) \<Rightarrow> (pyval \<Rightarrow> string result) \<Rightarrow> (pydict list \<Rightarrow> pydict list \<Rightarrow> string option \<Rightarrow> pyval result) \<Rightarrow>
     compaction_config \<Rightarrow> chat_metadata \<Rightarrow> pydict \<Rightarrow> (string \<times> pyval) list option \<Rightarrow> pydict option \<Rightarrow> pyval \<Rightarrow> pydict list \<Rightarrow>
     (pydict list \<times> (pyval \<times> string) option) result" where
  \<comment> \<open>\<open>process_chat_payload\<close> from the stored chat to the paired messages\<close>
  "payload_messages dumps encode respond config metadata model messages_map assistant_message regeneration_prompt messages =
     bind_res (stored_conversation (md_chat_id metadata) (md_user_message_id metadata) messages_map assistant_message messages) (\<lambda>ms.
       let ms = (if truthy regeneration_prompt
                 then ms @ [[(''role'', VStr ''user''), (''content'', regeneration_prompt)]] else ms)
       in bind_res
            (if is_saved_chat_id (md_chat_id metadata) \<and> truthy (md_user_message_id metadata)
             then bind_res (get_system_message ms) (\<lambda>system.
                    Inr (compacted_or_full encode respond config metadata ms
                      (case system of Some m \<Rightarrow> get_content_from_message m | None \<Rightarrow> VStr [])))
             else Inr (ms, None)) (\<lambda>(ms, checkpoint).
          bind_res (replay_messages dumps model ms) (\<lambda>sent. Inr (sent, checkpoint))))"

section \<open>The checkpoint\<close>

abbreviation unsummarised :: "pydict \<Rightarrow> bool" where
  "unsummarised m \<equiv> message_summary m = None"

lemma latest_checkpoint_none: "list_all unsummarised ms \<Longrightarrow> latest_checkpoint ms found = found"
  by (induction ms arbitrary: found) auto

lemma latest_checkpoint_last:
  "message_summary m = Some s \<Longrightarrow> list_all unsummarised zs \<Longrightarrow> latest_checkpoint (xs @ m # zs) found = (m # zs, Some s)"
  by (induction xs arbitrary: found) (auto simp: latest_checkpoint_none)

lemma last_summary:
  "list_all unsummarised ms \<or> (\<exists>xs m s zs. ms = xs @ m # zs \<and> message_summary m = Some s \<and> list_all unsummarised zs)"
proof (induction ms)
  case (Cons m ms)
  then show ?case
  proof (elim disjE exE conjE)
    assume all: "list_all unsummarised ms"
    show ?thesis
    proof (cases "message_summary m")
      case (Some s)
      then have "m # ms = [] @ m # ms \<and> message_summary m = Some s \<and> list_all unsummarised ms" using all by simp
      then show ?thesis by blast
    qed (use all in simp)
  next
    fix xs n s zs assume "ms = xs @ n # zs" "message_summary n = Some s" "list_all unsummarised zs"
    then have "m # ms = (m # xs) @ n # zs \<and> message_summary n = Some s \<and> list_all unsummarised zs" by simp
    then show ?thesis by blast
  qed
qed simp

lemma checkpoint_split:
  assumes "apply_latest_summary_checkpoint messages = (ms, previous)"
  obtains dropped where "messages = dropped @ ms" "list_all unsummarised (tl ms)"
proof -
  from last_summary [of messages] show ?thesis
  proof (elim disjE exE conjE)
    assume all: "list_all unsummarised messages"
    then have "ms = messages" using assms by (simp add: apply_latest_summary_checkpoint_def latest_checkpoint_none)
    then show ?thesis using all that [of "[]"] by (cases messages) auto
  next
    fix xs m s zs assume m: "messages = xs @ m # zs" "message_summary m = Some s" "list_all unsummarised zs"
    then have "ms = m # zs" using assms by (simp add: apply_latest_summary_checkpoint_def latest_checkpoint_last)
    then show ?thesis using m that [of xs] by simp
  qed
qed

lemma boundary_facts:
  assumes "find_compaction_boundary ms p = b" "b \<noteq> 0" "3 < length ms"
  shows "b < length ms" "is_role (ms ! b) ''user''"
    and "max 2 (length ms * nat (clamp_retention_percentage (VInt p)) div 100) \<le> length ms - b"
proof -
  let ?n = "length ms" and ?r = "nat (clamp_retention_percentage (VInt p))"
  let ?keep = "max 2 (?n * ?r div 100)"
  define users where "users = drop 1 (filter (\<lambda>i. is_role (ms ! i) ''user'') [0..<?n])"
  have "(case filter (\<lambda>i. i \<le> max 1 (?n - ?keep)) (rev users) of [] \<Rightarrow> 0 | i # is \<Rightarrow> i) = b"
    using assms(1) by (simp only: find_compaction_boundary_def Let_def users_def [symmetric])
  then obtain "is" where "filter (\<lambda>i. i \<le> max 1 (?n - ?keep)) (rev users) = b # is"
    using assms(2) by (metis list.case list.exhaust)
  then have "b \<in> set (filter (\<lambda>i. i \<le> max 1 (?n - ?keep)) (rev users))" by simp
  then have b: "b \<in> set users" "b \<le> max 1 (?n - ?keep)" by auto
  then have "b \<in> set (filter (\<lambda>i. is_role (ms ! i) ''user'') [0..<?n])"
    unfolding users_def by (blast dest: in_set_dropD)
  then show "b < ?n" "is_role (ms ! b) ''user''" by auto
  have "?r \<le> 50" by (simp add: clamp_retention_percentage_def)
  then have "?n * ?r div 100 \<le> ?n * 50 div 100" by (intro div_le_mono mult_le_mono2)
  moreover have "?n * 50 div 100 \<le> ?n - 1" using assms(3) by simp
  ultimately have "?keep \<le> ?n - 1" using assms(3) by (simp only: max.bounded_iff) linarith
  then have "b \<le> ?n - ?keep" using b(2) by auto
  then show "?keep \<le> ?n - b" using \<open>?keep \<le> ?n - 1\<close> by linarith
qed

definition with_summary :: "string \<Rightarrow> pydict \<Rightarrow> pydict" where
  \<comment> \<open>what the checkpoint stores: \<open>upsert_message_to_chat_by_id_and_message_id\<close> with \<open>{'contextSummary': summary}\<close>\<close>
  "with_summary summary m = dict_set ''contextSummary'' (VStr summary) m"

lemma message_summary_with: "strip s \<noteq> [] \<Longrightarrow> message_summary (with_summary s m) = Some s"
  by (auto simp: message_summary_def with_summary_def vget_dict_set py_or_def)


definition long_chat :: "pydict list" where
  "long_chat =
     [[(''id'', VStr ''1''), (''role'', VStr ''user''), (''content'', VStr ''Why?'')],
      [(''id'', VStr ''2''), (''role'', VStr ''assistant''), (''content'', VStr ''So.'')],
      [(''id'', VStr ''3''), (''role'', VStr ''user''), (''content'', VStr ''And then?'')],
      [(''id'', VStr ''4''), (''role'', VStr ''assistant''), (''content'', VStr ''This.'')]]"

definition compact_early :: compaction_config where
  "compact_early = \<lparr>cc_enable = True, cc_threshold = 10, cc_cap = 10, cc_retention = 40\<rparr>"

definition saved_chat :: chat_metadata where
  "saved_chat = \<lparr>md_chat_id = ''c1'', md_user_message_id = VStr ''3'', md_message_id = VStr ''5'', md_params = VNone\<rparr>"

definition asked_why :: "pydict list \<Rightarrow> pydict list \<Rightarrow> string option \<Rightarrow> pyval result" where
  "asked_why compacted recent previous =
     Inr (VDict [(''choices'', VList [VDict [(''message'', VDict [(''content'', VStr ''Asked why.'')])]])])"

lemma long_chat_compacted:
  "compact_messages_for_request no_encoder asked_why compact_early saved_chat long_chat (VStr []) =
     Inr (drop 2 long_chat, Some ''Asked why.'', Some (VStr ''3'', ''Asked why.''))"
  by code_simp


text \<open>The usage that is shown exceeds the threshold exactly if the next request of the chat would be compacted.\<close>

theorem usage_shows_compaction:
  assumes "get_chat_context_usage encode config column chat_data messages_map model_id = Inr (Some usage)"
  shows "\<exists>current messages ms previous. current_message column chat_data = Inr current \<and>
    chat_branch current chat_data messages_map = Inr messages \<and> apply_latest_summary_checkpoint messages = (ms, previous) \<and>
    (0 < cu_threshold usage \<longrightarrow>
       exceeds_token_threshold encode ms VNone previous (cu_threshold usage) =
         Inr (cu_threshold usage < cu_tokens usage))"
proof -
  obtain current messages where c: "current_message column chat_data = Inr current"
      "chat_branch current chat_data messages_map = Inr messages"
    using assms by (auto simp: get_chat_context_usage_def bind_res_Inr split: if_splits)
  obtain ms previous where ms: "apply_latest_summary_checkpoint messages = (ms, previous)" by fastforce
  let ?summary = "estimate_tokens encode (VStr (case previous of Some s \<Rightarrow> s | None \<Rightarrow> []))"
  obtain threshold reported where r: "reported_tokens encode (rev ms) [] = Inr reported"
      "(case reported of Some t \<Rightarrow> Inr (Some (build_context_usage t threshold))
        | None \<Rightarrow> bind_res (estimate_messages_tokens encode ms) (\<lambda>n. Inr (Some (build_context_usage (?summary + n) threshold)))) =
       Inr (Some usage)"
    using assms by (auto simp: get_chat_context_usage_def bind_res_Inr [of _ _ "Some usage"] c ms split: if_splits)
  define tokens where "tokens = cu_tokens usage"
  have usage: "cu_threshold usage = threshold"
      "case reported of Some t \<Rightarrow> tokens = t | None \<Rightarrow> \<exists>n. estimate_messages_tokens encode ms = Inr n \<and> tokens = ?summary + n"
    using r(2) by (auto simp: tokens_def build_context_usage_def bind_res_Inr split: option.splits)
  have "exceeds_token_threshold encode ms VNone previous threshold = Inr (threshold < tokens)" if "0 < threshold"
    using that r(1) usage(2)
    by (cases reported) (auto simp: exceeds_token_threshold_def estimate_tokens_def [of encode VNone])
  then show ?thesis using c ms usage(1) by (auto simp: tokens_def)
qed

text \<open>What is sent is paired, also after a compaction.\<close>

theorem compacted_payload_paired:
  assumes "payload_messages dumps encode respond config metadata model messages_map assistant_message prompt messages =
             Inr (sent, checkpoint)"
  shows "paired sent"
proof -
  obtain ms where "replay_messages dumps model ms = Inr sent"
    using assms by (auto simp: payload_messages_def bind_res_Inr Let_def)
  then obtain out where "sanitize_tool_pairs out = Inr sent"
    by (auto simp: replay_messages_def bind_res_Inr)
  then show ?thesis using sanitize.pass_pairs by blast
qed

end
