(* ===== verification/ChatHistory.thy ===== *)
theory ChatHistory
  imports ChatTools
begin

text \<open>
  The history of a stored chat (\<open>models/chats.py\<close> of Open WebUI): a dictionary of messages that name their
  parent and their children, and the message shown last. Messages are added, changed, deleted and merged;
  the JSON of the chat is what the row of the database holds, so each operation returns it changed. An
  exception inside an operation leaves the row as it was.
\<close>

type_synonym message_map = "(string \<times> pyval) list"

section \<open>Parents and children\<close>

definition key_in :: "pyval \<Rightarrow> message_map \<Rightarrow> bool result" where
  "key_in v messages =
     (if hashable v then Inr (case v of VStr s \<Rightarrow> s \<in> set (map fst messages) | _ \<Rightarrow> False)
      else Inl (TypeError ''unhashable type''))"

definition list_or_empty :: "pyval \<Rightarrow> pyval list" where
  \<comment> \<open>\<open>v if isinstance(v, list) else []\<close>\<close>
  "list_or_empty v = (case v of VList xs \<Rightarrow> xs | _ \<Rightarrow> [])"

definition add_child_id_to_parent :: "message_map \<Rightarrow> pyval \<Rightarrow> string \<Rightarrow> (message_map \<times> bool) result" where
  \<comment> \<open>the messages afterwards, and whether they changed\<close>
  "add_child_id_to_parent messages parent_id child_id =
     bind_res (if truthy parent_id then lookup_message messages parent_id else Inr VNone) (\<lambda>parent.
       case (parent, parent_id) of
         (VDict p, VStr s) \<Rightarrow>
           let child_ids = list_or_empty (vget p ''childrenIds'')
           in if VStr child_id \<in> set child_ids then Inr (messages, False)
              else Inr (dict_set s (VDict (dict_set ''childrenIds'' (VList (child_ids @ [VStr child_id])) p)) messages, True)
       | _ \<Rightarrow> Inr (messages, False))"

fun keys_present :: "message_map \<Rightarrow> pyval list \<Rightarrow> string list result" where
  \<comment> \<open>\<open>[i for i in ids if i in messages]\<close>\<close>
  "keys_present messages [] = Inr []"
| "keys_present messages (i # ids) =
     bind_res (key_in i messages) (\<lambda>yes. bind_res (keys_present messages ids) (\<lambda>ks.
       Inr (case i of VStr s \<Rightarrow> if yes then s # ks else ks | _ \<Rightarrow> ks)))"

fun first_present :: "message_map \<Rightarrow> pyval list \<Rightarrow> string option result" where
  \<comment> \<open>\<open>next((i for i in ids if i in messages), None)\<close>\<close>
  "first_present messages [] = Inr None"
| "first_present messages (i # ids) =
     bind_res (key_in i messages) (\<lambda>yes.
       if yes then Inr (case i of VStr s \<Rightarrow> Some s | _ \<Rightarrow> None) else first_present messages ids)"

function last_descendant_id :: "message_map \<Rightarrow> string list \<Rightarrow> string \<Rightarrow> string result" where
  "last_descendant_id messages seen i =
     (if i \<in> set (map fst messages) - set seen
      then bind_res (first_present messages
             (rev (case vget messages i of VDict m \<Rightarrow> list_or_empty (vget m ''childrenIds'') | _ \<Rightarrow> []))) (\<lambda>n.
               case n of
                 None \<Rightarrow> Inr i
               | Some s \<Rightarrow> if s = [] then Inr i else last_descendant_id messages (i # seen) s)
      else Inr i)"
  by pat_completeness auto
termination
proof (relation "measure (\<lambda>(messages, seen, i). card (set (map fst messages) - set seen))", goal_cases)
  case (2 messages seen i s)
  then have "set (map fst messages) - set (i # seen) \<subset> set (map fst messages) - set seen" by auto
  then show ?case by (simp add: psubset_card_mono)
qed simp

declare last_descendant_id.simps [simp del]

section \<open>Repairing a chat\<close>

fun first_role :: "pyval list \<Rightarrow> pyval" where
  \<comment> \<open>\<open>next((item.get('role') for item in output if ...), None)\<close>\<close>
  "first_role [] = VNone"
| "first_role (item # items) =
     (case item of VDict d \<Rightarrow> if truthy (vget d ''role'') then vget d ''role'' else first_role items | _ \<Rightarrow> first_role items)"

definition link_children :: "message_map \<Rightarrow> (message_map \<times> bool) result" where
  \<comment> \<open>every message becomes a child of its parent\<close>
  "link_children messages =
     fold_res (\<lambda>k (ms, changed).
       case vget ms k of
         VDict m \<Rightarrow> bind_res (add_child_id_to_parent ms (vget m ''parentId'') k) (\<lambda>(ms', c). Inr (ms', c \<or> changed))
       | _ \<Rightarrow> Inr (ms, changed)) (map fst messages) (messages, False)"

definition as_number :: "pyval \<Rightarrow> rat result" where
  "as_number v =
     (case v of VInt i \<Rightarrow> Inr (of_int i) | VFloat x \<Rightarrow> Inr x | VBool b \<Rightarrow> Inr (if b then 1 else 0)
      | _ \<Rightarrow> Inl (TypeError ''not supported between instances''))"

definition latest_leaf :: "message_map \<Rightarrow> string option result" where
  "latest_leaf messages =
     bind_res (fold_res (\<lambda>(k, v) (leaf, latest).
       case v of
         VDict m \<Rightarrow>
           if truthy (vget m ''role'') \<and> list_or_empty (vget m ''childrenIds'') = []
           then bind_res (as_number (py_or (vget m ''timestamp'') (VInt 0))) (\<lambda>t.
                  Inr (if latest < t then (Some k, t) else (leaf, latest)))
           else Inr (leaf, latest)
       | _ \<Rightarrow> Inr (leaf, latest)) messages (None, -1)) (\<lambda>(leaf, latest). Inr leaf)"

definition repair_history :: "pydict \<Rightarrow> (pydict \<times> bool) result" where
  \<comment> \<open>\<open>_repair_chat_current_id\<close> on a chat whose history is a dictionary\<close>
  "repair_history history =
     (case vget history ''messages'' of
        VDict messages \<Rightarrow>
          bind_res (link_children messages) (\<lambda>(messages, changed).
            let history = dict_set ''messages'' (VDict messages) history;
                current_id = vget history ''currentId''
            in bind_res (lookup_message messages current_id) (\<lambda>current.
              bind_res (case current of VDict m \<Rightarrow> iterate (py_or (vget m ''output'') (VList [])) | _ \<Rightarrow> Inr []) (\<lambda>output.
                let m = as_dict current;
                    bad_leaf = (is_mapping current \<and> first_role output = VStr ''assistant'' \<and> vget m ''parentId'' = VNone \<and>
                                \<not> truthy (vget m ''timestamp'') \<and> 1 < length messages)
                in if is_mapping current \<and> truthy (vget m ''id'') \<and> truthy (vget m ''role'') \<and> \<not> bad_leaf
                   then if truthy (vget m ''contextSummary'') \<or> truthy (vget m ''context_summary'')
                        then bind_res (last_descendant_id messages [] (py_str current_id)) (\<lambda>d.
                               Inr (if VStr d \<noteq> current_id then (dict_set ''currentId'' (VStr d) history, True)
                                    else (history, changed)))
                        else Inr (history, changed)
                   else bind_res (latest_leaf messages) (\<lambda>leaf.
                          Inr (case leaf of
                                 None \<Rightarrow> (history, changed)
                               | Some l \<Rightarrow> if l = [] \<or> VStr l = current_id then (history, changed)
                                           else (dict_set ''currentId'' (VStr l) history, True))))))
      | _ \<Rightarrow> Inr (history, False))"

definition repair_chat_current_id :: "pydict \<Rightarrow> (pydict \<times> bool) result" where
  "repair_chat_current_id chat =
     (case vget chat ''history'' of
        VDict history \<Rightarrow>
          bind_res (repair_history history) (\<lambda>(h, changed). Inr (dict_set ''history'' (VDict h) chat, changed))
      | _ \<Rightarrow> Inr (chat, False))"

fun last_message_id :: "pyval list \<Rightarrow> pyval" where
  \<comment> \<open>of the messages in reverse order\<close>
  "last_message_id [] = VNone"
| "last_message_id (m # ms) =
     (case m of VDict d \<Rightarrow> if truthy (vget d ''id'') then vget d ''id'' else last_message_id ms | _ \<Rightarrow> last_message_id ms)"

definition get_current_message_id :: "pydict \<Rightarrow> pyval" where
  "get_current_message_id chat =
     (let history = as_dict (vget chat ''history'');
          current_id = py_or (py_or (vget history ''currentId'') (vget chat ''currentId'')) (vget chat ''branchPointMessageId'')
      in if truthy current_id then current_id
         else case vget chat ''messages'' of VList ms \<Rightarrow> last_message_id (rev ms) | _ \<Rightarrow> VNone)"

section \<open>Merging, deleting, adding\<close>

fun unresolved_parents :: "message_map \<Rightarrow> (string \<times> pyval) list \<Rightarrow> pyval list result" where
  "unresolved_parents messages [] = Inr []"
| "unresolved_parents messages ((k, v) # ms) =
     bind_res (dict_or_raise v) (\<lambda>m.
       bind_res (if truthy (vget m ''parentId'') then key_in (vget m ''parentId'') messages else Inr True) (\<lambda>known.
         bind_res (unresolved_parents messages ms) (\<lambda>ids. Inr (if known then ids else vget m ''parentId'' # ids))))"

definition get_unresolved_parent_ids :: "message_map \<Rightarrow> pyval list result" where
  "get_unresolved_parent_ids messages = unresolved_parents messages messages"

definition dict_merge :: "pydict \<Rightarrow> pydict \<Rightarrow> pydict" where
  \<comment> \<open>\<open>{**a, **b}\<close>\<close>
  "dict_merge a b = fold (\<lambda>(k, v). dict_set k v) b a"

definition mapping_or_raise :: "pyval \<Rightarrow> pydict result" where
  "mapping_or_raise v = (case v of VDict d \<Rightarrow> Inr d | _ \<Rightarrow> Inl (TypeError ''not a mapping''))"

definition link_to_parent :: "string \<Rightarrow> message_map \<Rightarrow> message_map result" where
  \<comment> \<open>the second loop of \<open>merge_history\<close>\<close>
  "link_to_parent k messages =
     (let parent_id = vget (as_dict (vget messages k)) ''parentId''
      in bind_res (key_in parent_id messages) (\<lambda>known.
           Inr (if known
                then (let s = py_str parent_id; p = as_dict (vget messages s)
                      in dict_set s (VDict (dict_set ''childrenIds''
                           (VList (list_or_empty (vget p ''childrenIds'') @ [VStr k])) p)) messages)
                else messages)))"

definition cleared_messages :: "message_map \<Rightarrow> message_map" where
  "cleared_messages messages =
     map (\<lambda>(k, v). (k, VDict (dict_set ''childrenIds'' (VList []) (as_dict v)))) (filter (\<lambda>(k, v). is_mapping v) messages)"

definition merge_history :: "pyval \<Rightarrow> pyval \<Rightarrow> pydict result" where
  "merge_history existing_history incoming_history =
     bind_res (dict_or_raise (py_or existing_history (VDict []))) (\<lambda>existing_h.
       bind_res (dict_or_raise (py_or incoming_history (VDict []))) (\<lambda>incoming_h.
         bind_res (mapping_or_raise (py_or (vget existing_h ''messages'') (VDict []))) (\<lambda>existing.
           bind_res (mapping_or_raise (py_or (vget incoming_h ''messages'') (VDict []))) (\<lambda>incoming.
             let cleared = cleared_messages (dict_merge existing incoming)
             in bind_res (fold_res link_to_parent (map fst cleared) cleared) (\<lambda>merged.
                  bind_res (key_in (vget incoming_h ''currentId'') merged) (\<lambda>new.
                    bind_res (if new then Inr True else key_in (vget existing_h ''currentId'') merged) (\<lambda>old.
                      let current_id = (if new then vget incoming_h ''currentId''
                                        else if old then vget existing_h ''currentId'' else VNone)
                      in Inr (dict_set ''currentId'' current_id (dict_set ''messages'' (VDict merged)
                           (dict_merge existing_h incoming_h))))))))))"

definition children_of :: "pydict \<Rightarrow> pyval list result" where
  \<comment> \<open>\<open>m.get('childrenIds') or []\<close>\<close>
  "children_of m = iterate (py_or (vget m ''childrenIds'') (VList []))"

fun grandchildren :: "message_map \<Rightarrow> string list \<Rightarrow> string list result" where
  "grandchildren messages [] = Inr []"
| "grandchildren messages (c # cs) =
     bind_res (dict_or_raise (vget messages c)) (\<lambda>child. bind_res (children_of child) (\<lambda>ids.
       bind_res (keys_present messages ids) (\<lambda>ks. bind_res (grandchildren messages cs) (\<lambda>rest. Inr (ks @ rest)))))"

definition set_parent :: "pyval \<Rightarrow> string \<Rightarrow> message_map \<Rightarrow> message_map result" where
  "set_parent parent_id k messages =
     bind_res (mapping_or_raise (vget messages k)) (\<lambda>m.
       Inr (dict_set k (VDict (dict_set ''parentId'' parent_id m)) messages))"

definition replace_child :: "string \<Rightarrow> string list \<Rightarrow> string \<Rightarrow> message_map \<Rightarrow> message_map result" where
  \<comment> \<open>the children of \<open>s\<close>: without the message that is deleted, with its grandchildren\<close>
  "replace_child message_id grandchild_ids s messages =
     bind_res (dict_or_raise (vget messages s)) (\<lambda>p. bind_res (children_of p) (\<lambda>ids.
       Inr (dict_set s (VDict (dict_set ''childrenIds''
         (VList (filter (\<lambda>i. i \<noteq> VStr message_id) ids @ map VStr grandchild_ids)) p)) messages)))"

fun root_ids :: "message_map \<Rightarrow> string list result" where
  "root_ids [] = Inr []"
| "root_ids ((k, v) # ms) =
     bind_res (dict_or_raise v) (\<lambda>m. bind_res (root_ids ms) (\<lambda>ks. Inr (if vget m ''parentId'' = VNone then k # ks else ks)))"

definition last_entry :: "pyval \<Rightarrow> pyval result" where
  \<comment> \<open>\<open>v[-1]\<close> of a value that is not empty\<close>
  "last_entry v =
     (case v of VList xs \<Rightarrow> Inr (last xs) | VStr s \<Rightarrow> Inr (VStr [last s]) | VDict d \<Rightarrow> Inl (OtherError ''KeyError'')
      | _ \<Rightarrow> Inl (TypeError ''object is not subscriptable''))"

function last_branch :: "message_map \<Rightarrow> string list \<Rightarrow> pyval \<Rightarrow> pyval \<Rightarrow> pyval result" where
  \<comment> \<open>the \<open>while\<close> loop; a key that is not in the messages has no children and ends it\<close>
  "last_branch messages visited current_id child_ids =
     (if \<not> truthy child_ids then Inr current_id
      else bind_res (last_entry child_ids) (\<lambda>i.
        if \<not> hashable i then Inl (TypeError ''unhashable type'')
        else case i of
               VStr s \<Rightarrow>
                 if s \<in> set visited then Inr current_id
                 else if s \<in> set (map fst messages)
                 then bind_res (dict_or_raise (vget messages s)) (\<lambda>m.
                        last_branch messages (s # visited) i (vget_default m ''childrenIds'' (VList [])))
                 else Inr i
             | _ \<Rightarrow> Inr i))"
  by pat_completeness auto
termination
proof (relation "measure (\<lambda>(messages, visited, cur, ids). card (set (map fst messages) - set visited))", goal_cases)
  case (2 messages visited current_id child_ids i s m)
  then have "set (map fst messages) - set (s # visited) \<subset> set (map fst messages) - set visited" by auto
  then show ?case by (simp add: psubset_card_mono)
qed simp

declare last_branch.simps [simp del]

definition move_up :: "pyval \<Rightarrow> string \<Rightarrow> string list \<Rightarrow> message_map \<Rightarrow> message_map result" where
  \<comment> \<open>the grandchildren of the message become children of its parent\<close>
  "move_up parent_id message_id grandchild_ids messages =
     bind_res (key_in parent_id messages) (\<lambda>known.
       bind_res (if known then replace_child message_id grandchild_ids (py_str parent_id) messages else Inr messages)
         (fold_res (set_parent parent_id) grandchild_ids))"

definition branch_start :: "message_map \<Rightarrow> pyval \<Rightarrow> pyval result" where
  \<comment> \<open>the children of a message, or the messages without parent\<close>
  "branch_start messages current_id =
     (if current_id = VNone then bind_res (root_ids messages) (\<lambda>ks. Inr (VList (map VStr ks)))
      else bind_res (key_in current_id messages) (\<lambda>known.
             if known
             then bind_res (dict_or_raise (vget messages (py_str current_id))) (\<lambda>p.
                    Inr (vget_default p ''childrenIds'' (VList [])))
             else Inr (VList [])))"

definition delete_message_from_history :: "pydict \<Rightarrow> string \<Rightarrow> (pydict \<times> string list) result" where
  \<comment> \<open>the history afterwards, and the messages that were deleted\<close>
  "delete_message_from_history history message_id =
     bind_res (dict_or_raise (py_or (vget history ''messages'') (VDict []))) (\<lambda>messages.
       case vget messages message_id of
         VDict m \<Rightarrow>
           bind_res (children_of m) (\<lambda>ids.
           bind_res (keys_present messages ids) (\<lambda>child_ids.
           bind_res (grandchildren messages child_ids) (\<lambda>grandchild_ids.
           bind_res (move_up (vget m ''parentId'') message_id grandchild_ids messages) (\<lambda>moved.
             let remaining = filter (\<lambda>(k, v). k \<notin> set (message_id # child_ids)) moved
             in bind_res (branch_start remaining (vget m ''parentId'')) (\<lambda>branch.
                bind_res (last_branch remaining [] (vget m ''parentId'') branch) (\<lambda>current_id.
                bind_res (key_in current_id remaining) (\<lambda>known.
                  Inr (dict_set ''currentId'' (if known then current_id else VNone)
                         (dict_set ''messages'' (VDict remaining) history), message_id # child_ids))))))))
       | _ \<Rightarrow> Inr (history, []))"

definition contains_key :: "string \<Rightarrow> pyval \<Rightarrow> bool result" where
  \<comment> \<open>\<open>k in v\<close>\<close>
  "contains_key k v =
     (case v of VList xs \<Rightarrow> Inr (VStr k \<in> set xs) | VDict d \<Rightarrow> Inr (k \<in> set (map fst d)) | VStr s \<Rightarrow> Inr (contains k s)
      | _ \<Rightarrow> Inl (TypeError ''argument is not iterable''))"

fun find_parent :: "string \<Rightarrow> message_map \<Rightarrow> pyval result" where
  \<comment> \<open>the first message that names the new one as a child\<close>
  "find_parent message_id [] = Inr VNone"
| "find_parent message_id ((k, v) # ms) =
     bind_res (dict_or_raise v) (\<lambda>m. bind_res (contains_key message_id (vget_default m ''childrenIds'' (VList []))) (\<lambda>yes.
       if yes then Inr (VStr k) else find_parent message_id ms))"

definition new_message_role :: "pydict \<Rightarrow> pyval \<Rightarrow> pyval result" where
  \<comment> \<open>of a message with the parent, if there is one\<close>
  "new_message_role message parent =
     bind_res (iterate (py_or (vget message ''output'') (VList []))) (\<lambda>output.
       let role = py_or (vget message ''role'') (first_role output)
       in if truthy role then Inr role
          else bind_res (if truthy parent then bind_res (dict_or_raise parent) (\<lambda>p. Inr (vget p ''role'')) else Inr VNone) (\<lambda>parent_role.
            Inr (if parent_role = VStr ''user'' then VStr ''assistant''
                 else if parent_role = VStr ''assistant'' then VStr ''user''
                 else VStr ''assistant'')))"

definition new_message :: "string \<Rightarrow> pyval \<Rightarrow> pyval \<Rightarrow> int \<Rightarrow> pydict \<Rightarrow> pydict" where
  "new_message message_id parent_id role now message =
     dict_set ''timestamp'' (py_or (vget message ''timestamp'') (VInt now)) (dict_set ''role'' role
       (dict_set ''childrenIds'' (VList (list_or_empty (vget message ''childrenIds'')))
         (dict_set ''parentId'' (if vget message ''parentId'' \<noteq> VNone then vget message ''parentId'' else parent_id)
           (dict_set ''id'' (py_or (vget message ''id'') (VStr message_id)) message))))"

definition upsert_message_to_history :: "pydict \<Rightarrow> string \<Rightarrow> pydict \<Rightarrow> int \<Rightarrow> (pydict \<times> pydict) result" where
  \<comment> \<open>the history afterwards, and the message as it is stored; \<open>now\<close> is the time\<close>
  "upsert_message_to_history history message_id message now =
     bind_res (dict_or_raise (vget_default history ''messages'' (VDict []))) (\<lambda>messages.
       bind_res
         (if message_id \<in> set (map fst messages)
          then bind_res (mapping_or_raise (vget messages message_id)) (\<lambda>old.
                 Inr (dict_set message_id (VDict (dict_merge old message)) messages, history))
          else bind_res (if vget message ''parentId'' = VNone then find_parent message_id messages
                         else Inr (vget message ''parentId'')) (\<lambda>parent_id.
               bind_res (if truthy parent_id then lookup_message messages parent_id else Inr VNone) (\<lambda>parent.
               bind_res (new_message_role message parent) (\<lambda>role.
                 Inr (dict_set message_id (VDict (new_message message_id parent_id role now message)) messages,
                      dict_set ''currentId'' (VStr message_id) (dict_setdefault ''messages'' (VDict []) history))))))
         (\<lambda>(messages, history).
            bind_res (add_child_id_to_parent messages (vget (as_dict (vget messages message_id)) ''parentId'') message_id) (\<lambda>(messages, changed).
              Inr (dict_set ''messages'' (VDict messages) history, as_dict (vget messages message_id)))))"

section \<open>The row of a chat\<close>

fun strip_null_bytes_deep :: "pyval \<Rightarrow> pyval" where
  "strip_null_bytes_deep (VStr s) = VStr (filter (\<lambda>c. c \<noteq> CHR 0x00) s)"
| "strip_null_bytes_deep (VList xs) = VList (map strip_null_bytes_deep xs)"
| "strip_null_bytes_deep (VDict d) =
     VDict (fold (\<lambda>(k, v) c. dict_set (filter (\<lambda>c. c \<noteq> CHR 0x00) k) v c)
       (map (\<lambda>(k, v). (k, strip_null_bytes_deep v)) d) [])"
| "strip_null_bytes_deep v = v"

fun has_null_byte :: "pyval \<Rightarrow> bool" where
  "has_null_byte (VStr s) = (CHR 0x00 \<in> set s)"
| "has_null_byte (VList xs) = list_ex has_null_byte xs"
| "has_null_byte (VDict d) = list_ex (\<lambda>(k, v). CHR 0x00 \<in> set k \<or> has_null_byte v) d"
| "has_null_byte v = False"

definition sanitize_data_for_db :: "pyval \<Rightarrow> pyval" where
  \<comment> \<open>the fast path looks for the escape of a null byte in the serialized value\<close>
  "sanitize_data_for_db v = (if has_null_byte v then strip_null_bytes_deep v else v)"

definition clean_dict :: "pydict \<Rightarrow> pydict" where
  "clean_dict d = as_dict (sanitize_data_for_db (VDict d))"

text \<open>The columns these operations read or write; the others of the row stay as they are.\<close>

record chat_row =
  ch_title :: pyval
  ch_chat :: pydict
  ch_current :: pyval
  ch_updated :: int

definition sanitize_chat_row :: "chat_row \<Rightarrow> chat_row" where
  "sanitize_chat_row row =
     row\<lparr>ch_title := (if truthy (ch_title row) then sanitize_data_for_db (ch_title row) else ch_title row),
         ch_chat := clean_dict (ch_chat row)\<rparr>"

definition store_chat :: "pydict \<Rightarrow> chat_row \<Rightarrow> chat_row" where
  "store_chat chat row =
     row\<lparr>ch_chat := chat, ch_title := vget_default chat ''title'' (VStr ''New Chat''),
         ch_current := get_current_message_id chat\<rparr>"

definition unless_raised :: "'a \<Rightarrow> 'a result \<Rightarrow> 'a" where
  \<comment> \<open>\<open>except Exception\<close>: nothing is stored\<close>
  "unless_raised before r = (case r of Inl e \<Rightarrow> before | Inr after \<Rightarrow> after)"

definition chat_history :: "pydict \<Rightarrow> pydict result" where
  "chat_history chat = dict_or_raise (vget_default chat ''history'' (VDict []))"

definition upsert_message_to_chat :: "chat_row \<Rightarrow> string \<Rightarrow> pydict \<Rightarrow> bool \<Rightarrow> int \<Rightarrow> chat_row \<times> pydict option" where
  \<comment> \<open>the row afterwards, and the message written to the table of messages\<close>
  "upsert_message_to_chat row message_id message touch now =
     (let output_text = get_output_text (vget message ''output'');
          message = clean_dict (if truthy (vget message ''content'') \<or> output_text = [] then message
                                else dict_set ''content'' (VStr output_text) message);
          message_id = filter (\<lambda>c. c \<noteq> CHR 0x00) message_id
      in unless_raised (row, None)
           (bind_res (repair_chat_current_id (ch_chat (sanitize_chat_row row))) (\<lambda>(chat, repaired).
              bind_res (chat_history chat) (\<lambda>history.
              bind_res (upsert_message_to_history history message_id message now) (\<lambda>(history, saved).
                let row = store_chat (dict_set ''history'' (VDict history) chat) (sanitize_chat_row row)
                in Inr (if touch then row\<lparr>ch_updated := now\<rparr> else row, Some saved))))))"

definition writable_messages :: "message_map \<Rightarrow> message_map" where
  \<comment> \<open>the messages \<open>backfill_messages_by_chat_id\<close> writes\<close>
  "writable_messages messages =
     filter (\<lambda>(k, v). case v of VDict m \<Rightarrow> truthy (vget m ''role'') | _ \<Rightarrow> False) messages"

definition delete_message_from_chat :: "chat_row \<Rightarrow> string \<Rightarrow> int \<Rightarrow> chat_row \<times> message_map \<times> string list" where
  \<comment> \<open>the row afterwards, the messages written to and deleted from the table of messages\<close>
  "delete_message_from_chat row message_id now =
     unless_raised (row, [], [])
       (bind_res (repair_chat_current_id (ch_chat (sanitize_chat_row row))) (\<lambda>(chat, repaired).
          bind_res (chat_history chat) (\<lambda>history.
          bind_res (delete_message_from_history history message_id) (\<lambda>(history, deleted_ids).
            if deleted_ids = [] then Inr (store_chat chat (sanitize_chat_row row), [], [])
            else Inr ((store_chat (dict_set ''history'' (VDict history) chat) (sanitize_chat_row row))\<lparr>ch_updated := now\<rparr>,
                      writable_messages (as_dict (py_or (vget history ''messages'') (VDict []))), deleted_ids)))))"

definition update_chat_by_id :: "chat_row \<Rightarrow> pydict \<Rightarrow> bool \<Rightarrow> int \<Rightarrow> chat_row" where
  "update_chat_by_id row chat touch now =
     unless_raised row
       (bind_res (if ''history'' \<in> set (map fst chat)
                  then bind_res (merge_history (vget (ch_chat row) ''history'') (vget chat ''history'')) (\<lambda>h.
                    Inr (dict_set ''history'' (VDict h) (dict_merge (ch_chat row) chat)))
                  else Inr (dict_merge (ch_chat row) chat)) (\<lambda>updated.
          let updated = clean_dict updated;
              row = row\<lparr>ch_chat := updated, ch_title := vget_default updated ''title'' (VStr ''New Chat'')\<rparr>;
              row = (if list_ex (\<lambda>k. k \<in> set (map fst chat)) [''history'', ''messages'', ''currentId'', ''branchPointMessageId'']
                     then row\<lparr>ch_current := get_current_message_id updated\<rparr> else row)
          in Inr (if touch then row\<lparr>ch_updated := now\<rparr> else row)))"

definition add_message_status :: "chat_row \<Rightarrow> string \<Rightarrow> pydict \<Rightarrow> chat_row" where
  "add_message_status row message_id status =
     unless_raised row
       (bind_res (repair_chat_current_id (ch_chat (sanitize_chat_row row))) (\<lambda>(chat, repaired).
          bind_res (chat_history chat) (\<lambda>history.
          bind_res (contains_key message_id (vget_default history ''messages'' (VDict []))) (\<lambda>known.
          bind_res
            (if known
             then bind_res (mapping_or_raise (vget history ''messages'')) (\<lambda>messages.
                  bind_res (dict_or_raise (vget messages message_id)) (\<lambda>m.
                    case vget_default m ''statusHistory'' (VList []) of
                      VList xs \<Rightarrow> Inr (dict_set ''messages'' (VDict (dict_set message_id
                        (VDict (dict_set ''statusHistory'' (VList (xs @ [VDict (clean_dict status)])) m)) messages)) history)
                    | _ \<Rightarrow> Inl (OtherError ''AttributeError'')))
             else Inr history) (\<lambda>history.
               Inr (store_chat (dict_set ''history'' (VDict history) chat) (sanitize_chat_row row)))))))"

definition read_chat :: "chat_row \<Rightarrow> chat_row option" where
  \<comment> \<open>\<open>get_chat_by_id\<close>: the row as it is read and stored\<close>
  "read_chat row =
     unless_raised None
       (bind_res (repair_chat_current_id (ch_chat row)) (\<lambda>(chat, repaired).
          Inr (Some (sanitize_chat_row
            (if repaired then row\<lparr>ch_chat := chat, ch_current := get_current_message_id chat\<rparr> else row)))))"

definition stored_messages :: "chat_row \<Rightarrow> message_map result" where
  \<comment> \<open>\<open>chat.chat.get('history', {}).get('messages', {}) or {}\<close>\<close>
  "stored_messages chat =
     bind_res (chat_history (ch_chat chat)) (\<lambda>history.
       mapping_or_raise (py_or (vget history ''messages'') (VDict [])))"

definition get_messages_map :: "message_map option \<Rightarrow> chat_row option \<Rightarrow> (message_map option \<times> message_map) result" where
  \<comment> \<open>from the table of messages and the row of the chat: the messages, and those written to the table\<close>
  "get_messages_map rows row =
     (let chat = Option.bind row read_chat
      in case rows of
           Some messages \<Rightarrow>
             bind_res (get_unresolved_parent_ids messages) (\<lambda>unresolved.
               case chat of
                 None \<Rightarrow> Inr (Some messages, [])
               | Some c \<Rightarrow>
                   if unresolved = [] then Inr (Some messages, [])
                   else bind_res (stored_messages c) (\<lambda>history_messages.
                          let missing = filter (\<lambda>(k, v). VStr k \<in> set unresolved) history_messages
                          in Inr (Some (dict_merge messages missing), writable_messages missing)))
         | None \<Rightarrow> (case chat of
             None \<Rightarrow> Inr (None, [])
           | Some c \<Rightarrow> bind_res (stored_messages c) (\<lambda>history_messages.
               Inr (Some history_messages, writable_messages history_messages))))"

end
