(* ===== verification/ChatTree.thy ===== *)
theory ChatTree
  imports ChatHistory
begin

text \<open>
  The history of a chat is a forest: parents and children agree, no parent is missing, and every message
  descends from a root. Adding, changing and deleting messages keep it one.
\<close>

section \<open>Forests of messages\<close>

definition parent_of :: "message_map \<Rightarrow> string \<Rightarrow> pyval" where
  "parent_of messages k = vget (as_dict (vget messages k)) ''parentId''"

definition kids_of :: "message_map \<Rightarrow> string \<Rightarrow> pyval list" where
  "kids_of messages k = list_or_empty (vget (as_dict (vget messages k)) ''childrenIds'')"

definition kid_ids :: "message_map \<Rightarrow> string \<Rightarrow> string list" where
  "kid_ids messages k = map py_str (kids_of messages k)"

definition keys_of :: "message_map \<Rightarrow> string set" where
  "keys_of messages = set (map fst messages)"

definition shaped :: "message_map \<Rightarrow> bool" where
  \<comment> \<open>messages are dictionaries with a list of children\<close>
  "shaped messages \<longleftrightarrow> distinct (map fst messages) \<and> [] \<notin> keys_of messages \<and>
     (\<forall>k\<in>keys_of messages. \<exists>d cs. map_of messages k = Some (VDict d) \<and> map_of d ''childrenIds'' = Some (VList cs))"

definition linked :: "message_map \<Rightarrow> bool" where
  "linked messages \<longleftrightarrow> shaped messages \<and>
     (\<forall>k\<in>keys_of messages. parent_of messages k = VNone \<or> (\<exists>p\<in>keys_of messages. parent_of messages k = VStr p)) \<and>
     (\<forall>k\<in>keys_of messages. distinct (kids_of messages k) \<and>
        set (kids_of messages k) = VStr ` {c \<in> keys_of messages. parent_of messages c = VStr k})"

definition descending :: "(string \<Rightarrow> nat) \<Rightarrow> message_map \<Rightarrow> bool" where
  \<comment> \<open>ranks grow from parents to children: no message is its own ancestor\<close>
  "descending rank messages \<longleftrightarrow>
     (\<forall>c\<in>keys_of messages. \<forall>p. parent_of messages c = VStr p \<longrightarrow> rank p < rank c)"

lemma shapedE:
  assumes "shaped messages" "k \<in> keys_of messages"
  obtains d where "map_of messages k = Some (VDict d)" "vget messages k = VDict d"
    "children_of d = Inr (kids_of messages k)" "parent_of messages k = vget d ''parentId''"
    "map_of d ''childrenIds'' = Some (VList (kids_of messages k))"
proof -
  obtain d cs where d: "map_of messages k = Some (VDict d)" "map_of d ''childrenIds'' = Some (VList cs)"
    using assms unfolding shaped_def by blast
  have v: "vget messages k = VDict d" "vget d ''childrenIds'' = VList cs" using d by (simp_all add: vget_def)
  show ?thesis
    by (rule that [of d])
      (use d v in \<open>simp_all add: kids_of_def parent_of_def list_or_empty_def children_of_def py_or_def iterate_def\<close>)
qed

lemma key_in_VStr [simp]: "key_in (VStr s) messages = Inr (s \<in> keys_of messages)" "key_in VNone messages = Inr False"
  by (simp_all add: key_in_def keys_of_def)

lemma linked_kids:
  assumes "linked messages" "k \<in> keys_of messages"
  shows "kids_of messages k = map VStr (kid_ids messages k)" "distinct (kid_ids messages k)"
    "set (kid_ids messages k) = {c \<in> keys_of messages. parent_of messages c = VStr k}"
proof -
  have kids: "distinct (kids_of messages k)" "set (kids_of messages k) = VStr ` {c \<in> keys_of messages. parent_of messages c = VStr k}"
    using assms unfolding linked_def by blast+
  show eq: "kids_of messages k = map VStr (kid_ids messages k)"
    unfolding kid_ids_def map_map by (rule map_idI [symmetric]) (use kids(2) in auto)
  have "distinct (map VStr (kid_ids messages k))" using kids(1) eq by simp
  then show "distinct (kid_ids messages k)" by (simp add: distinct_map)
  have "VStr ` set (kid_ids messages k) = VStr ` {c \<in> keys_of messages. parent_of messages c = VStr k}"
    using kids(2) unfolding eq by simp
  then show "set (kid_ids messages k) = {c \<in> keys_of messages. parent_of messages c = VStr k}"
    by (metis inj_image_eq_iff injI pyval.inject(4))
qed

lemma keys_present_VStr: "keys_present messages (map VStr ks) = Inr (filter (\<lambda>k. k \<in> keys_of messages) ks)"
  by (induction ks) auto

lemma grandchildren_linked:
  "linked messages \<Longrightarrow> set ks \<subseteq> keys_of messages \<Longrightarrow>
   grandchildren messages ks = Inr (concat (map (kid_ids messages) ks))"
proof (induction ks)
  case (Cons k ks)
  have "shaped messages" using Cons.prems(1) by (simp add: linked_def)
  moreover have k: "k \<in> keys_of messages" using Cons.prems(2) by simp
  ultimately obtain d where d: "vget messages k = VDict d" "children_of d = Inr (kids_of messages k)"
    by (rule shapedE)
  note kids = linked_kids [OF Cons.prems(1) k]
  have "keys_present messages (kids_of messages k) = Inr (kid_ids messages k)"
    unfolding kids(1) keys_present_VStr using kids(3) by (auto simp: filter_id_conv)
  then show ?case using Cons by (simp add: d dict_or_raise_def)
qed simp

text \<open>Changing one field of one message.\<close>

lemma keys_of_dict_set: "keys_of (dict_set k v messages) = insert k (keys_of messages)"
  by (simp add: keys_of_def fst_dict_set)

lemma dict_set_facts:
  "parent_of (dict_set k (VDict d) messages) x = (if x = k then vget d ''parentId'' else parent_of messages x)"
  "kids_of (dict_set k (VDict d) messages) x = (if x = k then list_or_empty (vget d ''childrenIds'') else kids_of messages x)"
  by (auto simp: parent_of_def kids_of_def vget_def)

lemma shaped_dict_set:
  assumes "shaped messages" "map_of d ''childrenIds'' = Some (VList cs)" "k \<noteq> []"
  shows "shaped (dict_set k (VDict d) messages)"
  using assms distinct_dict_set [of messages k "VDict d"]
  by (auto simp: shaped_def keys_of_dict_set)

lemma set_parent_facts:
  assumes "shaped messages" "k \<in> keys_of messages"
  obtains m where "set_parent p k messages = Inr m" "shaped m" "keys_of m = keys_of messages"
    "\<And>x. parent_of m x = (if x = k then p else parent_of messages x)" "\<And>x. kids_of m x = kids_of messages x"
proof -
  obtain d where d: "map_of messages k = Some (VDict d)" "map_of d ''childrenIds'' = Some (VList (kids_of messages k))"
    using assms by (rule shapedE)
  then have v: "vget messages k = VDict d" "vget d ''childrenIds'' = VList (kids_of messages k)"
    by (simp_all only: vget_def option.case)
  let ?m = "dict_set k (VDict (dict_set ''parentId'' p d)) messages"
  have "k \<noteq> []" using assms by (auto simp: shaped_def)
  then have "shaped ?m" by (intro shaped_dict_set [OF assms(1)]) (simp_all add: d)
  moreover have "keys_of ?m = keys_of messages" using assms(2) by (auto simp: keys_of_dict_set)
  ultimately show ?thesis
    by (intro that [of ?m])
      (simp_all add: set_parent_def mapping_or_raise_def d v dict_set_facts vget_dict_set list_or_empty_def)
qed

lemma fold_set_parent:
  "shaped messages \<Longrightarrow> set ks \<subseteq> keys_of messages \<Longrightarrow>
   \<exists>m. fold_res (set_parent p) ks messages = Inr m \<and> shaped m \<and> keys_of m = keys_of messages \<and>
     (\<forall>x. parent_of m x = (if x \<in> set ks then p else parent_of messages x)) \<and> (\<forall>x. kids_of m x = kids_of messages x)"
proof (induction ks arbitrary: messages)
  case (Cons k ks)
  obtain m where m: "set_parent p k messages = Inr m" "shaped m" "keys_of m = keys_of messages"
    "\<And>x. parent_of m x = (if x = k then p else parent_of messages x)" "\<And>x. kids_of m x = kids_of messages x"
    using set_parent_facts [of messages k p] Cons.prems by (metis list.set_intros(1) subset_iff)
  obtain m' where "fold_res (set_parent p) ks m = Inr m'" "shaped m'" "keys_of m' = keys_of m"
     "\<forall>x. parent_of m' x = (if x \<in> set ks then p else parent_of m x)" "\<forall>x. kids_of m' x = kids_of m x"
    using Cons.IH [OF m(2)] Cons.prems(2) m(3) by auto
  then show ?case using m by (intro exI [of _ m']) auto
qed simp

lemma replace_child_facts:
  assumes "shaped messages" "s \<in> keys_of messages"
  obtains m where "replace_child k gs s messages = Inr m" "shaped m" "keys_of m = keys_of messages"
    "\<And>x. parent_of m x = parent_of messages x"
    "\<And>x. kids_of m x = (if x = s then filter (\<lambda>i. i \<noteq> VStr k) (kids_of messages s) @ map VStr gs else kids_of messages x)"
proof -
  obtain d where d: "vget messages s = VDict d" "children_of d = Inr (kids_of messages s)" "parent_of messages s = vget d ''parentId''"
    using assms by (rule shapedE)
  let ?d = "dict_set ''childrenIds'' (VList (filter (\<lambda>i. i \<noteq> VStr k) (kids_of messages s) @ map VStr gs)) d"
  let ?m = "dict_set s (VDict ?d) messages"
  have "s \<noteq> []" using assms by (auto simp: shaped_def)
  then have "shaped ?m" by (intro shaped_dict_set [OF assms(1)]) simp_all
  moreover have "keys_of ?m = keys_of messages" using assms(2) by (auto simp: keys_of_dict_set)
  ultimately show ?thesis
    by (intro that [of ?m]) (simp_all add: replace_child_def dict_or_raise_def d dict_set_facts vget_dict_set list_or_empty_def)
qed

lemma filter_facts:
  fixes P :: "string \<Rightarrow> bool"
  assumes "shaped messages"
  defines "m \<equiv> filter (\<lambda>(k, v). P k) messages"
  shows "shaped m" "keys_of m = {k \<in> keys_of messages. P k}"
    and "k \<in> keys_of m \<Longrightarrow> parent_of m k = parent_of messages k" "k \<in> keys_of m \<Longrightarrow> kids_of m k = kids_of messages k"
proof -
  show keys: "keys_of m = {k \<in> keys_of messages. P k}" by (force simp: keys_of_def m_def)
  have look: "map_of m k = map_of messages k" if "k \<in> keys_of m" for k
    using that unfolding keys by (simp add: m_def map_of_filter_keys)
  show "k \<in> keys_of m \<Longrightarrow> parent_of m k = parent_of messages k" "k \<in> keys_of m \<Longrightarrow> kids_of m k = kids_of messages k"
    by (simp_all add: parent_of_def kids_of_def vget_def look)
  have "distinct (map fst m)" using assms(1) by (simp add: shaped_def m_def distinct_map_filter)
  moreover have "\<forall>k\<in>keys_of m. \<exists>d cs. map_of m k = Some (VDict d) \<and> map_of d ''childrenIds'' = Some (VList cs)"
    using assms(1) look keys unfolding shaped_def by (metis (no_types, lifting) mem_Collect_eq)
  ultimately show "shaped m" using assms(1) keys by (simp add: shaped_def)
qed

lemma root_ids_facts:
  assumes "shaped messages"
  shows "root_ids messages = Inr (filter (\<lambda>k. parent_of messages k = VNone) (map fst messages))"
proof -
  have "root_ids ms = Inr (filter (\<lambda>k. parent_of messages k = VNone) (map fst ms))"
    if "\<And>k v. (k, v) \<in> set ms \<Longrightarrow> is_mapping v \<and> vget messages k = v" for ms
    using that
  proof (induction ms rule: root_ids.induct)
    case (2 k v ms)
    have "is_mapping v" "vget messages k = v" using "2.prems" by auto
    then obtain d where d: "v = VDict d" "parent_of messages k = vget d ''parentId''"
      by (auto simp: is_mapping_iff parent_of_def)
    have "root_ids ms = Inr (filter (\<lambda>k. parent_of messages k = VNone) (map fst ms))"
      by (rule "2.IH") (use "2.prems" d in \<open>auto simp: dict_or_raise_def\<close>)
    then show ?case using d(2) by (simp add: d(1) dict_or_raise_def)
  qed simp
  moreover have "is_mapping v \<and> vget messages k = v" if "(k, v) \<in> set messages" for k v
  proof -
    have "k \<in> keys_of messages" using that by (force simp: keys_of_def)
    then obtain d where "vget messages k = VDict d" "map_of messages k = Some (VDict d)" using assms by (blast elim: shapedE)
    moreover have "map_of messages k = Some v" using assms that by (simp add: shaped_def)
    ultimately show ?thesis by simp
  qed
  ultimately show ?thesis by blast
qed

text \<open>Following the last child ends at a message without children.\<close>

lemma last_branch_leaf:
  assumes "linked messages" "descending rank messages"
  shows "set cs \<subseteq> keys_of messages \<Longrightarrow> \<forall>v\<in>set visited. \<forall>c\<in>set cs. rank v < rank c \<Longrightarrow>
    \<exists>r. last_branch messages visited cur (VList (map VStr cs)) = Inr r \<and>
      (if cs = [] then r = cur else \<exists>l\<in>keys_of messages. r = VStr l \<and> kids_of messages l = [])"
proof (induction "card (keys_of messages - set visited)" arbitrary: visited cs cur rule: less_induct)
  case less
  show ?case
  proof (cases "cs = []")
    case True
    then show ?thesis by (simp add: last_branch.simps)
  next
    case False
    let ?l = "last cs"
    have l: "?l \<in> keys_of messages" "?l \<in> set cs" using less.prems(1) False by auto
    then have new: "?l \<notin> set visited" using less.prems(2) by auto
    have "shaped messages" using assms(1) by (simp add: linked_def)
    then obtain d where d: "vget messages ?l = VDict d" "map_of d ''childrenIds'' = Some (VList (kids_of messages ?l))"
      using l(1) by (rule shapedE)
    note kids = linked_kids [OF assms(1) l(1)]
    have step: "last_branch messages visited cur (VList (map VStr cs)) =
        last_branch messages (?l # visited) (VStr ?l) (VList (map VStr (kid_ids messages ?l)))"
      using False new l(1) d kids(1)
      by (subst last_branch.simps) (simp add: last_entry_def last_map dict_or_raise_def vget_default_def keys_of_def)
    have "card (keys_of messages - set (?l # visited)) < card (keys_of messages - set visited)"
      using l(1) new by (intro psubset_card_mono) (auto simp: keys_of_def)
    moreover have "set (kid_ids messages ?l) \<subseteq> keys_of messages" using kids(3) by auto
    moreover have "\<forall>v\<in>set (?l # visited). \<forall>c\<in>set (kid_ids messages ?l). rank v < rank c"
    proof (intro ballI)
      fix v c assume v: "v \<in> set (?l # visited)" "c \<in> set (kid_ids messages ?l)"
      have "rank ?l < rank c" using v(2) kids(3) assms(2) by (auto simp: descending_def)
      moreover have "rank v \<le> rank ?l" using v(1) less.prems(2) l(2) by (auto intro: less_imp_le)
      ultimately show "rank v < rank c" by simp
    qed
    ultimately obtain r where "last_branch messages (?l # visited) (VStr ?l) (VList (map VStr (kid_ids messages ?l))) = Inr r"
        "if kid_ids messages ?l = [] then r = VStr ?l else \<exists>x\<in>keys_of messages. r = VStr x \<and> kids_of messages x = []"
      using less.hyps by blast
    then show ?thesis using step False l(1) kids(1) by (auto split: if_splits)
  qed
qed

section \<open>Deleting a message\<close>

lemma distinct_concat_map:
  "distinct xs \<Longrightarrow> (\<And>x. x \<in> set xs \<Longrightarrow> distinct (f x)) \<Longrightarrow>
   (\<And>x y. x \<in> set xs \<Longrightarrow> y \<in> set xs \<Longrightarrow> x \<noteq> y \<Longrightarrow> set (f x) \<inter> set (f y) = {}) \<Longrightarrow> distinct (concat (map f xs))"
  by (induction xs) auto

text \<open>
  The message and its children go; the children of those move up to the parent of the message.
\<close>

lemma pruned_forest:
  assumes l: "linked messages" and rank: "descending rank messages" and k: "k \<in> keys_of messages" and m: "shaped m"
    and keys: "keys_of m = keys_of messages - insert k (set (kid_ids messages k))"
    and parents: "\<And>x. x \<in> keys_of m \<Longrightarrow> parent_of m x =
      (if x \<in> set (concat (map (kid_ids messages) (kid_ids messages k))) then parent_of messages k else parent_of messages x)"
    and kids: "\<And>x. x \<in> keys_of m \<Longrightarrow> kids_of m x =
      (if parent_of messages k = VStr x
       then filter (\<lambda>i. i \<noteq> VStr k) (kids_of messages x) @ map VStr (concat (map (kid_ids messages) (kid_ids messages k)))
       else kids_of messages x)"
  shows "linked m" "descending rank m"
proof -
  let ?kids = "kid_ids messages k"
  define G where "G = concat (map (kid_ids messages) (kid_ids messages k))"
  note parents = parents [folded G_def] and kids = kids [folded G_def]
  have K: "set ?kids = {c \<in> keys_of messages. parent_of messages c = VStr k}" by (rule linked_kids(3) [OF l k])
  have G: "set G = {g \<in> keys_of messages. parent_of messages g \<in> VStr ` set ?kids}"
    using linked_kids(3) [OF l] K unfolding G_def by auto
  have up: "rank p < rank c" if "c \<in> keys_of messages" "parent_of messages c = VStr p" for c p
    using rank that by (auto simp: descending_def)
  have known: "parent_of messages x = VNone \<or> (\<exists>p\<in>keys_of messages. parent_of messages x = VStr p)" if "x \<in> keys_of messages" for x
    using l that unfolding linked_def by blast
  have sub: "keys_of m \<subseteq> keys_of messages" using keys by auto
  have kp: "p \<in> keys_of m" if "parent_of messages k = VStr p" for p
  proof -
    have "p \<in> keys_of messages" using known [OF k] that by auto
    moreover have "p \<noteq> k" "p \<notin> set ?kids" using up [OF k that] up K by fastforce+
    ultimately show ?thesis by (simp add: keys)
  qed
  have same: "p \<in> keys_of m" if "x \<in> keys_of m" "x \<notin> set G" "parent_of messages x = VStr p" for x p
  proof -
    have "x \<in> keys_of messages" using that(1) sub by auto
    then have "p \<in> keys_of messages" "p \<notin> set ?kids" using that(2,3) known [of x] G by auto
    moreover have "p \<noteq> k" using that(1,3) K \<open>x \<in> keys_of messages\<close> by (auto simp: keys)
    ultimately show ?thesis by (simp add: keys)
  qed
  have "parent_of m x = VNone \<or> (\<exists>p\<in>keys_of m. parent_of m x = VStr p)" if "x \<in> keys_of m" for x
    using that parents [OF that] known [of x] known [OF k] kp same [OF that] sub by (cases "x \<in> set G") auto
  moreover have "distinct (kids_of m x) \<and> set (kids_of m x) = VStr ` {c \<in> keys_of m. parent_of m c = VStr x}" if x: "x \<in> keys_of m" for x
  proof -
    have xk: "x \<in> keys_of messages" "x \<noteq> k" "x \<notin> set ?kids" using x by (auto simp: keys)
    note X = linked_kids [OF l xk(1)]
    have Gm: "set G \<subseteq> keys_of m"
    proof
      fix g assume g: "g \<in> set G"
      then obtain c where "c \<in> set ?kids" "parent_of messages g = VStr c" "g \<in> keys_of messages" by (auto simp: G)
      then have "rank k < rank c" "rank c < rank g" using up K by auto
      moreover have "rank c' > rank k \<and> parent_of messages c' = VStr k" if "c' \<in> set ?kids" for c' using that up K by auto
      ultimately show "g \<in> keys_of m" using \<open>g \<in> keys_of messages\<close> \<open>parent_of messages g = VStr c\<close> by (auto simp: keys)
    qed
    have child: "c \<in> keys_of m \<and> parent_of m c = VStr x \<longleftrightarrow>
        (parent_of messages k = VStr x \<and> c \<in> set G \<or> c \<in> set (kid_ids messages x) \<and> c \<noteq> k)" for c
    proof (cases "c \<in> set G")
      case True
      then have "parent_of messages c \<noteq> VStr x" using xk(3) G by auto
      then show ?thesis using True parents [of c] Gm X(3) by auto
    next
      case False
      have "c \<notin> set ?kids" if "parent_of messages c = VStr x" using that xk(2) K by auto
      moreover have "c \<in> keys_of m \<longleftrightarrow> c \<in> keys_of messages \<and> c \<noteq> k \<and> c \<notin> set ?kids" by (simp add: keys)
      moreover have "c \<in> set (kid_ids messages x) \<longleftrightarrow> c \<in> keys_of messages \<and> parent_of messages c = VStr x" by (simp add: X(3))
      moreover have "parent_of m c = parent_of messages c" if "c \<in> keys_of m" using parents [OF that] False by simp
      ultimately show ?thesis using False by metis
    qed
    have "set (kids_of m x) = VStr ` {c. parent_of messages k = VStr x \<and> c \<in> set G \<or> c \<in> set (kid_ids messages x) \<and> c \<noteq> k}"
    proof (cases "parent_of messages k = VStr x")
      case True
      then show ?thesis unfolding kids [OF x] X(1) by auto
    next
      case False
      then have "k \<notin> set (kid_ids messages x)" using X(3) by auto
      then show ?thesis using False unfolding kids [OF x] X(1) by auto
    qed
    moreover have "distinct (kids_of m x)"
    proof (cases "parent_of messages k = VStr x")
      case True
      have "distinct G"
        unfolding G_def
      proof (rule distinct_concat_map)
        fix c assume c: "c \<in> set ?kids"
        then have ck: "c \<in> keys_of messages" using K by auto
        show "distinct (kid_ids messages c)" by (rule linked_kids(2) [OF l ck])
        fix c' assume "c' \<in> set ?kids" "c \<noteq> c'"
        then show "set (kid_ids messages c) \<inter> set (kid_ids messages c') = {}"
          using linked_kids(3) [OF l ck] linked_kids(3) [OF l, of c'] K by auto
      qed (rule linked_kids(2) [OF l k])
      moreover have "set (kid_ids messages x) \<inter> set G = {}" using X(3) G xk(3) by auto
      ultimately show ?thesis
        using True X(2) unfolding kids [OF x] X(1) by (auto simp: distinct_map inj_on_def intro: distinct_filter)
    next
      case False
      then show ?thesis using X(1,2) unfolding kids [OF x] by (simp add: distinct_map inj_on_def)
    qed
    ultimately show ?thesis using child by auto
  qed
  ultimately show "linked m" using m unfolding linked_def by blast
  show "descending rank m"
    unfolding descending_def
  proof (intro ballI allI impI)
    fix c p assume c: "c \<in> keys_of m" "parent_of m c = VStr p"
    show "rank p < rank c"
    proof (cases "c \<in> set G")
      case True
      then obtain d where "d \<in> set ?kids" "parent_of messages c = VStr d" "c \<in> keys_of messages" by (auto simp: G)
      then have "rank k < rank d" "rank d < rank c" using up K by auto
      moreover have "rank p < rank k" using up [OF k] c True parents [OF c(1)] by simp
      ultimately show ?thesis by simp
    next
      case False
      then show ?thesis using up [of c p] c parents [OF c(1)] sub by auto
    qed
  qed
qed

lemma delete_keeps_forest:
  assumes l: "linked messages" and rank: "descending rank messages" and k: "k \<in> keys_of messages"
    and h: "vget history ''messages'' = VDict messages"
  obtains h' m where "delete_message_from_history history k = Inr (h', k # kid_ids messages k)"
    "vget h' ''messages'' = VDict m" "linked m" "descending rank m"
    "keys_of m = keys_of messages - insert k (set (kid_ids messages k))"
    "\<And>x. x \<in> keys_of m \<Longrightarrow> parent_of m x =
       (if parent_of messages x \<in> VStr ` set (kid_ids messages k) then parent_of messages k else parent_of messages x)"
    "if m = [] then vget h' ''currentId'' = VNone
     else \<exists>c\<in>keys_of m. vget h' ''currentId'' = VStr c \<and> kids_of m c = []"
proof -
  let ?kids = "kid_ids messages k" and ?p = "parent_of messages k"
  define G where "G = concat (map (kid_ids messages) ?kids)"
  define D where "D = k # ?kids"
  have sh: "shaped messages" using l by (simp add: linked_def)
  then obtain d where d: "vget messages k = VDict d" "children_of d = Inr (kids_of messages k)" "?p = vget d ''parentId''"
    using k by (rule shapedE)
  note K = linked_kids [OF l k]
  have subK: "set ?kids \<subseteq> keys_of messages" using K(3) by auto
  have present: "keys_present messages (kids_of messages k) = Inr ?kids"
    unfolding K(1) keys_present_VStr using K(3) by (auto simp: filter_id_conv)
  have grand: "grandchildren messages ?kids = Inr G" unfolding G_def by (rule grandchildren_linked [OF l subK])
  have G: "set G = {g \<in> keys_of messages. parent_of messages g \<in> VStr ` set ?kids}"
    using linked_kids(3) [OF l] K(3) unfolding G_def by auto
  have known: "?p = VNone \<or> (\<exists>p\<in>keys_of messages. ?p = VStr p)" using l k unfolding linked_def by blast
  have yes: "key_in ?p messages = Inr (?p \<noteq> VNone)" using known by auto
  obtain m1 where m1: "(if ?p \<noteq> VNone then replace_child k G (py_str ?p) messages else Inr messages) = Inr m1" "shaped m1"
      "keys_of m1 = keys_of messages" "\<And>x. parent_of m1 x = parent_of messages x"
      "\<And>x. kids_of m1 x = (if ?p = VStr x then filter (\<lambda>i. i \<noteq> VStr k) (kids_of messages x) @ map VStr G else kids_of messages x)"
  proof (cases "?p = VNone")
    case True
    then show ?thesis using that [of messages] sh by simp
  next
    case False
    then obtain p where p: "p \<in> keys_of messages" "?p = VStr p" using known by blast
    obtain m1 where "replace_child k G p messages = Inr m1" "shaped m1" "keys_of m1 = keys_of messages"
      "\<And>x. parent_of m1 x = parent_of messages x"
      "\<And>x. kids_of m1 x = (if x = p then filter (\<lambda>i. i \<noteq> VStr k) (kids_of messages p) @ map VStr G else kids_of messages x)"
      using sh p(1) by (rule replace_child_facts [where k = k and gs = G]) blast
    then show ?thesis using that [of m1] p(2) by auto
  qed
  obtain m2 where m2: "fold_res (set_parent ?p) G m1 = Inr m2" "shaped m2" "keys_of m2 = keys_of messages"
      "\<And>x. parent_of m2 x = (if x \<in> set G then ?p else parent_of messages x)" "\<And>x. kids_of m2 x = kids_of m1 x"
    using fold_set_parent [OF m1(2), of G ?p] G m1(3,4) by auto
  define m where "m = filter (\<lambda>(i, v). i \<notin> set D) m2"
  note pruned = filter_facts [OF m2(2), where P = "\<lambda>i. i \<notin> set D", folded m_def]
  have keys: "keys_of m = keys_of messages - insert k (set ?kids)" using pruned(2) m2(3) by (auto simp: D_def)
  have forest: "linked m" "descending rank m"
    by (rule pruned_forest [OF l rank k pruned(1) keys]; use pruned(3,4) m2(4,5) m1(5) in \<open>simp add: G_def\<close>)+
  obtain ids where ids: "branch_start m ?p = Inr (VList (map VStr ids))"
      "set ids \<subseteq> keys_of m" "?p = VNone \<Longrightarrow> set ids = {x \<in> keys_of m. parent_of m x = VNone}"
      "?p \<noteq> VNone \<Longrightarrow> \<exists>p\<in>keys_of m. ?p = VStr p \<and> kids_of m p = map VStr ids"
  proof (cases "?p = VNone")
    case True
    then show ?thesis
      using that [of "filter (\<lambda>x. parent_of m x = VNone) (map fst m)"] root_ids_facts [OF pruned(1)]
      by (auto simp: branch_start_def keys_of_def)
  next
    case False
    then obtain p where p: "p \<in> keys_of messages" "?p = VStr p" using known by blast
    have "rank p < rank k" using rank k p(2) by (auto simp: descending_def)
    moreover have "rank k < rank p" if "p \<in> set ?kids" using that rank K(3) by (auto simp: descending_def)
    ultimately have pm: "p \<in> keys_of m" using p(1) by (auto simp: keys)
    obtain e where e: "vget m p = VDict e" "map_of e ''childrenIds'' = Some (VList (kids_of m p))"
      using pruned(1) pm by (rule shapedE)
    note kids = linked_kids [OF forest(1) pm]
    show ?thesis
      by (rule that [of "kid_ids m p"]) (use False p(2) pm e kids in \<open>auto simp: branch_start_def dict_or_raise_def vget_default_def\<close>)
  qed
  obtain r where r: "last_branch m [] ?p (VList (map VStr ids)) = Inr r"
      "if ids = [] then r = ?p else \<exists>c\<in>keys_of m. r = VStr c \<and> kids_of m c = []"
    using last_branch_leaf [OF forest ids(2), of "[]" ?p] by auto
  have leaf: "if m = [] then r = VNone else \<exists>c\<in>keys_of m. r = VStr c \<and> kids_of m c = []"
  proof (cases "ids = []")
    case False
    then have "m \<noteq> []" using ids(2) by (cases ids) (auto simp: keys_of_def)
    then show ?thesis using False r(2) by simp
  next
    case nil: True
    show ?thesis
    proof (cases "?p = VNone")
      case False
      then show ?thesis using ids(4) nil r(2) by (auto simp: keys_of_def)
    next
      case True
      have "m = []"
      proof (rule ccontr)
        assume "m \<noteq> []"
        then have "keys_of m \<noteq> {}" by (simp add: keys_of_def)
        then obtain x where x: "x \<in> keys_of m" "\<And>y. y \<in> keys_of m \<Longrightarrow> rank x \<le> rank y"
          using arg_min_nat_lemma [of "\<lambda>y. y \<in> keys_of m" _ rank] by blast
        then have "parent_of m x \<noteq> VNone" using ids(3) [OF True] nil by auto
        then obtain q where "q \<in> keys_of m" "parent_of m x = VStr q" using forest(1) x(1) unfolding linked_def by blast
        then show False using forest(2) x by (fastforce simp: descending_def)
      qed
      then show ?thesis using nil r(2) True by simp
    qed
  qed
  obtain known where known': "key_in r m = Inr known" "r \<noteq> VNone \<Longrightarrow> known" using leaf by (cases "m = []") auto
  have moved: "move_up ?p k G messages = Inr m2" using yes m1(1) m2(1) by (simp add: move_up_def)
  have remaining: "filter (\<lambda>(i, v). i \<notin> set (k # ?kids)) m2 = m" by (simp add: m_def D_def)
  define h' where "h' = dict_set ''currentId'' r (dict_set ''messages'' (VDict m) history)"
  have some: "dict_or_raise (py_or (VDict messages) (VDict [])) = Inr messages"
    using k by (auto simp: py_or_def dict_or_raise_def keys_of_def)
  have "(if known then r else VNone) = r" using known'(2) by auto
  then have "delete_message_from_history history k = Inr (h', k # ?kids)"
    unfolding delete_message_from_history_def h some bind_res_simps d(1) pyval.case d(3) [symmetric] d(2) present grand moved
      Let_def remaining ids(1) r(1) known'(1) h'_def
    by simp
  moreover have "vget h' ''messages'' = VDict m" "vget h' ''currentId'' = r" by (simp_all add: h'_def vget_dict_set)
  moreover have "parent_of m x = (if parent_of messages x \<in> VStr ` set ?kids then ?p else parent_of messages x)" if "x \<in> keys_of m" for x
    using that pruned(3) [OF that] m2(4) G keys by auto
  moreover have "if m = [] then r = VNone else \<exists>c\<in>keys_of m. r = VStr c \<and> kids_of m c = []" by (rule leaf)
  ultimately show ?thesis using that [OF _ _ forest keys] by metis
qed

section \<open>Adding and changing a message\<close>

lemma shaped_entry:
  assumes "shaped messages" "(k, v) \<in> set messages"
  obtains d where "v = VDict d" "k \<in> keys_of messages" "vget_default d ''childrenIds'' (VList []) = VList (kids_of messages k)"
proof -
  have k: "k \<in> keys_of messages" using assms(2) by (force simp: keys_of_def)
  obtain d where d: "map_of messages k = Some (VDict d)" "map_of d ''childrenIds'' = Some (VList (kids_of messages k))"
    using assms(1) k by (rule shapedE)
  have "map_of messages k = Some v" using assms by (simp add: shaped_def)
  then show ?thesis using that [of d] d k by (simp add: vget_default_def)
qed

lemma find_parent_none:
  assumes "shaped messages" "\<And>k. k \<in> keys_of messages \<Longrightarrow> VStr i \<notin> set (kids_of messages k)"
  shows "find_parent i messages = Inr VNone"
proof -
  have "set ms \<subseteq> set messages \<Longrightarrow> find_parent i ms = Inr VNone" for ms
  proof (induction ms)
    case (Cons e ms)
    obtain k v where e: "e = (k, v)" by fastforce
    obtain d where d: "v = VDict d" "k \<in> keys_of messages" "vget_default d ''childrenIds'' (VList []) = VList (kids_of messages k)"
      using Cons.prems by (auto simp: e intro: shaped_entry [OF assms(1), of k v])
    have "VStr i \<notin> set (kids_of messages k)" by (rule assms(2) [OF d(2)])
    moreover have "find_parent i ms = Inr VNone" using Cons by simp
    ultimately show ?case by (simp add: e d dict_or_raise_def contains_key_def)
  qed simp
  then show ?thesis by blast
qed

lemma add_child_facts:
  assumes "shaped messages" "p \<in> keys_of messages"
  obtains m c where "add_child_id_to_parent messages (VStr p) i = Inr (m, c)" "shaped m" "keys_of m = keys_of messages"
    "\<And>x. parent_of m x = parent_of messages x"
    "\<And>x. kids_of m x = (if x = p \<and> VStr i \<notin> set (kids_of messages p) then kids_of messages p @ [VStr i] else kids_of messages x)"
    "VStr i \<in> set (kids_of messages p) \<Longrightarrow> m = messages"
proof -
  have p: "p \<noteq> []" using assms by (auto simp: shaped_def)
  obtain d where d: "vget messages p = VDict d" "map_of d ''childrenIds'' = Some (VList (kids_of messages p))"
      "parent_of messages p = vget d ''parentId''"
    using assms by (rule shapedE)
  then have v: "vget d ''childrenIds'' = VList (kids_of messages p)" by (simp add: vget_def)
  let ?m = "dict_set p (VDict (dict_set ''childrenIds'' (VList (kids_of messages p @ [VStr i])) d)) messages"
  show ?thesis
  proof (cases "VStr i \<in> set (kids_of messages p)")
    case True
    then have "add_child_id_to_parent messages (VStr p) i = Inr (messages, False)"
      using p by (simp add: add_child_id_to_parent_def lookup_message_def d(1) v list_or_empty_def)
    then show ?thesis using assms(1) True by (intro that) auto
  next
    case False
    then have "add_child_id_to_parent messages (VStr p) i = Inr (?m, True)"
      using p by (simp add: add_child_id_to_parent_def lookup_message_def d(1) v list_or_empty_def)
    moreover have "shaped ?m" by (rule shaped_dict_set [OF assms(1) _ p]) simp
    moreover have "keys_of ?m = keys_of messages" using assms(2) by (auto simp: keys_of_dict_set)
    ultimately show ?thesis
      using False by (intro that [of ?m]) (simp_all add: dict_set_facts vget_dict_set list_or_empty_def d(3))
  qed
qed

lemma added_keeps_forest:
  assumes l: "linked messages" and rank: "descending rank messages" and i: "i \<notin> keys_of messages" "i \<noteq> []"
    and parent: "vget message ''parentId'' = VNone \<or> (\<exists>p\<in>keys_of messages. vget message ''parentId'' = VStr p)"
    and children: "list_or_empty (vget message ''childrenIds'') = []"
    and h: "vget_default history ''messages'' (VDict []) = VDict messages"
    and up: "upsert_message_to_history history i message now = Inr (h', saved)"
  obtains m rank' where "vget h' ''messages'' = VDict m" "linked m" "descending rank' m" "keys_of m = insert i (keys_of messages)"
    "parent_of m i = vget message ''parentId''" "\<And>x. x \<noteq> i \<Longrightarrow> parent_of m x = parent_of messages x"
    "vget h' ''currentId'' = VStr i"
proof -
  let ?P = "vget message ''parentId''"
  have sh: "shaped messages" using l by (simp add: linked_def)
  have none: "find_parent i messages = Inr VNone"
  proof (rule find_parent_none [OF sh])
    fix k assume "k \<in> keys_of messages"
    then show "VStr i \<notin> set (kids_of messages k)" using linked_kids [OF l] i(1) by auto
  qed
  have search: "(if ?P = VNone then find_parent i messages else Inr ?P) = Inr ?P" using none by simp
  obtain role m c where u: "add_child_id_to_parent (dict_set i (VDict (new_message i ?P role now message)) messages) ?P i = Inr (m, c)"
      "h' = dict_set ''messages'' (VDict m) (dict_set ''currentId'' (VStr i) (dict_setdefault ''messages'' (VDict []) history))"
    using up i(1)
    by (auto simp: upsert_message_to_history_def h dict_or_raise_def search bind_res_Inr keys_of_def new_message_def vget_dict_set
        split: prod.splits)
  let ?n = "new_message i ?P role now message"
  let ?m0 = "dict_set i (VDict ?n) messages"
  have n: "vget ?n ''parentId'' = ?P" "map_of ?n ''childrenIds'' = Some (VList [])" "vget ?n ''childrenIds'' = VList []"
    using children by (simp_all add: new_message_def vget_def)
  have m0: "shaped ?m0" by (rule shaped_dict_set [OF sh n(2) i(2)])
  have par0: "parent_of ?m0 x = (if x = i then ?P else parent_of messages x)" for x by (simp add: dict_set_facts n)
  have kid0: "kids_of ?m0 x = (if x = i then [] else kids_of messages x)" for x by (simp add: dict_set_facts n list_or_empty_def)
  have fresh: "kids_of messages x = []" if "x = i" for x
    using that i(1) by (simp add: kids_of_def vget_def keys_of_def map_of_eq_None_iff [THEN iffD2] list_or_empty_def)
  have m: "shaped m" "keys_of m = insert i (keys_of messages)" "\<And>x. parent_of m x = parent_of ?m0 x"
    "\<And>x. kids_of m x = (if ?P = VStr x then kids_of messages x @ [VStr i] else kids_of ?m0 x)"
  proof -
    have keys0: "keys_of ?m0 = insert i (keys_of messages)" by (simp add: keys_of_dict_set)
    have "shaped m \<and> keys_of m = keys_of ?m0 \<and> (\<forall>x. parent_of m x = parent_of ?m0 x) \<and>
        (\<forall>x. kids_of m x = (if ?P = VStr x then kids_of messages x @ [VStr i] else kids_of ?m0 x))"
    proof (cases "?P = VNone")
      case True
      then have "m = ?m0" using u(1) by (simp add: add_child_id_to_parent_def)
      then show ?thesis using True m0 by simp
    next
      case False
      then obtain p where p: "p \<in> keys_of messages" "?P = VStr p" using parent by blast
      have kp: "kids_of ?m0 p = kids_of messages p" "VStr i \<notin> set (kids_of messages p)"
        using p(1) i(1) linked_kids [OF l p(1)] by (auto simp: kid0)
      have pk: "p \<in> keys_of ?m0" using p(1) keys0 by simp
      obtain m' c' where "add_child_id_to_parent ?m0 (VStr p) i = Inr (m', c')" "shaped m'" "keys_of m' = keys_of ?m0"
        "\<And>x. parent_of m' x = parent_of ?m0 x"
        "\<And>x. kids_of m' x = (if x = p \<and> VStr i \<notin> set (kids_of ?m0 p) then kids_of ?m0 p @ [VStr i] else kids_of ?m0 x)"
        using m0 pk by (rule add_child_facts [where i = i]) blast
      moreover from this(1) have "m' = m" using u(1) p(2) by simp
      ultimately show ?thesis using kp p(2) by auto
    qed
    then show "shaped m" "keys_of m = insert i (keys_of messages)" "\<And>x. parent_of m x = parent_of ?m0 x"
      "\<And>x. kids_of m x = (if ?P = VStr x then kids_of messages x @ [VStr i] else kids_of ?m0 x)"
      using keys0 by blast+
  qed
  define rank' where "rank' = (\<lambda>x. if x = i then (case ?P of VStr p \<Rightarrow> Suc (rank p) | _ \<Rightarrow> 0) else rank x)"
  have old: "parent_of messages x = VNone \<or> (\<exists>p\<in>keys_of messages. parent_of messages x = VStr p)" if "x \<in> keys_of messages" for x
    using l that unfolding linked_def by blast
  have P: "?P = VStr p \<Longrightarrow> p \<in> keys_of messages \<and> p \<noteq> i" for p using parent i(1) by auto
  have "descending rank' m"
    unfolding descending_def
  proof (intro ballI allI impI)
    fix c p assume c: "c \<in> keys_of m" "parent_of m c = VStr p"
    show "rank' p < rank' c"
    proof (cases "c = i")
      case True
      then show ?thesis using c(2) P [of p] by (simp add: m(3) par0 rank'_def)
    next
      case False
      then have "c \<in> keys_of messages" "parent_of messages c = VStr p" using c by (simp_all add: m(2,3) par0)
      then have "rank p < rank c" "p \<noteq> i" using rank old [of c] i(1) by (auto simp: descending_def)
      then show ?thesis using False by (simp add: rank'_def)
    qed
  qed
  moreover have "linked m"
    unfolding linked_def
  proof (intro conjI ballI)
    show "shaped m" by (rule m(1))
    fix x assume x: "x \<in> keys_of m"
    show "parent_of m x = VNone \<or> (\<exists>p\<in>keys_of m. parent_of m x = VStr p)"
      using x parent old [of x] by (auto simp: m(2,3) par0)
    have "distinct (kids_of m x) \<and> set (kids_of m x) = VStr ` {c \<in> keys_of m. parent_of m c = VStr x}"
    proof (cases "x = i")
      case True
      have "parent_of messages c \<noteq> VStr i" if "c \<in> keys_of messages" for c using old [OF that] i(1) by auto
      then have "{c \<in> keys_of m. parent_of m c = VStr i} = {}"
        using P [of i] by (auto simp: m(2,3) par0)
      then show ?thesis using True P [of i] by (auto simp: m(4) kid0)
    next
      case False
      then have xm: "x \<in> keys_of messages" using x by (simp add: m(2))
      note kids = linked_kids [OF l xm]
      have "{c \<in> keys_of m. parent_of m c = VStr x} = set (kid_ids messages x) \<union> (if ?P = VStr x then {i} else {})"
        using kids(3) i(1) by (auto simp: m(2,3) par0)
      moreover have "i \<notin> set (kid_ids messages x)" using kids(3) i(1) by simp
      ultimately show ?thesis
        using False kids(1,2) by (auto simp: m(4) kid0 distinct_map inj_on_def)
    qed
    then show "distinct (kids_of m x)" "set (kids_of m x) = VStr ` {c \<in> keys_of m. parent_of m c = VStr x}" by blast+
  qed
  ultimately show ?thesis
    using that [of m rank'] m(2,3) par0 by (simp add: u(2) vget_dict_set)
qed

lemma map_of_dict_merge: "k \<notin> fst ` set b \<Longrightarrow> map_of (dict_merge a b) k = map_of a k"
  unfolding dict_merge_def by (induction b arbitrary: a) auto

lemma changed_keeps_forest:
  assumes l: "linked messages" and i: "i \<in> keys_of messages"
    and fields: "''parentId'' \<notin> fst ` set message" "''childrenIds'' \<notin> fst ` set message"
    and h: "vget_default history ''messages'' (VDict []) = VDict messages"
    and up: "upsert_message_to_history history i message now = Inr (h', saved)"
  obtains m where "vget h' ''messages'' = VDict m" "linked m" "keys_of m = keys_of messages"
    "\<And>x. parent_of m x = parent_of messages x"
proof -
  have sh: "shaped messages" using l by (simp add: linked_def)
  obtain d where d: "vget messages i = VDict d" "map_of d ''childrenIds'' = Some (VList (kids_of messages i))"
      "parent_of messages i = vget d ''parentId''"
    using sh i by (rule shapedE)
  let ?m = "dict_set i (VDict (dict_merge d message)) messages"
  have same: "vget (dict_merge d message) ''parentId'' = vget d ''parentId''"
    "map_of (dict_merge d message) ''childrenIds'' = Some (VList (kids_of messages i))"
    using fields d(2) by (simp_all add: vget_def map_of_dict_merge)
  then have kids: "vget (dict_merge d message) ''childrenIds'' = VList (kids_of messages i)" by (simp add: vget_def)
  have "i \<noteq> []" using sh i by (auto simp: shaped_def)
  then have m: "shaped ?m" "keys_of ?m = keys_of messages" "parent_of ?m x = parent_of messages x" "kids_of ?m x = kids_of messages x" for x
    using shaped_dict_set [OF sh same(2)] i
    by (auto simp: keys_of_dict_set dict_set_facts same(1) kids d(3) list_or_empty_def)
  have "linked ?m" using l m unfolding linked_def by simp
  have ik: "i \<in> fst ` set messages" using i by (simp add: keys_of_def)
  obtain n c where u: "add_child_id_to_parent ?m (parent_of messages i) i = Inr (n, c)"
      "h' = dict_set ''messages'' (VDict n) history"
    using up ik
    by (auto simp: upsert_message_to_history_def h dict_or_raise_def mapping_or_raise_def d(1) bind_res_Inr
        d(3) vget_dict_set same(1) split: prod.splits)
  have "n = ?m"
  proof (cases "parent_of messages i = VNone")
    case True
    then show ?thesis using u(1) by (simp add: add_child_id_to_parent_def)
  next
    case False
    then obtain p where p: "p \<in> keys_of messages" "parent_of messages i = VStr p" using l i unfolding linked_def by blast
    have "VStr i \<in> set (kids_of ?m p)" using linked_kids [OF l p(1)] p(2) i by (simp add: m(4))
    moreover have pk: "p \<in> keys_of ?m" using p(1) m(2) by simp
    obtain m' c' where "add_child_id_to_parent ?m (VStr p) i = Inr (m', c')" "VStr i \<in> set (kids_of ?m p) \<Longrightarrow> m' = ?m"
      using m(1) pk by (rule add_child_facts [where i = i]) blast
    ultimately show ?thesis using u(1) p(2) by simp
  qed
  then show ?thesis using that [of ?m] \<open>linked ?m\<close> m(2,3) by (simp add: u(2) vget_dict_set)
qed

section \<open>Every history is a forest\<close>

inductive history_step :: "pydict \<Rightarrow> pydict \<Rightarrow> bool" where
  added: "vget_default h ''messages'' (VDict []) = VDict messages \<Longrightarrow> i \<notin> keys_of messages \<Longrightarrow> i \<noteq> [] \<Longrightarrow>
    vget message ''parentId'' = VNone \<or> (\<exists>p\<in>keys_of messages. vget message ''parentId'' = VStr p) \<Longrightarrow>
    list_or_empty (vget message ''childrenIds'') = [] \<Longrightarrow>
    upsert_message_to_history h i message now = Inr (h', saved) \<Longrightarrow> history_step h h'"
| changed: "vget_default h ''messages'' (VDict []) = VDict messages \<Longrightarrow> i \<in> keys_of messages \<Longrightarrow>
    ''parentId'' \<notin> fst ` set message \<Longrightarrow> ''childrenIds'' \<notin> fst ` set message \<Longrightarrow>
    upsert_message_to_history h i message now = Inr (h', saved) \<Longrightarrow> history_step h h'"
| deleted: "delete_message_from_history h i = Inr (h', ids) \<Longrightarrow> history_step h h'"

definition messages_of :: "pydict \<Rightarrow> message_map" where
  "messages_of h = as_dict (vget h ''messages'')"

definition forest_history :: "pydict \<Rightarrow> bool" where
  "forest_history h \<longleftrightarrow> vget_default h ''messages'' (VDict []) = VDict (messages_of h) \<and>
     linked (messages_of h) \<and> (\<exists>rank. descending rank (messages_of h))"

lemma forest_historyI:
  "vget h ''messages'' = VDict m \<Longrightarrow> linked m \<Longrightarrow> descending rank m \<Longrightarrow> forest_history h"
  by (auto simp: forest_history_def messages_of_def vget_default_present)

lemma history_step_forest:
  assumes "history_step h h'" "forest_history h"
  shows "forest_history h'"
proof -
  obtain rank where f: "linked (messages_of h)" "descending rank (messages_of h)"
      "vget_default h ''messages'' (VDict []) = VDict (messages_of h)"
    using assms(2) by (auto simp: forest_history_def)
  show ?thesis
    using assms(1)
  proof cases
    case (added messages i message now saved)
    then have e: "messages = messages_of h" using f(3) by simp
    show ?thesis
      by (rule added_keeps_forest [OF f(1,2) added(2) [unfolded e] added(3) added(4) [unfolded e] added(5) f(3) added(6)])
        (rule forest_historyI)
  next
    case (changed messages i message now saved)
    then have e: "messages = messages_of h" using f(3) by simp
    obtain m where m: "vget h' ''messages'' = VDict m" "linked m" "keys_of m = keys_of (messages_of h)"
      "\<And>x. parent_of m x = parent_of (messages_of h) x"
      by (rule changed_keeps_forest [OF f(1) changed(2) [unfolded e] changed(3,4) f(3) changed(5)]) blast
    then have "descending rank m" using f(2) by (simp add: descending_def)
    with m(1,2) show ?thesis by (rule forest_historyI)
  next
    case (deleted i ids)
    show ?thesis
    proof (cases "i \<in> keys_of (messages_of h)")
      case True
      then have "vget h ''messages'' = VDict (messages_of h)"
        using f(3) by (auto simp: vget_default_def vget_def keys_of_def messages_of_def split: option.splits)
      then obtain m where "vget h' ''messages'' = VDict m" "linked m" "descending rank m"
        by (rule delete_keeps_forest [OF f(1,2) True]) (use deleted in auto)
      then show ?thesis by (rule forest_historyI)
    next
      case False
      have "py_or (vget h ''messages'') (VDict []) = VDict (messages_of h)"
      proof (cases "map_of h ''messages''")
        case None
        then show ?thesis by (simp add: py_or_def vget_def messages_of_def)
      next
        case (Some v)
        then have "v = VDict (messages_of h)" using f(3) by (simp add: vget_default_def)
        then show ?thesis using Some by (auto simp: py_or_def vget_def)
      qed
      moreover have "vget (messages_of h) i = VNone"
        using False by (simp add: vget_def keys_of_def map_of_eq_None_iff [THEN iffD2])
      ultimately have "h' = h" using deleted by (simp add: delete_message_from_history_def dict_or_raise_def)
      then show ?thesis using assms(2) by simp
    qed
  qed
qed

lemma walk_to_root:
  assumes "linked messages" "descending rank messages"
  shows "k \<in> keys_of messages \<Longrightarrow> \<forall>v\<in>set visited. \<exists>s. v = VStr s \<and> rank k < rank s \<Longrightarrow>
    \<exists>ws. walk_parents messages visited (VStr k) = Inr ws \<and> ws \<noteq> [] \<and> snd (hd ws) = as_dict (vget messages k) \<and>
      vget (snd (last ws)) ''parentId'' = VNone"
proof (induction "rank k" arbitrary: k visited rule: less_induct)
  case less
  have "shaped messages" using assms(1) by (simp add: linked_def)
  then obtain d where d: "map_of messages k = Some (VDict d)" "vget messages k = VDict d" "parent_of messages k = vget d ''parentId''"
      "map_of d ''childrenIds'' = Some (VList (kids_of messages k))"
    using less.prems(1) by (rule shapedE)
  have "d \<noteq> []" using d(4) by auto
  have new: "VStr k \<notin> set visited" using less.prems(2) by auto
  show ?case
  proof (cases "parent_of messages k = VNone")
    case True
    then show ?thesis
      using d(2,3) \<open>d \<noteq> []\<close> new by (simp add: walk_parents.simps [of messages visited] lookup_message_def)
  next
    case False
    then obtain p where p: "p \<in> keys_of messages" "parent_of messages k = VStr p"
      using assms(1) less.prems(1) unfolding linked_def by blast
    have r: "rank p < rank k" using assms(2) less.prems(1) p(2) by (auto simp: descending_def)
    have "p \<noteq> []" using p(1) \<open>shaped messages\<close> by (auto simp: shaped_def)
    have "\<forall>v\<in>set (VStr k # visited). \<exists>s. v = VStr s \<and> rank p < rank s"
      using less.prems(2) r by (auto intro: less_trans)
    then obtain ws where "walk_parents messages (VStr k # visited) (VStr p) = Inr ws" "ws \<noteq> []" "vget (snd (last ws)) ''parentId'' = VNone"
      using less.hyps [OF r p(1)] by blast
    moreover have "vget d ''parentId'' = VStr p" using d(3) p(2) by simp
    ultimately show ?thesis
      using d(2) \<open>d \<noteq> []\<close> \<open>p \<noteq> []\<close> new
      by (simp add: walk_parents.simps [of messages visited] lookup_message_def Let_def)
  qed
qed


definition branched_chat :: message_map where
  \<comment> \<open>a question with two answers, of which one was asked about\<close>
  "branched_chat =
     [(''q'', VDict [(''id'', VStr ''q''), (''role'', VStr ''user''), (''childrenIds'', VList [VStr ''a'', VStr ''b''])]),
      (''a'', VDict [(''parentId'', VStr ''q''), (''role'', VStr ''assistant''), (''childrenIds'', VList [])]),
      (''b'', VDict [(''parentId'', VStr ''q''), (''role'', VStr ''assistant''), (''childrenIds'', VList [VStr ''c''])]),
      (''c'', VDict [(''parentId'', VStr ''b''), (''role'', VStr ''user''), (''childrenIds'', VList [])])]"

lemma branched_chat_forest: "forest_history [(''messages'', VDict branched_chat)]"
proof -
  have keys: "keys_of branched_chat = {''q'', ''a'', ''b'', ''c''}" by (auto simp: keys_of_def branched_chat_def)
  have parents: "parent_of branched_chat ''q'' = VNone" "parent_of branched_chat ''a'' = VStr ''q''"
    "parent_of branched_chat ''b'' = VStr ''q''" "parent_of branched_chat ''c'' = VStr ''b''" by code_simp+
  have kids: "kids_of branched_chat ''q'' = [VStr ''a'', VStr ''b'']" "kids_of branched_chat ''a'' = []"
    "kids_of branched_chat ''b'' = [VStr ''c'']" "kids_of branched_chat ''c'' = []" by code_simp+
  have "shaped branched_chat" unfolding shaped_def keys by (simp add: branched_chat_def)
  then have "linked branched_chat" unfolding linked_def keys by (auto simp: parents kids)
  moreover have "descending (\<lambda>k. if k = ''q'' then 0 else if k = ''c'' then 2 else 1) branched_chat"
    unfolding descending_def keys by (auto simp: parents)
  ultimately show ?thesis by (intro forest_historyI [of _ branched_chat]) (simp_all add: vget_def)
qed


section \<open>Merging histories\<close>

lemma map_of_dict_merge_distinct:
  "distinct (map fst b) \<Longrightarrow> map_of (dict_merge a b) k = (case map_of b k of Some v \<Rightarrow> Some v | None \<Rightarrow> map_of a k)"
  unfolding dict_merge_def
proof (induction b arbitrary: a)
  case (Cons e b)
  obtain i v where e: "e = (i, v)" by fastforce
  have "map_of b i = None" using Cons.prems by (simp add: e map_of_eq_None_iff)
  then show ?case using Cons by (auto simp: e split: option.splits)
qed simp

lemma distinct_dict_merge: "distinct (map fst a) \<Longrightarrow> distinct (map fst (dict_merge a b))"
  unfolding dict_merge_def by (induction b arbitrary: a) (auto intro: distinct_dict_set)

lemma map_of_filter_values:
  "distinct (map fst ms) \<Longrightarrow>
   map_of (filter (\<lambda>(k, v). P v) ms) k = (case map_of ms k of Some w \<Rightarrow> if P w then Some w else None | None \<Rightarrow> None)"
proof (induction ms)
  case (Cons e ms)
  obtain i v where e: "e = (i, v)" by fastforce
  have "map_of ms i = None" using Cons.prems by (simp add: e map_of_eq_None_iff)
  then show ?case using Cons by (cases "i = k") (simp_all add: e)
qed simp

lemma keys_of_dict_merge: "keys_of (dict_merge a b) = keys_of a \<union> keys_of b"
  unfolding dict_merge_def by (induction b arbitrary: a) (auto simp: keys_of_dict_set, auto simp: keys_of_def)

definition field_of :: "message_map \<Rightarrow> string \<Rightarrow> string \<Rightarrow> pyval" where
  "field_of messages k f = vget (as_dict (vget messages k)) f"

lemma cleared_facts:
  fixes ms :: message_map
  defines "m \<equiv> cleared_messages ms"
  assumes "distinct (map fst ms)"
  shows "map fst m = filter (\<lambda>k. is_mapping (vget ms k)) (map fst ms)"
    and "k \<in> keys_of m \<Longrightarrow> f \<noteq> ''childrenIds'' \<Longrightarrow> field_of m k f = field_of ms k f" "kids_of m k = []"
    and "k \<in> keys_of m \<Longrightarrow> is_mapping (vget m k)"
proof -
  have v: "vget ms (fst e) = snd e" if "e \<in> set ms" for e
  proof -
    have "map_of ms (fst e) = Some (snd e)" using that by (intro map_of_is_SomeI [OF assms(2)]) simp
    then show ?thesis by (simp add: vget_def)
  qed
  have "map fst m = map fst (filter (\<lambda>e. is_mapping (snd e)) ms)"
    by (simp add: m_def cleared_messages_def comp_def case_prod_unfold)
  also have "\<dots> = filter (\<lambda>k. is_mapping (vget ms k)) (map fst ms)"
    unfolding filter_map comp_def by (rule arg_cong [of _ _ "map fst"], rule filter_cong) (simp_all add: v)
  finally show keys: "map fst m = filter (\<lambda>k. is_mapping (vget ms k)) (map fst ms)" .
  have look: "map_of m k = (case map_of ms k of Some w \<Rightarrow>
      if is_mapping w then Some (VDict (dict_set ''childrenIds'' (VList []) (as_dict w))) else None | None \<Rightarrow> None)" for k
    by (simp add: m_def cleared_messages_def map_of_map map_of_filter_values [OF assms(2)] split: option.split)
  have k: "\<exists>w. map_of ms k = Some w \<and> is_mapping w" if "k \<in> keys_of m" for k
    using that unfolding keys_of_def keys by (auto simp: vget_def split: option.splits)
  show "k \<in> keys_of m \<Longrightarrow> f \<noteq> ''childrenIds'' \<Longrightarrow> field_of m k f = field_of ms k f" "k \<in> keys_of m \<Longrightarrow> is_mapping (vget m k)"
    using k [of k] by (auto simp: field_of_def vget_def look)
  show "kids_of m k = []" by (simp add: kids_of_def vget_def look list_or_empty_def split: option.splits)
qed

lemma link_loop:
  "fold_res link_to_parent ks ms = Inr m \<Longrightarrow> (\<And>x. x \<in> keys_of ms \<Longrightarrow> is_mapping (vget ms x)) \<Longrightarrow>
   keys_of m = keys_of ms \<and> (\<forall>x f. f \<noteq> ''childrenIds'' \<longrightarrow> field_of m x f = field_of ms x f) \<and>
   (\<forall>x\<in>keys_of ms. kids_of m x = kids_of ms x @ map VStr (filter (\<lambda>c. field_of ms c ''parentId'' = VStr x) ks))"
proof (induction ks arbitrary: ms)
  case (Cons k ks)
  let ?p = "field_of ms k ''parentId''"
  obtain n where n0: "link_to_parent k ms = Inr n" "fold_res link_to_parent ks n = Inr m"
    using Cons.prems(1) by (auto simp: bind_res_Inr)
  obtain known where known: "key_in ?p ms = Inr known"
    using n0(1) by (auto simp: link_to_parent_def bind_res_Inr Let_def field_of_def)
  note n = n0 known
  have step: "keys_of n = keys_of ms \<and> (\<forall>x f. f \<noteq> ''childrenIds'' \<longrightarrow> field_of n x f = field_of ms x f) \<and>
      (\<forall>x\<in>keys_of ms. is_mapping (vget n x) \<and>
        kids_of n x = kids_of ms x @ (if ?p = VStr x then [VStr k] else []))"
  proof (cases known)
    case True
    then obtain s where s: "?p = VStr s" "s \<in> keys_of ms"
      using n(3) by (auto simp: key_in_def keys_of_def split: if_splits pyval.splits)
    have "n = dict_set s (VDict (dict_set ''childrenIds'' (VList (kids_of ms s @ [VStr k])) (as_dict (vget ms s)))) ms"
      using n(1) s by (simp add: link_to_parent_def field_of_def kids_of_def Let_def)
    then show ?thesis
      using s Cons.prems(2) by (auto simp: keys_of_dict_set field_of_def kids_of_def vget_def list_or_empty_def)
  next
    case False
    then have "n = ms" using n(1,3) by (simp add: link_to_parent_def field_of_def)
    moreover have "?p \<noteq> VStr x" if "x \<in> keys_of ms" for x using False n(3) that by auto
    ultimately show ?thesis using Cons.prems(2) by simp
  qed
  then have "keys_of m = keys_of n \<and> (\<forall>x f. f \<noteq> ''childrenIds'' \<longrightarrow> field_of m x f = field_of n x f) \<and>
     (\<forall>x\<in>keys_of n. kids_of m x = kids_of n x @ map VStr (filter (\<lambda>c. field_of n c ''parentId'' = VStr x) ks))"
    by (intro Cons.IH [OF n(2)]) simp
  then show ?case using step by auto
qed simp

text \<open>C39 (functional): when a client saves a history it read earlier, no message stored since then is lost:
  each message of either side is kept, the client's version where both have one, and the children of
  each message are exactly the messages that name it as their parent.\<close>

theorem merge_keeps_messages:
  assumes "merge_history (VDict stored) (VDict sent) = Inr h"
    and "distinct (map fst (messages_of stored))" "distinct (map fst (messages_of sent))"
    and "list_all (\<lambda>(k, m). is_mapping m) (messages_of stored @ messages_of sent)"
  shows "keys_of (messages_of h) = keys_of (messages_of stored) \<union> keys_of (messages_of sent) \<and>
    list_all (\<lambda>k. (\<forall>f. f \<noteq> ''childrenIds'' \<longrightarrow> field_of (messages_of h) k f =
        field_of (if k \<in> keys_of (messages_of sent) then messages_of sent else messages_of stored) k f) \<and>
      set (kids_of (messages_of h) k) = VStr ` {c \<in> keys_of (messages_of h). parent_of (messages_of h) c = VStr k})
      (map fst (messages_of h))"
proof -
  let ?S = "messages_of stored" and ?I = "messages_of sent"
  have some: "dict_or_raise (py_or (VDict d) (VDict [])) = Inr d" for d by (simp add: py_or_def dict_or_raise_def)
  have maps: "x = messages_of d" if "mapping_or_raise (py_or (vget d ''messages'') (VDict [])) = Inr x" for x d
    using that by (cases "vget d ''messages''") (auto simp: mapping_or_raise_def py_or_def messages_of_def split: if_splits)
  define base where "base = dict_merge ?S ?I"
  obtain merged where m: "fold_res link_to_parent (map fst (cleared_messages base)) (cleared_messages base) = Inr merged"
      "messages_of h = merged"
    using assms(1) maps
    by (auto simp: merge_history_def some bind_res_Inr Let_def base_def messages_of_def vget_dict_set)
  have d: "distinct (map fst base)" unfolding base_def by (rule distinct_dict_merge [OF assms(2)])
  note cleared = cleared_facts [OF d]
  note loop = link_loop [OF m(1) cleared(4)]
  have look: "vget base k = (if k \<in> keys_of ?I then vget ?I k else vget ?S k)" for k
  proof (cases "map_of ?I k")
    case None
    then have "k \<notin> keys_of ?I" by (simp add: keys_of_def map_of_eq_None_iff)
    then show ?thesis using None by (simp add: base_def vget_def map_of_dict_merge_distinct [OF assms(3)])
  next
    case (Some v)
    then have "k \<in> keys_of ?I" by (force simp: keys_of_def dest: map_of_SomeD)
    then show ?thesis using Some by (simp add: base_def vget_def map_of_dict_merge_distinct [OF assms(3)])
  qed
  have keys: "keys_of base = keys_of ?S \<union> keys_of ?I"
    by (simp add: base_def keys_of_dict_merge)
  have map: "is_mapping (vget base k)" if "k \<in> keys_of base" for k
  proof -
    have "is_mapping (vget xs k)" if k: "k \<in> keys_of xs" and all: "list_all (\<lambda>(k, m). is_mapping m) xs" for xs
    proof -
      have "map_of xs k \<noteq> None" using k by (simp add: keys_of_def map_of_eq_None_iff)
      then obtain v where "map_of xs k = Some v" by blast
      then show ?thesis using all by (auto simp: list_all_iff vget_def dest!: map_of_SomeD)
    qed
    then show ?thesis using that assms(4) unfolding look keys by auto
  qed
  have ck: "keys_of (cleared_messages base) = keys_of ?S \<union> keys_of ?I"
    using cleared(1) map keys unfolding keys_of_def by auto
  then have "keys_of merged = keys_of ?S \<union> keys_of ?I" using loop by simp
  moreover have "field_of merged k f = field_of (if k \<in> keys_of ?I then ?I else ?S) k f"
    if "k \<in> keys_of merged" "f \<noteq> ''childrenIds''" for k f
    using that loop cleared(2) look ck by (simp add: field_of_def)
  moreover have "set (kids_of merged k) = VStr ` {c \<in> keys_of merged. parent_of merged c = VStr k}" if "k \<in> keys_of merged" for k
  proof -
    let ?c = "cleared_messages base"
    have "k \<in> keys_of ?c" using that loop by simp
    then have "kids_of merged k = map VStr (filter (\<lambda>c. field_of ?c c ''parentId'' = VStr k) (map fst ?c))"
      using loop cleared(3) by simp
    moreover have "parent_of merged c = field_of ?c c ''parentId''" for c using loop by (simp add: parent_of_def field_of_def)
    ultimately show ?thesis using loop by (simp add: keys_of_def)
  qed
  ultimately show ?thesis by (simp add: m(2) list_all_iff keys_of_def)
qed

lemma merge_keeps_messages_witness:
  "\<exists>h. merge_history (VDict [(''messages'', VDict branched_chat)])
         (VDict [(''messages'', VDict [(''d'', VDict [(''parentId'', VStr ''a'')])]), (''currentId'', VStr ''d'')]) = Inr h \<and>
     keys_of (messages_of h) = {''q'', ''a'', ''b'', ''c'', ''d''} \<and> kids_of (messages_of h) ''a'' = [VStr ''d'']"
proof -
  let ?s = "[(''messages'', VDict branched_chat)]"
  let ?i = "[(''messages'', VDict [(''d'', VDict [(''parentId'', VStr ''a'')])]), (''currentId'', VStr ''d'')]"
  obtain h where h: "merge_history (VDict ?s) (VDict ?i) = Inr h"
  proof (cases "merge_history (VDict ?s) (VDict ?i)")
    case (Inl e)
    have "(case merge_history (VDict ?s) (VDict ?i) of Inl e \<Rightarrow> False | Inr h \<Rightarrow> True)" by code_simp
    then show ?thesis using Inl by simp
  qed
  have "(case merge_history (VDict ?s) (VDict ?i) of Inl e \<Rightarrow> False | Inr h \<Rightarrow> kids_of (messages_of h) ''a'' = [VStr ''d''])" by code_simp
  then have "kids_of (messages_of h) ''a'' = [VStr ''d'']" by (simp add: h)
  moreover have "keys_of (messages_of h) = keys_of (messages_of ?s) \<union> keys_of (messages_of ?i)"
    using merge_keeps_messages [OF h] by (simp add: messages_of_def branched_chat_def)
  moreover have "keys_of (messages_of ?s) \<union> keys_of (messages_of ?i) = {''q'', ''a'', ''b'', ''c'', ''d''}"
    by (auto simp: messages_of_def branched_chat_def keys_of_def)
  ultimately show ?thesis using h by blast
qed

end
