(* ===== verification/Spec2Isabelle.thy ===== *)
theory Spec2Isabelle
  imports PlanProperties WorkflowProperties Startup Responses Adapter Embedding Readers
    Streaming RateLimit AccessProperties Compaction ChatTree
begin

text \<open>
  \<^bold>\<open>Nahaj, an agentic semester assistant.\<close> This development models the backend of Nahaj
  (\<open>src/backend\<close>), the proxy router its front end adds (\<open>open_webui/routers/nahaj.py\<close>) and the routines
  of Open WebUI that guard and carry a student's requests (\<open>src/frontend/backend/open_webui\<close>). A student
  chats through Open WebUI; the proxy adds the API key; the API (\<open>main.py\<close>) keeps semester, courses,
  documents, tasks, quizzes and notifications in a database and hands each chat turn, each old exam that is
  uploaded and each progress check to a supervisor (\<open>workflow.py\<close>): a graph of nodes that call the agents
  (\<open>agents.py\<close>), which plan study sessions, generate quizzes, answer from the indexed course material
  (\<open>rag_ingestion.py\<close>, \<open>rag_retrieval.py\<close>) and check what goes in and out (\<open>guardrails.py\<close>). The
  supervisor answers with events; the API applies them to the database and turns them into the reply.

  \<^bold>\<open>Python.\<close> \<open>Prelude\<close>: exceptions, fallible results, dictionaries in insertion order, list lemmas.
  \<open>PyText\<close>: string operations on ASCII text. \<open>PyRegex\<close>: backtracking regular expressions as \<open>re\<close> runs
  them, related to their relational meaning. \<open>PyFloat\<close>: binary64 as correctly rounded rationals
  (overflow, infinities and NaN do not occur in the values the code computes with). \<open>PyDate\<close> and
  \<open>IsoDate\<close>: dates as day numbers, datetimes as microseconds, the ISO text format and its round trip.
  \<open>PyVal\<close>: the untyped values
  (\<open>dict[str, Any]\<close>) passed between the agents, with truth value, \<open>str\<close>, iteration. \<open>PyJson\<close>:
  \<open>json.dumps\<close>. \<open>Model\<close>: the language model as a parameter, and \<open>_model_text\<close>.

  \<^bold>\<open>Components and their code.\<close>
  \<^item> \<open>Guardrails\<close> (\<open>guardrails.py\<close>): the patterns as regular expressions, detection of prompt
    injections, quarantine of retrieved chunks, validation of responses. A released response passes the
    validation; text around an injection does not hide it.
  \<^item> \<open>Readers\<close> (\<open>_read_document\<close>, \<open>_read_office_xml\<close>, \<open>_slide_count\<close>, \<open>collection\<close>), over paths (\<open>PyPath\<close>):
    packages as lists of element trees; slides are read by number. \<open>Embedding\<close>
    (\<open>LocalHashEmbeddingFunction\<close>): the vector of a text, a function of its bag of words.
  \<^item> \<open>RagIngestion\<close> (\<open>CourseIngestor\<close>): sections, chunk windows, row ids, and a collection as the list
    of its rows under delete and add. Ingesting replaces the rows of one document and no others, twice
    is once, and chunking loses no word.
  \<^item> \<open>RagRetrieval\<close> (\<open>CourseRetriever\<close>): BM25, chapter filter and rank fusion in binary64; the result is
    the best-ranked records of the requested chapters.
  \<^item> \<open>Planning\<close>, \<open>Scheduler\<close>, \<open>Plan\<close>, \<open>PlanProperties\<close> (\<open>planning_agent\<close>): from the shared state to
    candidates with effort and priority, days for their sessions (model proposal, rule schedule, validation,
    top-up, backfill, renumbering), the plan with totals and revision report, the questions before it and
    the calendar after it. The daily limit holds through every stage, every candidate is scheduled, a plan's
    totals and its reported horizon are those of its schedule.
  \<^item> \<open>Quiz\<close> (\<open>quiz_agent\<close>): scope, material parts, normalisation of candidates, selection, public view.
  \<^item> \<open>Agents\<close>: routing, communication, course-material and progress agents with their checks.
  \<^item> \<open>WorkflowText\<close>, \<open>Workflow\<close>, \<open>WorkflowProperties\<close> (\<open>LangGraphSupervisor\<close>): the helpers, one function
    per node, the edges, the pause at the approval node, and \<open>handle\<close>; \<open>gateway\<close> holds the paused
    conversations and the saved checkpoints. Over all reachable gateways: calendar tasks are written
    only after an approval of a paused draft, a paused conversation can be resumed, every text sent is validated.
  \<^item> \<open>Store\<close> (\<open>models.py\<close>): a record per row, a list of rows per table; the locale \<open>keyed_table\<close> is the
    contract of a table (a map from keys to rows) and is interpreted for each table that is looked up by key.
  \<^item> \<open>Events\<close> (\<open>_apply_event\<close>, \<open>_consume_supervisor\<close>, \<open>_process_document_ingest\<close>, progress check),
    \<open>Snapshot\<close> (\<open>_shared_state_snapshot\<close>), \<open>Api\<close> (authorisation, bodies, semester, courses, documents,
    tasks, progress), \<open>Attempts\<close> (quizzes, attempts, notifications), \<open>Chat\<close> (\<open>/v1/chat/completions\<close>): one
    function per handler from the validated request and the database to the answer and the database
    afterwards, every refusal an \<open>API_error\<close> with the code's status, code and message.
  \<^item> \<open>QuizBank\<close>, \<open>ApiProperties\<close>: the invariant of the quiz tables under \<open>api_step\<close>, the requests and events
    of the API; score and finality of attempts; the hidden answer key; the task table as a refinement of a
    map; document ingest; and the two ends of a quiz, as the workflow generates it and the API stores it.
  \<^item> \<open>Responses\<close> (\<open>schemas.py\<close>): the response models, which pages stay readable under which requests, and
    the task that makes the plan unreadable. \<open>Startup\<close> (\<open>lifespan\<close>): interrupted ingests are resumed and settled.
  \<^item> \<open>Adapter\<close> (\<open>config.py\<close>, \<open>supervisor_contract.py\<close>, \<open>nahaj.py\<close>): the OpenRouter adapter with its
    retries and settings, the cached gateway, the proxy with its urls and headers; the browser's
    credentials never reach the API.

  \<^bold>\<open>Open WebUI.\<close> The front end stands between the student and the API; the routines that decide who gets
  through and what reaches a model are modelled, each theory on its own over the values of \<open>PyVal\<close>.
  \<^item> \<open>Streaming\<close> (\<open>stream_chunks_handler\<close> of \<open>utils/misc.py\<close>): a step per network chunk, on the buffer and the
    flag for a line that is too long. The lines do not depend on the cuts between the chunks, and the
    buffer stays within its limit.
  \<^item> \<open>RateLimit\<close> (\<open>utils/rate_limit.py\<close>): the buckets of a rolling window in memory, and with Redis as a
    parameter of the commands the code sends. No more attempts than the limit get through in a window.
  \<^item> \<open>Permissions\<close> (\<open>config.py\<close>, \<open>models/groups.py\<close>, \<open>utils/access_control\<close>): defaults from the environment,
    groups, and their combination, as nested dictionaries. What is listed is what the checks grant.
  \<^item> \<open>AccessGrants\<close>, \<open>AccessProperties\<close> (\<open>models/access_grants.py\<close>, \<open>utils/access_control\<close>,
    \<open>update_knowledge_access_by_id\<close>): normalisation, the table of grants under set, grant and revoke, the
    checks of single resources, the lists and the filters of queries, the walk along base models, and the
    route that changes the grants of a knowledge base. Lists and checks agree; a user stores no grant
    that the permissions do not allow.
  \<^item> \<open>ChatMessages\<close>, \<open>ChatTools\<close> (\<open>utils/misc.py\<close>, \<open>utils/middleware.py\<close>): the chain of parents of a message, its
    text, the two passes that pair tool calls and results, one system message in front. The chain ends
    in a damaged history as well; after a pass no call and no result is alone.
  \<^item> \<open>ChatOutput\<close> (\<open>convert_output_to_messages\<close>): the stored answer of an assistant rebuilt as messages, the
    variables of the loop as a record, an item as a step. \<open>ChatReplay\<close> (\<open>process_chat_payload\<close>): a chat loaded
    from its rows, with images, answers rebuilt, reasoning of other models left out. Results stand behind
    their calls; what is sent is in pairs and holds no stored field.
  \<^item> \<open>Compaction\<close> (\<open>utils/context_compaction.py\<close>, its use in \<open>process_chat_payload\<close>): the size of a
    conversation, the boundary before which it is replaced by a summary, and the checkpoint. A compaction keeps
    the end of the conversation from a message of the student on, and the next request resumes there.
  \<^item> \<open>ChatHistory\<close>, \<open>ChatTree\<close> (\<open>models/chats.py\<close>): the history of a chat as JSON and the row that holds it,
    repaired, merged, with messages added, changed and deleted. The history stays a forest: parents and
    children agree and every message leads back to a root; merging loses no message.

  \<^bold>\<open>Loops and fuel.\<close> Every loop is total with a termination proof of its own: the search for an open
  day ends at the limit of the window, the chunk windows at the last word, the graph follows its edges with
  a measure on the nodes, the retry loop counts the attempts left, and the walks along base models and
  parents of messages decrease the names not yet visited. Two helpers count down a bound that
  is enough: the matches of a pattern in a text of \<open>n\<close> characters are at most \<open>n + 1\<close>, since each starts
  behind the one before, and \<open>repr\<close> of a float tries up to 17 digits, which determine a binary64 number.

  \<^bold>\<open>Interfaces.\<close> \<open>guard\<close> (what the agents need of the guardrails), \<open>day_codec\<close> (days as text),
  \<open>day_finder\<close> (what the stages of the scheduler need of the search for a day) and \<open>keyed_table\<close> (tables
  with a primary key) are locales, and so is \<open>tool_pairing\<close> (a pass over calls and results); each is interpreted on the definitions of the component that provides it.

  \<^bold>\<open>Parameters.\<close> Code outside \<open>src/\<close> is an argument: the language models and the network exchange of
  the adapter, Chroma's query and \<open>math.log\<close>, SHA-256 and BLAKE2b, \<open>mimetypes.guess_type\<close>, pypdf, unpacking
  and XML parsing of Office files, the import of a supervisor factory, Redis, the
  JSON codec of Open WebUI, and the reply of the model that summarises a conversation. A request takes what it
  draws from its surroundings, the identifiers of \<open>uuid4\<close> and the readings of the clock, as \<open>draws\<close>; theorems
  that need fresh identifiers say so (\<open>unused\<close>). LangGraph is modelled by its documented behaviour: a run
  stops before the approval node, its state is saved, a resumed run continues from there. SQLAlchemy is
  modelled by what the source uses of it: a session without autoflush, \<open>commit\<close>, \<open>rollback\<close>, primary keys,
  unique constraints, NOT NULL where the source catches it, relationships with their cascades. \<open>Failed\<close>
  carries, beside the committed database, what the next commit of the same session would store.

  \<^bold>\<open>Not modelled.\<close> Logging (\<open>logger.py\<close>); construction of the database engine, the rest of start-up, the periodic
  worker and schema migrations (\<open>database.py\<close>, the lifespan of \<open>main.py\<close>, \<open>alembic\<close>), which only call
  libraries; environment settings (\<open>app_config.py\<close>);
  what LangGraph's checkpointer keeps of a run that raised; FastAPI's parsing and Pydantic's lists of
  errors; the limits of column lengths and the binding of Python values to column types; text outside
  ASCII; concurrency of requests, each of which runs on its own session. JSON values that are copied are equal
  to their copies, and identifiers are compared as they stand. The rest of \<open>src/frontend\<close>, the browser
  client and the other routers, tools, retrieval, OAuth and storage of the vendored Open WebUI, is
  third-party code this repository does not change.
\<close>

end
